theory Spec2Isabelle
  imports Main "HOL-Library.Word"
begin

unbundle bit_operations_syntax

section \<open>STYML: characters and C strings\<close>

abbreviation cNUL :: char where "cNUL \<equiv> CHR 0x00"
abbreviation cTAB :: char where "cTAB \<equiv> CHR 0x09"
abbreviation cLF :: char where "cLF \<equiv> CHR 0x0A"
abbreviation cCR :: char where "cCR \<equiv> CHR 0x0D"
abbreviation cSP :: char where "cSP \<equiv> CHR 0x20"
abbreviation cDQ :: char where "cDQ \<equiv> CHR 0x22"
abbreviation cSQ :: char where "cSQ \<equiv> CHR 0x27"

text \<open>
  A \<open>const char*\<close> view of a string held in the arena: positions inside the string read
  the string, the position right after it reads the terminating zero that \<open>addString\<close> and
  \<open>commitSession\<close> always write, and the position right before it reads the terminating
  zero of the preceding arena string (the root key name is stored first, so there is one).
\<close>

definition cAt :: "string \<Rightarrow> int \<Rightarrow> char" where
  "cAt text i = (if 0 \<le> i \<and> i < int (length text) then text ! nat i else cNUL)"

section \<open>YAML emitter: selection of the scalar style (dumpAsYaml, VALUE case)\<close>

datatype ScalarStyle = NoOutput | Plain | SingleQuote | DoubleQuote | Literal

text \<open>The analysis loop \<open>while (idx < textSize)\<close>; the state is (isPlain, newLineCount).\<close>

function analyzeLoop :: "string \<Rightarrow> nat \<Rightarrow> bool \<Rightarrow> int \<Rightarrow> bool \<times> int" where
  "analyzeLoop text idx isPlain newLineCount =
     (if idx < length text then
        (let c = text ! idx;
             newLineCount1 = (if c = cLF then newLineCount + 1 else newLineCount);
             isPlain1 = (if isPlain \<and> c = CHR '':'' \<and> idx + 1 < length text \<and>
                            (text ! (idx + 1) = cSP \<or> text ! (idx + 1) = cCR \<or> text ! (idx + 1) = cLF)
                         then False else isPlain);
             isPlain2 = (if isPlain1 \<and> c = CHR ''#'' \<and> (idx = 0 \<or> text ! (idx - 1) = cSP)
                         then False else isPlain1)
         in analyzeLoop text (idx + 1) isPlain2 newLineCount1)
      else (isPlain, newLineCount))"
  by pat_completeness auto
termination
  by (relation "measure (\<lambda>(text, idx, isPlain, n). length text - idx)") auto

declare analyzeLoop.simps [simp del]

text \<open>The loop \<open>while (text[lastIdx] == '\n')\<close> that discounts the trailing newlines.\<close>

function trailingLoop :: "string \<Rightarrow> int \<Rightarrow> int \<Rightarrow> int" where
  "trailingLoop text lastIdx newLineCount =
     (if cAt text lastIdx = cLF then
        (let lastIdx1 = lastIdx - 1;
             lastIdx2 = (if cAt text lastIdx1 = cCR then lastIdx1 - 1 else lastIdx1)
         in trailingLoop text lastIdx2 (newLineCount - 1))
      else newLineCount)"
  by pat_completeness auto
termination
  by (relation "measure (\<lambda>(text, lastIdx, n). nat (lastIdx + 1))")
     (auto simp: cAt_def split: if_splits)

declare trailingLoop.simps [simp del]

text \<open>
  The style chosen for the string of a VALUE element; \<open>text\<close> is the string without its
  terminating zero (\<open>textSize = getStringSize() - 1\<close>). Nothing is written for an empty
  string (\<open>getStringSize() > 1\<close> fails).
\<close>

definition scalarStyle :: "string \<Rightarrow> ScalarStyle" where
  "scalarStyle text =
     (if length text = 0 then NoOutput
      else
        (let textSize = length text;
             isPlain0 = (text ! 0 \<noteq> cSP \<and> text ! 0 \<noteq> CHR ''>'' \<and> text ! 0 \<noteq> CHR ''|'' \<and>
                         text ! 0 \<noteq> cSQ \<and> text ! 0 \<noteq> cDQ \<and> text ! (textSize - 1) \<noteq> cSP);
             (isPlain, newLineCount0) = analyzeLoop text 0 isPlain0 0;
             isSingleQuote = (newLineCount0 = 0);
             newLineCount = (if \<not> isPlain \<and> newLineCount0 > 0
                             then trailingLoop text (int textSize - 1) newLineCount0
                             else newLineCount0)
         in if isPlain \<and> newLineCount = 0 then Plain
            else if isSingleQuote then SingleQuote
            else if True \<or> newLineCount = 0 then DoubleQuote
            else Literal))"

subsection \<open>The selection rule in the words of the specification\<close>

fun hasPair :: "char \<Rightarrow> char \<Rightarrow> string \<Rightarrow> bool" where
  "hasPair a b (x # y # zs) = ((x = a \<and> y = b) \<or> hasPair a b (y # zs))"
| "hasPair a b _ = False"

text \<open>
  Specification, 4.H: plain if \<open>s\<close> does not start with space, \<open>> | ' "\<close> and does not end
  with space; contains no \<open>": "\<close> or \<open>:\<close> at end-of-segment; contains no \<open>" #"\<close>;
  contains no tab, carriage return, or newline.
\<close>

definition specPlain :: "string \<Rightarrow> bool" where
  "specPlain s =
     (s \<noteq> [] \<and> hd s \<notin> {cSP, CHR ''>'', CHR ''|'', cSQ, cDQ} \<and> last s \<noteq> cSP \<and>
      \<not> hasPair (CHR '':'') cSP s \<and> \<not> hasPair (CHR '':'') cLF s \<and> \<not> hasPair (CHR '':'') cCR s \<and>
      last s \<noteq> CHR '':'' \<and>
      \<not> hasPair cSP (CHR ''#'') s \<and>
      cTAB \<notin> set s \<and> cCR \<notin> set s \<and> cLF \<notin> set s)"

definition specStyle :: "string \<Rightarrow> ScalarStyle" where
  "specStyle s = (if specPlain s then Plain else if cLF \<notin> set s then SingleQuote else DoubleQuote)"

text \<open>What the emitter does by design: a leading \<open>#\<close> also excludes the plain style.\<close>

definition codePlain :: "string \<Rightarrow> bool" where
  "codePlain s =
     (s \<noteq> [] \<and> hd s \<notin> {cSP, CHR ''>'', CHR ''|'', cSQ, cDQ, CHR ''#''} \<and> last s \<noteq> cSP \<and>
      \<not> hasPair (CHR '':'') cSP s \<and> \<not> hasPair cSP (CHR ''#'') s \<and> cLF \<notin> set s)"

text \<open>Position \<open>i\<close> of the text makes the analysis loop give up the plain style.\<close>

definition violAt :: "string \<Rightarrow> nat \<Rightarrow> bool" where
  "violAt text i \<longleftrightarrow>
     (text ! i = CHR '':'' \<and> i + 1 < length text \<and>
        (text ! (i + 1) = cSP \<or> text ! (i + 1) = cCR \<or> text ! (i + 1) = cLF)) \<or>
     (text ! i = CHR ''#'' \<and> (i = 0 \<or> text ! (i - 1) = cSP))"

section \<open>Node types and elements\<close>

datatype NodeType = UNKNOWN | KEY | VALUE | SEQUENCE | MAP | COMMENT

text \<open>
  An \<open>Element\<close> packs the type, the 29-bit compound field and a union of three 32-bit
  fields. \<open>typed1\<close>, \<open>typed2\<close> and \<open>typed3\<close> are the three fields of the union in
  declaration order: \<open>key = {stringIdx, eltIdx, commentIdx}\<close>,
  \<open>value = {stringIdx, commentIdx}\<close>, \<open>comment = {stringIdx, isStandalone, commentIdx}\<close>.
  For a container the union holds \<open>subQty\<close> and the pointer \<open>subs\<close>; the model keeps the
  array as the list \<open>subs\<close>, whose length is \<open>subQty\<close>, and the capacity in \<open>compound\<close>.
\<close>

record Element =
  etype :: NodeType
  compound :: nat
  typed1 :: nat
  typed2 :: nat
  typed3 :: nat
  subs :: "nat list"

definition CompoundMask :: nat where
  "CompoundMask = 2 ^ 29 - 1"

definition newElement :: "NodeType \<Rightarrow> Element" where
  "newElement kind = \<lparr>etype = kind, compound = 0, typed1 = 0, typed2 = 0, typed3 = 0, subs = []\<rparr>"

definition newStringElement :: "NodeType \<Rightarrow> nat \<Rightarrow> nat \<Rightarrow> Element" where
  "newStringElement kind stringIdx stringSize =
     \<lparr>etype = kind, compound = stringSize mod 2 ^ 29, typed1 = stringIdx, typed2 = 0, typed3 = 0,
      subs = []\<rparr>"

definition newKeyElement :: "NodeType \<Rightarrow> nat \<Rightarrow> nat \<Rightarrow> nat \<Rightarrow> Element" where
  "newKeyElement kind stringIdx stringSize eltIdx =
     \<lparr>etype = kind, compound = stringSize mod 2 ^ 29, typed1 = stringIdx, typed2 = eltIdx,
      typed3 = 0, subs = []\<rparr>"

definition getType :: "Element \<Rightarrow> NodeType" where
  "getType e = etype e"

definition getStringSize :: "Element \<Rightarrow> nat" where
  "getStringSize e = compound e"

definition getStringIdx :: "Element \<Rightarrow> nat" where
  "getStringIdx e = typed1 e"

definition getKeyValue :: "Element \<Rightarrow> nat" where
  "getKeyValue e = typed2 e"

definition getSubQty :: "Element \<Rightarrow> nat" where
  "getSubQty e = (if getType e = KEY then (if typed2 e = 0 then 0 else 1) else length (subs e))"

definition getSub :: "Element \<Rightarrow> nat \<Rightarrow> nat" where
  "getSub e idx = subs e ! idx"

definition reset :: "NodeType \<Rightarrow> Element \<Rightarrow> Element" where
  "reset kind e = \<lparr>etype = kind, compound = 0, typed1 = 0, typed2 = 0, typed3 = 0, subs = []\<rparr>"

text \<open>\<open>ensureSpaceForOne\<close>: the capacity doubles (from 0 to 1) when the array is full.\<close>

definition ensureSpaceForOne :: "Element \<Rightarrow> Element" where
  "ensureSpaceForOne e =
     (if length (subs e) \<ge> compound e
      then e\<lparr>compound := (max 1 (2 * compound e)) mod 2 ^ 29\<rparr> else e)"

definition addSub :: "nat \<Rightarrow> Element \<Rightarrow> Element" where
  "addSub eltIdx e =
     (if getType e = KEY then e\<lparr>typed2 := eltIdx\<rparr>
      else (let e1 = ensureSpaceForOne e in e1\<lparr>subs := subs e1 @ [eltIdx]\<rparr>))"

definition insertSub :: "nat \<Rightarrow> nat \<Rightarrow> Element \<Rightarrow> Element" where
  "insertSub idx eltIdx e =
     (let e1 = ensureSpaceForOne e
      in e1\<lparr>subs := take idx (subs e1) @ [eltIdx] @ drop idx (subs e1)\<rparr>)"

definition eraseSub :: "nat \<Rightarrow> Element \<Rightarrow> Element" where
  "eraseSub idx e = e\<lparr>subs := take idx (subs e) @ drop (idx + 1) (subs e)\<rparr>"

definition replaceSub :: "nat \<Rightarrow> nat \<Rightarrow> Element \<Rightarrow> Element" where
  "replaceSub idx newEltIdx e = e\<lparr>subs := (subs e)[idx := newEltIdx]\<rparr>"

definition setString :: "nat \<Rightarrow> nat \<Rightarrow> Element \<Rightarrow> Element" where
  "setString stringIdx stringSize e = e\<lparr>compound := stringSize mod 2 ^ 29, typed1 := stringIdx\<rparr>"

definition setComment :: "nat \<Rightarrow> Element \<Rightarrow> Element" where
  "setComment eltIdx e =
     (if getType e = COMMENT then e\<lparr>typed3 := eltIdx\<rparr>
      else if getType e = KEY then e\<lparr>typed3 := eltIdx\<rparr>
      else if getType e = VALUE then e\<lparr>typed2 := eltIdx\<rparr>
      else if getType e = MAP \<or> getType e = SEQUENCE then addSub eltIdx e
      else e)"

definition getNextCommentIndex :: "Element \<Rightarrow> nat" where
  "getNextCommentIndex e =
     (if getType e = COMMENT then typed3 e
      else if getType e = KEY then typed3 e
      else if getType e = VALUE then typed2 e
      else 0)"

definition setStandalone :: "Element \<Rightarrow> Element" where
  "setStandalone e = e\<lparr>typed2 := 1\<rparr>"

definition isStandalone :: "Element \<Rightarrow> bool" where
  "isStandalone e = (typed2 e = 1)"

section \<open>Wyhash\<close>

type_synonym u32 = "32 word"
type_synonym u64 = "64 word"

text \<open>The bytes of a key; the reads of \<open>wyhash\<close> stay inside the key.\<close>

definition byteAt :: "string \<Rightarrow> nat \<Rightarrow> u64" where
  "byteAt p i = (if i < length p then of_char (p ! i) else 0)"

text \<open>\<open>_wymum\<close>: the low and the high half of the 128-bit product.\<close>

definition wymum :: "u64 \<Rightarrow> u64 \<Rightarrow> u64 \<times> u64" where
  "wymum A B = (let r = unat A * unat B in (word_of_nat r, word_of_nat (r div 2 ^ 64)))"

definition wymix :: "u64 \<Rightarrow> u64 \<Rightarrow> u64" where
  "wymix A B = (case wymum A B of (a, b) \<Rightarrow> a XOR b)"

text \<open>\<open>_wyr4\<close> and \<open>_wyr8\<close> copy 4 and 8 bytes into an integer (little-endian host).\<close>

definition wyr4 :: "string \<Rightarrow> nat \<Rightarrow> u64" where
  "wyr4 p i = byteAt p i OR push_bit 8 (byteAt p (i + 1)) OR push_bit 16 (byteAt p (i + 2)) OR
              push_bit 24 (byteAt p (i + 3))"

definition wyr8 :: "string \<Rightarrow> nat \<Rightarrow> u64" where
  "wyr8 p i = wyr4 p i OR push_bit 32 (wyr4 p (i + 4))"

definition wyr3 :: "string \<Rightarrow> nat \<Rightarrow> u64" where
  "wyr3 p k = push_bit 16 (byteAt p 0) OR push_bit 8 (byteAt p (k div 2)) OR byteAt p (k - 1)"

definition secret0 :: u64 where "secret0 = 0x2d358dccaa6c78a5"
definition secret1 :: u64 where "secret1 = 0x8bb84b93962eacc9"
definition secret2 :: u64 where "secret2 = 0x4b33a62ed433d4a3"
definition secret3 :: u64 where "secret3 = 0x4d5a2da51de1aa47"
definition wyseed :: u64 where "wyseed = 0xca813bf4c7abf0a9"

text \<open>The \<open>do ... while (i >= 48)\<close> loop; the state is (p, i, seed, see1, see2).\<close>

function wyloop48 :: "string \<Rightarrow> nat \<Rightarrow> nat \<Rightarrow> u64 \<Rightarrow> u64 \<Rightarrow> u64 \<Rightarrow> nat \<times> nat \<times> u64 \<times> u64 \<times> u64" where
  "wyloop48 key p i seed see1 see2 =
     (let seed' = wymix (wyr8 key p XOR secret1) (wyr8 key (p + 8) XOR seed);
          see1' = wymix (wyr8 key (p + 16) XOR secret2) (wyr8 key (p + 24) XOR see1);
          see2' = wymix (wyr8 key (p + 32) XOR secret3) (wyr8 key (p + 40) XOR see2);
          p' = p + 48;
          i' = i - 48
      in if i \<ge> 48 \<and> i' \<ge> 48 then wyloop48 key p' i' seed' see1' see2'
         else (p', i', seed', see1', see2'))"
  by pat_completeness auto
termination
  by (relation "measure (\<lambda>(key, p, i, seed, see1, see2). i)") auto

declare wyloop48.simps [simp del]

text \<open>The \<open>while (i > 16)\<close> loop; the state is (p, i, seed).\<close>

function wyloop16 :: "string \<Rightarrow> nat \<Rightarrow> nat \<Rightarrow> u64 \<Rightarrow> nat \<times> nat \<times> u64" where
  "wyloop16 key p i seed =
     (if i > 16
      then wyloop16 key (p + 16) (i - 16) (wymix (wyr8 key p XOR secret1) (wyr8 key (p + 8) XOR seed))
      else (p, i, seed))"
  by pat_completeness auto
termination
  by (relation "measure (\<lambda>(key, p, i, seed). i)") auto

declare wyloop16.simps [simp del]

text \<open>
  \<open>wyhash(key, len)\<close>; the offset \<open>(len >> 3) << 2\<close> of a \<open>size_t\<close> is
  \<open>len div 8 * 4\<close>.
\<close>

definition wyhash :: "string \<Rightarrow> u64" where
  "wyhash key =
     (let len = length key;
          (a, b, seed) =
            (if len \<le> 16 then
               (if len \<ge> 4 then
                  (push_bit 32 (wyr4 key 0) OR wyr4 key (len div 8 * 4),
                   push_bit 32 (wyr4 key (len - 4)) OR wyr4 key (len - 4 - len div 8 * 4),
                   wyseed)
                else if len > 0 then (wyr3 key len, 0, wyseed)
                else (0, 0, wyseed))
             else
               (let (p1, i1, seed1) =
                      (if len \<ge> 48
                       then (case wyloop48 key 0 len wyseed wyseed wyseed of
                               (p, i, seed, see1, see2) \<Rightarrow> (p, i, seed XOR (see1 XOR see2)))
                       else (0, len, wyseed));
                    (p2, i2, seed2) = wyloop16 key p1 i1 seed1
                in (wyr8 key (p2 + i2 - 16), wyr8 key (p2 + i2 - 8), seed2)));
          a1 = a XOR secret1;
          b1 = b XOR seed;
          (a2, b2) = wymum a1 b1
      in wymix (a2 XOR secret0 XOR word_of_nat len) (b2 XOR secret1))"

section \<open>The document context: arena, element store and map child index\<close>

record Entry =
  hash :: u32
  childIndex :: nat

record Context =
  elements :: "Element list"
  arena :: "char list"
  sessionStartIdx :: nat
  entries :: "Entry list"
  entryQty :: nat
  maxEntryQty :: nat

definition Empty :: u32 where "Empty = 0"
definition Tombstone :: u32 where "Tombstone = 1"
definition FirstValid :: u32 where "FirstValid = 2"
definition maxLoad128th :: nat where "maxLoad128th = 115"
definition KeyDirAssocQty :: nat where "KeyDirAssocQty = 8"
definition UINT_MAX :: nat where "UINT_MAX = 4294967295"
definition InitMapSize :: nat where "InitMapSize = 16"

text \<open>
  \<open>_maxLoad128th = (uint64_t)(0.90 * 128)\<close>: the product is 115.2 and the conversion
  truncates, so the constant is 115.
\<close>

subsection \<open>Strings of the arena\<close>

text \<open>\<open>addString(text, textSize, stringIdx, stringSize)\<close>: returns the context and the pair.\<close>

definition addString :: "string \<Rightarrow> Context \<Rightarrow> Context \<times> nat \<times> nat" where
  "addString text ctx =
     (let stringIdx = length (arena ctx);
          stringSize = length text + 1
      in (ctx\<lparr>arena := arena ctx @ text @ [cNUL]\<rparr>, stringIdx, stringSize))"

text \<open>\<open>addString(text, textSize, elt)\<close>, for the element at index \<open>eltIdx\<close>.\<close>

definition addStringElt :: "string \<Rightarrow> nat \<Rightarrow> Context \<Rightarrow> Context" where
  "addStringElt text eltIdx ctx =
     (let stringIdx = length (arena ctx);
          stringSize = length text + 1
      in ctx\<lparr>arena := arena ctx @ text @ [cNUL],
              elements := (elements ctx)[eltIdx := setString stringIdx stringSize (elements ctx ! eltIdx)]\<rparr>)"

definition startStringSession :: "Context \<Rightarrow> Context" where
  "startStringSession ctx = ctx\<lparr>sessionStartIdx := length (arena ctx)\<rparr>"

definition addToSession :: "string \<Rightarrow> Context \<Rightarrow> Context" where
  "addToSession text ctx = ctx\<lparr>arena := arena ctx @ text\<rparr>"

definition commitSession :: "Context \<Rightarrow> Context \<times> nat \<times> nat" where
  "commitSession ctx =
     (let a = arena ctx @ [cNUL]
      in (ctx\<lparr>arena := a\<rparr>, sessionStartIdx ctx, length a - sessionStartIdx ctx))"

text \<open>\<open>getString(stringIdx)\<close> is a pointer into the arena: the bytes from \<open>stringIdx\<close> on.\<close>

definition getString :: "Context \<Rightarrow> nat \<Rightarrow> string" where
  "getString ctx stringIdx = drop stringIdx (arena ctx)"

text \<open>The C string a pointer designates: the bytes before the first zero.\<close>

definition cstr :: "string \<Rightarrow> string" where
  "cstr s = takeWhile (\<lambda>c. c \<noteq> cNUL) s"

text \<open>
  \<open>strncmp(s1, s2, n) == 0\<close>: at most \<open>n\<close> characters are compared and the comparison stops
  after a zero character met in both. A read at the end of a list is the terminating zero.
\<close>

fun strncmp0 :: "string \<Rightarrow> string \<Rightarrow> nat \<Rightarrow> bool" where
  "strncmp0 s1 s2 0 = True"
| "strncmp0 s1 s2 (Suc n) =
     (let c1 = (case s1 of [] \<Rightarrow> cNUL | x # _ \<Rightarrow> x);
          c2 = (case s2 of [] \<Rightarrow> cNUL | x # _ \<Rightarrow> x)
      in if c1 \<noteq> c2 then False
         else if c1 = cNUL then True
         else strncmp0 (tl s1) (tl s2) n)"

subsection \<open>Probing\<close>

definition keyHashOf :: "nat \<Rightarrow> string \<Rightarrow> u32" where
  "keyHashOf parentEltIdx key =
     (let keyHash = word_of_nat parentEltIdx XOR ucast (wyhash key)
      in if keyHash < FirstValid then keyHash + FirstValid else keyHash)"

definition tableMask :: "nat \<Rightarrow> u32" where
  "tableMask maxQty = (word_of_nat maxQty - 1) AND NOT (word_of_nat KeyDirAssocQty - 1)"

text \<open>
  The test made on a cell whose hash passed the loop condition: the hash and the child
  position match, and the child is a key of that name.
\<close>

definition cellMatches :: "Context \<Rightarrow> Element \<Rightarrow> string \<Rightarrow> u32 \<Rightarrow> Entry \<Rightarrow> bool" where
  "cellMatches ctx parentElt key keyHash e =
     (if hash e \<noteq> keyHash \<or> childIndex e \<ge> getSubQty parentElt then False
      else (let childElt = elements ctx ! getSub parentElt (childIndex e)
            in getType childElt = KEY \<and> getStringSize childElt = length key + 1 \<and>
               strncmp0 (getString ctx (getStringIdx childElt)) key (length key)))"

datatype LineScan = Found nat | Stopped nat | LineFull

text \<open>
  The \<open>for\<close> loop over the cells of one cache line, from \<open>cellId\<close> on. It runs while
  \<open>cellId < KeyDirAssocQty\<close> and the hash of the cell is at least \<open>threshold\<close>
  (\<open>Tombstone\<close> in \<open>getMapChildIndex\<close> and \<open>removeMapChildIndex\<close>, \<open>FirstValid\<close> in
  \<open>addMapChildIndex\<close>); \<open>matches\<close> is the test that makes the loop return.
\<close>

function scanLine :: "u32 \<Rightarrow> (Entry \<Rightarrow> bool) \<Rightarrow> Entry list \<Rightarrow> nat \<Rightarrow> nat \<Rightarrow> LineScan" where
  "scanLine threshold matches es idx cellId =
     (if cellId < KeyDirAssocQty \<and> hash (es ! (idx + cellId)) \<ge> threshold
      then (if matches (es ! (idx + cellId)) then Found cellId
            else scanLine threshold matches es idx (cellId + 1))
      else if cellId < KeyDirAssocQty then Stopped cellId
      else LineFull)"
  by pat_completeness auto
termination
  by (relation "measure (\<lambda>(threshold, matches, es, idx, cellId). KeyDirAssocQty - cellId)") auto

declare scanLine.simps [simp del]

text \<open>
  The \<open>while (true)\<close> loop: scan the line at \<open>idx\<close>; when the line is full, move by
  \<open>probeIncr\<close> lines and increment \<open>probeIncr\<close>. The result is the index of the line
  where the loop ended and the outcome of its scan. A loop that never ends is \<open>None\<close>.
\<close>

partial_function (option) probe :: "(nat \<Rightarrow> LineScan) \<Rightarrow> u32 \<Rightarrow> u32 \<Rightarrow> u32 \<Rightarrow> (nat \<times> LineScan) option" where
  "probe scan msk idx probeIncr =
     (case scan (unat idx) of
        LineFull \<Rightarrow> probe scan msk ((idx + probeIncr * word_of_nat KeyDirAssocQty) AND msk) (probeIncr + 1)
      | r \<Rightarrow> Some (unat idx, r))"

declare probe.simps [code]

definition findCell :: "u32 \<Rightarrow> Context \<Rightarrow> nat \<Rightarrow> string \<Rightarrow> Element \<Rightarrow> (nat \<times> LineScan) option" where
  "findCell threshold ctx parentEltIdx key parentElt =
     (let keyHash = keyHashOf parentEltIdx key;
          msk = tableMask (maxEntryQty ctx)
      in probe (\<lambda>idx. scanLine threshold (cellMatches ctx parentElt key keyHash) (entries ctx) idx 0)
               msk (keyHash AND msk) 1)"

definition getMapChildIndex :: "Context \<Rightarrow> nat \<Rightarrow> string \<Rightarrow> Element \<Rightarrow> nat option" where
  "getMapChildIndex ctx parentEltIdx key parentElt =
     (case findCell Tombstone ctx parentEltIdx key parentElt of
        None \<Rightarrow> None
      | Some (idx, Found cellId) \<Rightarrow> Some (childIndex (entries ctx ! (idx + cellId)))
      | Some (idx, _) \<Rightarrow> Some UINT_MAX)"

text \<open>
  \<open>resize\<close>: a zeroed table of the new size receives every entry whose hash is a valid
  one, at the first cell with a hash below \<open>FirstValid\<close> on its probe sequence.
\<close>

definition emptyEntry :: Entry where
  "emptyEntry = \<lparr>hash = 0, childIndex = 0\<rparr>"

definition transferEntry :: "u32 \<Rightarrow> Entry \<Rightarrow> Entry list \<Rightarrow> Entry list option" where
  "transferEntry newMask e newArray =
     (case probe (\<lambda>idx. scanLine FirstValid (\<lambda>_. False) newArray idx 0) newMask (hash e AND newMask) 1 of
        None \<Rightarrow> None
      | Some (newIdx, Stopped cellId) \<Rightarrow> Some (newArray[newIdx + cellId := e])
      | Some (newIdx, _) \<Rightarrow> Some newArray)"

fun transferAll :: "u32 \<Rightarrow> Entry list \<Rightarrow> Entry list \<Rightarrow> Entry list option" where
  "transferAll newMask [] newArray = Some newArray"
| "transferAll newMask (e # old) newArray =
     (if hash e < FirstValid then transferAll newMask old newArray
      else (case transferEntry newMask e newArray of
              None \<Rightarrow> None
            | Some newArray' \<Rightarrow> transferAll newMask old newArray'))"

definition resize :: "nat \<Rightarrow> Context \<Rightarrow> Context option" where
  "resize newMaxSize ctx =
     (case transferAll (tableMask newMaxSize) (take (maxEntryQty ctx) (entries ctx))
             (replicate newMaxSize emptyEntry) of
        None \<Rightarrow> None
      | Some newArray \<Rightarrow> Some (ctx\<lparr>entries := newArray, maxEntryQty := newMaxSize\<rparr>))"

text \<open>The constructor \<open>Context(arenaStartReserveSize)\<close>: empty stores, a table of 16 cells.\<close>

definition newContext :: "Context option" where
  "newContext =
     resize InitMapSize
       \<lparr>elements = [], arena = [], sessionStartIdx = 0, entries = [], entryQty = 0, maxEntryQty = 0\<rparr>"

definition addMapChildIndex :: "Context \<Rightarrow> nat \<Rightarrow> string \<Rightarrow> Element \<Rightarrow> nat \<Rightarrow> (bool \<times> Context) option" where
  "addMapChildIndex ctx parentEltIdx key parentElt newChildIndex =
     (case findCell FirstValid ctx parentEltIdx key parentElt of
        None \<Rightarrow> None
      | Some (idx, Found cellId) \<Rightarrow>
          Some (False, ctx\<lparr>entries := (entries ctx)[idx + cellId :=
                                (entries ctx ! (idx + cellId))\<lparr>childIndex := newChildIndex\<rparr>]\<rparr>)
      | Some (idx, r) \<Rightarrow>
          (let cellId = (case r of Stopped c \<Rightarrow> c | _ \<Rightarrow> KeyDirAssocQty);
               ctx1 = ctx\<lparr>entries := (entries ctx)[idx + cellId :=
                                \<lparr>hash = keyHashOf parentEltIdx key, childIndex = newChildIndex\<rparr>],
                          entryQty := entryQty ctx + 1\<rparr>
           in if 128 * entryQty ctx1 > maxLoad128th * maxEntryQty ctx1
              then (case resize (2 * maxEntryQty ctx1) ctx1 of
                      None \<Rightarrow> None | Some ctx2 \<Rightarrow> Some (True, ctx2))
              else Some (True, ctx1)))"

text \<open>
  \<open>removeMapChildIndex\<close>. When the key is not found the code runs
  \<open>assert(false && "Key not present")\<close> and then returns \<open>UINT_MAX\<close>: with assertions
  compiled in (\<open>ndebug\<close> false) the call aborts, written \<open>Inl ()\<close>; with \<open>NDEBUG\<close> defined
  (the project's default build type is Release) the assertion is no code.
\<close>

definition removeMapChildIndex :: "bool \<Rightarrow> Context \<Rightarrow> nat \<Rightarrow> string \<Rightarrow> Element \<Rightarrow> (unit + nat \<times> Context) option" where
  "removeMapChildIndex ndebug ctx parentEltIdx key parentElt =
     (case findCell Tombstone ctx parentEltIdx key parentElt of
        None \<Rightarrow> None
      | Some (idx, Found cellId) \<Rightarrow>
          Some (Inr (childIndex (entries ctx ! (idx + cellId)),
                     ctx\<lparr>entries := (entries ctx)[idx + cellId := \<lparr>hash = Tombstone, childIndex = UINT_MAX\<rparr>]\<rparr>))
      | Some (idx, _) \<Rightarrow> (if ndebug then Some (Inr (UINT_MAX, ctx)) else Some (Inl ())))"

section \<open>The public manipulation API: Node and Document\<close>

datatype error =
    ParseException string
  | AccessException string
  | ConvertException string

text \<open>\<open>throwMessage\<close> formats into a buffer of 512 bytes: the message keeps 511 characters.\<close>

definition throwMessage :: "string \<Rightarrow> string" where
  "throwMessage msg = take 511 msg"

definition digitChar :: "nat \<Rightarrow> char" where
  "digitChar d = char_of (48 + d)"

function showNat :: "nat \<Rightarrow> string" where
  "showNat n = (if n < 10 then [digitChar n] else showNat (n div 10) @ [digitChar (n mod 10)])"
  by pat_completeness auto
termination
  by (relation "measure (\<lambda>n. n)") auto

declare showNat.simps [simp del]

definition nodeTypeName :: "NodeType \<Rightarrow> string" where
  "nodeTypeName t =
     (case t of UNKNOWN \<Rightarrow> ''Unknown'' | KEY \<Rightarrow> ''Key'' | VALUE \<Rightarrow> ''Value''
      | SEQUENCE \<Rightarrow> ''Sequence'' | MAP \<Rightarrow> ''Map'' | COMMENT \<Rightarrow> ''Comment'')"

text \<open>
  A \<open>Node\<close> is an element index and the name of a key that does not exist (empty for an
  ordinary node); the context it points to is passed beside it.
\<close>

record Node =
  nodeEltIdx :: nat
  nonExistingKey :: string

definition mkNode :: "nat \<Rightarrow> Node" where
  "mkNode i = \<lparr>nodeEltIdx = i, nonExistingKey = []\<rparr>"

definition mkPendingNode :: "nat \<Rightarrow> string \<Rightarrow> Node" where
  "mkPendingNode i key = \<lparr>nodeEltIdx = i, nonExistingKey = key\<rparr>"

definition nodeToString :: "Context \<Rightarrow> Node \<Rightarrow> string" where
  "nodeToString ctx n =
     (let elt = elements ctx ! nodeEltIdx n
      in case getType elt of
           UNKNOWN \<Rightarrow> ''[ Unknown ]''
         | KEY \<Rightarrow> (if getStringSize elt \<le> 1 then ''[ Root ]''
                     else ''[ Key '' @ [cSQ] @ cstr (getString ctx (getStringIdx elt)) @ [cSQ] @ '' ]'')
         | VALUE \<Rightarrow> ''[ Value string '' @ [cSQ] @ cstr (getString ctx (getStringIdx elt)) @ [cSQ] @ '' ]''
         | SEQUENCE \<Rightarrow> ''[ Sequence of '' @ showNat (getSubQty elt) @ '' elements ]''
         | MAP \<Rightarrow> ''[ Map of '' @ showNat (getSubQty elt) @ '' elements ]''
         | COMMENT \<Rightarrow> ''[ Comment '' @ [cSQ] @ cstr (getString ctx (getStringIdx elt)) @ [cSQ] @ '' ]'')"

text \<open>\<open>explicit operator bool()\<close>; the context pointer of a handle of the document is set.\<close>

definition nodeBool :: "Context \<Rightarrow> Node \<Rightarrow> bool" where
  "nodeBool ctx n =
     (nodeEltIdx n < length (elements ctx) \<and>
      (getType (elements ctx ! nodeEltIdx n) \<noteq> MAP \<or> nonExistingKey n = []))"

text \<open>
  \<open>as<T>()\<close>. The conversion \<open>convert<T>::decode\<close> is a parameter: it gets the C string
  and gives the value, or the message of a \<open>ConvertException\<close>; \<open>typeName\<close> stands for
  \<open>typeid(T).name()\<close>.
\<close>

definition decodeElt :: "(string \<Rightarrow> string + 'a) \<Rightarrow> Context \<Rightarrow> Node \<Rightarrow> error + 'a" where
  "decodeElt decode ctx n =
     (let elt = elements ctx ! nodeEltIdx n
      in if getType elt \<noteq> VALUE \<and> getType elt \<noteq> UNKNOWN
         then Inl (AccessException (throwMessage
                (''Access error: unable to cast this node as it is not of type '' @ [cSQ] @ ''Value'' @
                 [cSQ] @ '' but '' @ nodeToString ctx n)))
         else (case decode (if getType elt = VALUE then cstr (getString ctx (getStringIdx elt)) else [])
               of Inl what \<Rightarrow>
                    Inl (AccessException (throwMessage
                      (''Access error: decoding error when accessing '' @ [cSQ] @ nodeToString ctx n @
                       [cSQ] @ '' with '' @ [cSQ] @ ''as()'' @ [cSQ] @ '':'' @ [cLF] @ ''  '' @ what)))
                | Inr typedValue \<Rightarrow> Inr typedValue))"

definition nodeAs :: "string \<Rightarrow> (string \<Rightarrow> string + 'a) \<Rightarrow> Context \<Rightarrow> Node \<Rightarrow> error + 'a" where
  "nodeAs typeName decode ctx n =
     (let elt = elements ctx ! nodeEltIdx n
      in if getType elt = MAP \<and> nonExistingKey n \<noteq> []
         then Inl (AccessException (throwMessage
                (''Access error: unable to cast this node into (mangle) type '' @ [cSQ] @ typeName @
                 [cSQ] @ ''  as the key '' @ [cSQ] @ cstr (nonExistingKey n) @ [cSQ] @
                 '' does not exist'')))
         else decodeElt decode ctx n)"

definition nodeAsDefault :: "(string \<Rightarrow> string + 'a) \<Rightarrow> 'a \<Rightarrow> Context \<Rightarrow> Node \<Rightarrow> error + 'a" where
  "nodeAsDefault decode defaultValue ctx n =
     (let elt = elements ctx ! nodeEltIdx n
      in if getType elt = MAP \<and> nonExistingKey n \<noteq> [] then Inr defaultValue
         else decodeElt decode ctx n)"

text \<open>The checks shared by the map operations that take a key.\<close>

definition emptyKeyError :: error where
  "emptyKeyError = AccessException (throwMessage
     ''Access error: empty key is not allowed to access a MAP element'')"

definition nonExistentError :: "Node \<Rightarrow> error" where
  "nonExistentError n = AccessException (throwMessage
     (''Access error: '' @ [cSQ] @ cstr (nonExistingKey n) @ [cSQ] @
      '' is a non-existent key in this MAP elements'' @ [cSQ]))"

definition notMapError :: "Context \<Rightarrow> Node \<Rightarrow> string \<Rightarrow> error" where
  "notMapError ctx n key = AccessException (throwMessage
     (''Access error: Access by '' @ [cSQ] @ ''['' @ cstr key @ '']'' @ [cSQ] @
      '' can only be used on MAP elements, not '' @ [cSQ] @ nodeToString ctx n @ [cSQ]))"

definition duplicatedKeyError :: "string \<Rightarrow> error" where
  "duplicatedKeyError key = AccessException (throwMessage
     (''Access error: duplicated key are forbidden and the key '' @ [cSQ] @ cstr key @ [cSQ] @
      '' is already present''))"

text \<open>\<open>hasKey(key)\<close>\<close>

definition hasKey :: "Context \<Rightarrow> Node \<Rightarrow> string \<Rightarrow> (error + bool) option" where
  "hasKey ctx n key =
     (let elt = elements ctx ! nodeEltIdx n
      in if getType elt \<noteq> MAP
         then Some (Inl (AccessException (throwMessage
                (''Access error: '' @ [cSQ] @ ''hasKey('' @ cstr key @ '')'' @ [cSQ] @
                 '' can only be used on MAP elements, not '' @ [cSQ] @ nodeToString ctx n @ [cSQ]))))
         else if key = [] then Some (Inl emptyKeyError)
         else (case getMapChildIndex ctx (nodeEltIdx n) key elt of
                 None \<Rightarrow> None
               | Some childIdx \<Rightarrow> Some (Inr (childIdx \<noteq> UINT_MAX))))"

text \<open>\<open>operator[](const std::string& key)\<close>\<close>

definition nodeIndex :: "Context \<Rightarrow> Node \<Rightarrow> string \<Rightarrow> (error + Node) option" where
  "nodeIndex ctx n key =
     (let elt = elements ctx ! nodeEltIdx n
      in if getType elt \<noteq> MAP then Some (Inl (notMapError ctx n key))
         else if key = [] then Some (Inl emptyKeyError)
         else if nonExistingKey n \<noteq> [] then Some (Inl (nonExistentError n))
         else (case getMapChildIndex ctx (nodeEltIdx n) key elt of
                 None \<Rightarrow> None
               | Some childIdx \<Rightarrow>
                   if childIdx = UINT_MAX then Some (Inr (mkPendingNode (nodeEltIdx n) key))
                   else Some (Inr (mkNode (getKeyValue (elements ctx ! getSub elt childIdx))))))"

text \<open>
  The creation of a key and its value in the map \<open>mapIdx\<close>, shared by the assignment to
  a pending key and by \<open>insert(key, value)\<close>: the value element, the key element that
  refers to it, the new child of the map, and the entry of the index.
\<close>

definition createKeyValue :: "Context \<Rightarrow> nat \<Rightarrow> string \<Rightarrow> string \<Rightarrow> Context option" where
  "createKeyValue ctx mapIdx key encodedValue =
     (let (ctx1, vIdx, vSize) = addString encodedValue ctx;
          eltIdx = length (elements ctx1);
          ctx2 = ctx1\<lparr>elements := elements ctx1 @ [newStringElement VALUE vIdx vSize]\<rparr>;
          (ctx3, kIdx, kSize) = addString key ctx2;
          ctx4 = ctx3\<lparr>elements := elements ctx3 @ [newKeyElement KEY kIdx kSize eltIdx]\<rparr>;
          ctx5 = ctx4\<lparr>elements := (elements ctx4)[mapIdx := addSub (eltIdx + 1) (elements ctx4 ! mapIdx)]\<rparr>
      in case addMapChildIndex ctx5 mapIdx key (elements ctx5 ! mapIdx)
                (getSubQty (elements ctx5 ! mapIdx) - 1) of
           None \<Rightarrow> None
         | Some (inserted, ctx6) \<Rightarrow> Some ctx6)"

text \<open>
  \<open>operator=(const T& typedValue)\<close>; \<open>encoded\<close> is the outcome of
  \<open>convert<T>::encode(typedValue)\<close>. The result is the context and the handle, whose
  non-existing key is cleared once the key is created.
\<close>

definition assignValue :: "Context \<Rightarrow> Node \<Rightarrow> string + string \<Rightarrow> (error + Context \<times> Node) option" where
  "assignValue ctx n encoded =
     (let elt = elements ctx ! nodeEltIdx n
      in case encoded of
           Inl what \<Rightarrow> Some (Inl (AccessException (throwMessage
                (''Access error: encoding error when assigning to '' @ [cSQ] @ nodeToString ctx n @
                 [cSQ] @ '':'' @ [cLF] @ ''  '' @ what))))
         | Inr encodedValue \<Rightarrow>
             if getType elt = VALUE then Some (Inr (addStringElt encodedValue (nodeEltIdx n) ctx, n))
             else if nonExistingKey n \<noteq> [] then
               (case getMapChildIndex ctx (nodeEltIdx n) (nonExistingKey n) elt of
                  None \<Rightarrow> None
                | Some childIdx \<Rightarrow>
                    if childIdx \<noteq> UINT_MAX then Some (Inl (duplicatedKeyError (nonExistingKey n)))
                    else (case createKeyValue ctx (nodeEltIdx n) (nonExistingKey n) encodedValue of
                            None \<Rightarrow> None
                          | Some ctx' \<Rightarrow> Some (Inr (ctx', n\<lparr>nonExistingKey := []\<rparr>))))
             else
               Some (Inr (addStringElt encodedValue (nodeEltIdx n)
                            (ctx\<lparr>elements := (elements ctx)[nodeEltIdx n := reset VALUE elt]\<rparr>), n)))"

text \<open>\<open>operator=(const NodeType newKind)\<close>\<close>

definition assignKind :: "Context \<Rightarrow> Node \<Rightarrow> NodeType \<Rightarrow> (error + Context \<times> Node) option" where
  "assignKind ctx n newKind =
     (let elt = elements ctx ! nodeEltIdx n
      in if newKind \<noteq> MAP \<and> newKind \<noteq> SEQUENCE
         then Some (Inl (AccessException (throwMessage
                (''Access error: only the structural elements MAP and SEQUENCE can be created, not '' @
                 [cSQ] @ nodeTypeName newKind @ [cSQ]))))
         else if getType elt = MAP \<and> nonExistingKey n \<noteq> [] then
           (case getMapChildIndex ctx (nodeEltIdx n) (nonExistingKey n) elt of
              None \<Rightarrow> None
            | Some childIdx \<Rightarrow>
                if childIdx \<noteq> UINT_MAX
                then Some (Inl (AccessException (throwMessage
                       (''Access error: the key '' @ [cSQ] @ cstr (nonExistingKey n) @ [cSQ] @
                        '' has already been added in the map''))))
                else
                  (let eltIdx = length (elements ctx);
                       ctx1 = ctx\<lparr>elements := elements ctx @ [newElement newKind]\<rparr>;
                       (ctx2, kIdx, kSize) = addString (nonExistingKey n) ctx1;
                       ctx3 = ctx2\<lparr>elements := elements ctx2 @ [newKeyElement KEY kIdx kSize eltIdx]\<rparr>;
                       ctx4 = ctx3\<lparr>elements := (elements ctx3)[nodeEltIdx n :=
                                       addSub (eltIdx + 1) (elements ctx3 ! nodeEltIdx n)]\<rparr>
                   in case addMapChildIndex ctx4 (nodeEltIdx n) (nonExistingKey n)
                             (elements ctx4 ! nodeEltIdx n)
                             (getSubQty (elements ctx4 ! nodeEltIdx n) - 1) of
                        None \<Rightarrow> None
                      | Some (inserted, ctx5) \<Rightarrow> Some (Inr (ctx5, n\<lparr>nonExistingKey := []\<rparr>))))
         else Some (Inr (ctx\<lparr>elements := (elements ctx)[nodeEltIdx n := reset newKind elt]\<rparr>, n)))"

text \<open>\<open>insert(const std::string& key, const T& typedValue)\<close>\<close>

definition insertValue :: "Context \<Rightarrow> Node \<Rightarrow> string \<Rightarrow> string + string \<Rightarrow> (error + Context) option" where
  "insertValue ctx n key encoded =
     (let elt = elements ctx ! nodeEltIdx n
      in if getType elt \<noteq> MAP then Some (Inl (notMapError ctx n key))
         else if key = [] then Some (Inl emptyKeyError)
         else if nonExistingKey n \<noteq> [] then Some (Inl (nonExistentError n))
         else (case getMapChildIndex ctx (nodeEltIdx n) key elt of
                 None \<Rightarrow> None
               | Some childIdx \<Rightarrow>
                   if childIdx \<noteq> UINT_MAX then Some (Inl (duplicatedKeyError key))
                   else (case encoded of
                           Inl what \<Rightarrow> Some (Inl (AccessException (throwMessage
                             (''Access error: encoding error when accessing '' @ [cSQ] @
                              nodeToString ctx n @ [cSQ] @ '' with '' @ [cSQ] @ ''insert('' @ [cSQ] @
                              cstr key @ [cSQ] @ '', ...)'' @ [cSQ] @ '':'' @ [cLF] @ ''  '' @ what))))
                         | Inr encodedValue \<Rightarrow>
                             (case createKeyValue ctx (nodeEltIdx n) key encodedValue of
                                None \<Rightarrow> None
                              | Some ctx' \<Rightarrow> Some (Inr ctx')))))"

text \<open>
  \<open>insert(const std::string& key, const NodeType newKind)\<close>: the new element itself is
  added to the map (no key element is created), and the index gets an entry for the key.
\<close>

definition insertKind :: "Context \<Rightarrow> Node \<Rightarrow> string \<Rightarrow> NodeType \<Rightarrow> (error + Context) option" where
  "insertKind ctx n key newKind =
     (let elt = elements ctx ! nodeEltIdx n
      in if getType elt \<noteq> MAP then Some (Inl (notMapError ctx n key))
         else if key = [] then Some (Inl emptyKeyError)
         else if nonExistingKey n \<noteq> [] then Some (Inl (nonExistentError n))
         else if newKind \<noteq> MAP \<and> newKind \<noteq> SEQUENCE
         then Some (Inl (AccessException (throwMessage
                (''Access error: only the structural elements MAP and SEQUENCE can be created-inserted, not '' @
                 [cSQ] @ nodeTypeName newKind @ [cSQ]))))
         else (case getMapChildIndex ctx (nodeEltIdx n) key elt of
                 None \<Rightarrow> None
               | Some childIdx \<Rightarrow>
                   if childIdx \<noteq> UINT_MAX then Some (Inl (duplicatedKeyError key))
                   else
                     (let eltIdx = length (elements ctx);
                          ctx1 = ctx\<lparr>elements := elements ctx @ [newElement newKind]\<rparr>;
                          ctx2 = ctx1\<lparr>elements := (elements ctx1)[nodeEltIdx n :=
                                          addSub eltIdx (elements ctx1 ! nodeEltIdx n)]\<rparr>
                      in case addMapChildIndex ctx2 (nodeEltIdx n) key (elements ctx2 ! nodeEltIdx n)
                                (getSubQty (elements ctx2 ! nodeEltIdx n) - 1) of
                           None \<Rightarrow> None
                         | Some (inserted, ctx3) \<Rightarrow> Some (Inr ctx3))))"

text \<open>
  The outcome of a call: it returns a value, throws an exception, aborts on an assertion,
  or does something C++ leaves undefined (a read of \<open>back()\<close> of an empty vector, a write
  after the end of a buffer).
\<close>

datatype 'a outcome = Aborted | Thrown error | Undefined | Returned 'a

text \<open>
  \<open>remove(const std::string& key)\<close>. The outcome of a call that aborts on the assertion
  of \<open>removeMapChildIndex\<close> is \<open>Aborted\<close>; \<open>ndebug\<close> tells whether assertions are
  compiled out. When the removed child is not the last one, the name of the last child
  is read with \<open>getStringIdx\<close> and \<open>getStringSize\<close>, which assert that the element is a
  key, a value or a comment: for a last child that is a map or a sequence (as
  \<open>insert(key, kind)\<close> adds them) the call aborts on that assertion, and without
  assertions it reads the fields of a container as those of a string, which is
  undefined. The size of the name is \<open>getStringSize() - 1\<close> on a \<open>uint32_t\<close>: a stored
  size of 0 wraps to 4294967295 bytes of key, read after the end of the arena.
\<close>

definition removeKey :: "bool \<Rightarrow> Context \<Rightarrow> Node \<Rightarrow> string \<Rightarrow> (bool \<times> Context) outcome option" where
  "removeKey ndebug ctx n key =
     (let elt = elements ctx ! nodeEltIdx n;
          P = nodeEltIdx n
      in if getType elt \<noteq> MAP
         then Some (Thrown (AccessException (throwMessage
                (''Access error: '' @ [cSQ] @ ''remove('' @ cstr key @ '')'' @ [cSQ] @
                 '' can only be used on MAP elements, not '' @ [cSQ] @ nodeToString ctx n @ [cSQ]))))
         else (case removeMapChildIndex ndebug ctx P key elt of
                 None \<Rightarrow> None
               | Some (Inl _) \<Rightarrow> Some Aborted
               | Some (Inr (childIdx, ctx1)) \<Rightarrow>
                   if childIdx = UINT_MAX then Some (Returned (False, ctx1))
                   else if childIdx < getSubQty elt - 1 then
                     (let lastElt = elements ctx1 ! getSub elt (getSubQty elt - 1);
                          lastKey = take (getStringSize lastElt - 1) (getString ctx1 (getStringIdx lastElt))
                      in if getType lastElt \<noteq> KEY \<and> getType lastElt \<noteq> VALUE \<and> getType lastElt \<noteq> COMMENT
                         then (if ndebug then Some Undefined else Some Aborted)
                         else if getStringSize lastElt = 0 then Some Undefined
                         else case removeMapChildIndex ndebug ctx1 P lastKey (elements ctx1 ! P) of
                           None \<Rightarrow> None
                         | Some (Inl _) \<Rightarrow> Some Aborted
                         | Some (Inr (lastIdx, ctx2)) \<Rightarrow>
                             (let ctx3 = ctx2\<lparr>elements := (elements ctx2)[P :=
                                             replaceSub childIdx (getSub (elements ctx2 ! P)
                                               (getSubQty (elements ctx2 ! P) - 1)) (elements ctx2 ! P)]\<rparr>
                              in case addMapChildIndex ctx3 P lastKey (elements ctx3 ! P) childIdx of
                                   None \<Rightarrow> None
                                 | Some (inserted, ctx4) \<Rightarrow>
                                     Some (Returned (True, ctx4\<lparr>elements := (elements ctx4)[P :=
                                        eraseSub (getSubQty (elements ctx4 ! P) - 1) (elements ctx4 ! P)]\<rparr>))))
                   else Some (Returned (True, ctx1\<lparr>elements := (elements ctx1)[P :=
                                eraseSub (getSubQty (elements ctx1 ! P) - 1) (elements ctx1 ! P)]\<rparr>))))"

text \<open>
  \<open>Document()\<close>: a context whose element 0 is the root key with an empty name; the
  handle of the document is the value of the root when it has one, else the root.
\<close>

definition initFromContext :: "Context \<Rightarrow> Node" where
  "initFromContext ctx =
     (if elements ctx \<noteq> [] \<and> getSubQty (elements ctx ! 0) > 0
      then mkNode (getKeyValue (elements ctx ! 0)) else mkNode 0)"

definition newDocument :: "(Context \<times> Node) option" where
  "newDocument =
     (case newContext of
        None \<Rightarrow> None
      | Some ctx0 \<Rightarrow>
          (let ctx1 = ctx0\<lparr>elements := elements ctx0 @ [newElement KEY]\<rparr>;
               ctx2 = addStringElt [] (length (elements ctx1) - 1) ctx1
           in Some (ctx2, initFromContext ctx2)))"

section \<open>Well-formed index tables\<close>

text \<open>
  The probe sequence: the loop visits the line \<open>l0\<close> where the masked hash falls, then
  moves by 1, 2, 3, ... lines; after \<open>n\<close> moves it is at line \<open>l0\<close> plus the \<open>n\<close>-th
  triangular number, modulo the number of lines.
\<close>

definition tri :: "nat \<Rightarrow> nat" where
  "tri n = n * (n + 1) div 2"

definition lineAt :: "nat \<Rightarrow> nat \<Rightarrow> nat \<Rightarrow> nat" where
  "lineAt B l0 n = (l0 + tri n) mod B"

text \<open>
  The shape of a table the code builds: a power of two from the initial 16 cells on (the
  size is a \<open>uint32_t\<close>), with one cell per entry.
\<close>

definition tableShape :: "Entry list \<Rightarrow> nat \<Rightarrow> bool" where
  "tableShape es cap \<longleftrightarrow> length es = cap \<and> cap \<in> (\<lambda>m. 2 ^ m) ` {4..<32}"

definition usedCells :: "Entry list \<Rightarrow> nat" where
  "usedCells es = length (filter (\<lambda>e. hash e \<noteq> Empty) es)"

definition liveCells :: "Entry list \<Rightarrow> nat" where
  "liveCells es = length (filter (\<lambda>e. hash e \<ge> FirstValid) es)"

text \<open>
  The invariant of the index of a context: the table is well shaped, \<open>_entryQty\<close> bounds
  the cells that are not empty (it counts every insertion and is never decremented), and
  it stays within the load factor, so that an empty cell always exists.
\<close>

definition indexOk :: "Context \<Rightarrow> bool" where
  "indexOk ctx \<longleftrightarrow>
     tableShape (entries ctx) (maxEntryQty ctx) \<and>
     usedCells (entries ctx) \<le> entryQty ctx \<and>
     128 * entryQty ctx \<le> maxLoad128th * maxEntryQty ctx"

section \<open>Concrete states\<close>

abbreviation mkElt :: "NodeType \<Rightarrow> nat \<Rightarrow> nat \<Rightarrow> nat \<Rightarrow> nat \<Rightarrow> nat list \<Rightarrow> Element" where
  "mkElt t cp a b c s \<equiv> \<lparr>etype = t, compound = cp, typed1 = a, typed2 = b, typed3 = c, subs = s\<rparr>"

abbreviation mkEntry :: "u32 \<Rightarrow> nat \<Rightarrow> Entry" where
  "mkEntry h c \<equiv> \<lparr>hash = h, childIndex = c\<rparr>"

section \<open>Keys of a map\<close>

text \<open>
  The child at position \<open>c\<close> of the map element \<open>elt\<close> is a key element whose name is
  \<open>key\<close>: the stored size counts the terminating zero, and the bytes are those of the key.
\<close>

definition keyChildAt :: "Context \<Rightarrow> Element \<Rightarrow> string \<Rightarrow> nat \<Rightarrow> bool" where
  "keyChildAt ctx elt key c \<longleftrightarrow>
     c < getSubQty elt \<and>
     (let childElt = elements ctx ! getSub elt c
      in getType childElt = KEY \<and> getStringSize childElt = length key + 1 \<and>
         take (length key) (getString ctx (getStringIdx childElt)) = key)"

definition hasKeyChild :: "Context \<Rightarrow> Element \<Rightarrow> string \<Rightarrow> bool" where
  "hasKeyChild ctx elt key \<longleftrightarrow> (\<exists>c \<in> {..<getSubQty elt}. keyChildAt ctx elt key c)"

text \<open>The first cell of the probe sequence of a key.\<close>

definition firstCell :: "Context \<Rightarrow> nat \<Rightarrow> string \<Rightarrow> nat" where
  "firstCell ctx parentEltIdx key = unat (keyHashOf parentEltIdx key AND tableMask (maxEntryQty ctx))"
section \<open>The probe sequence of a key\<close>

text \<open>
  The cells that a search for a key visits, in order: the eight cells of the line where
  the masked hash falls, then the eight cells of each next line of the loop. \<open>probeCell\<close>
  is the index of the \<open>k\<close>-th cell of that sequence.
\<close>

definition probeCell :: "Context \<Rightarrow> nat \<Rightarrow> string \<Rightarrow> nat \<Rightarrow> nat" where
  "probeCell ctx parentEltIdx key k =
     8 * lineAt (maxEntryQty ctx div 8) (firstCell ctx parentEltIdx key div 8) (k div 8) + k mod 8"

text \<open>
  A search with the given threshold ends at the \<open>k\<close>-th cell of the sequence: every cell
  before it has a hash of at least the threshold and is not a match, and the cell itself
  has a hash below the threshold or is a match.
\<close>

definition stopsAt :: "u32 \<Rightarrow> Context \<Rightarrow> nat \<Rightarrow> string \<Rightarrow> Element \<Rightarrow> nat \<Rightarrow> bool" where
  "stopsAt threshold ctx parentEltIdx key parentElt k \<longleftrightarrow>
     (\<forall>j < k. threshold \<le> hash (entries ctx ! probeCell ctx parentEltIdx key j) \<and>
              \<not> cellMatches ctx parentElt key (keyHashOf parentEltIdx key)
                  (entries ctx ! probeCell ctx parentEltIdx key j)) \<and>
     (hash (entries ctx ! probeCell ctx parentEltIdx key k) < threshold \<or>
      cellMatches ctx parentElt key (keyHashOf parentEltIdx key)
        (entries ctx ! probeCell ctx parentEltIdx key k))"


section \<open>Scripts over the API\<close>

text \<open>\<open>Document root; root = MAP;\<close>\<close>

definition newMapDocument :: "(Context \<times> Node) option" where
  "newMapDocument =
     (case newDocument of
        None \<Rightarrow> None
      | Some (ctx, root) \<Rightarrow>
          (case assignKind ctx root MAP of Some (Inr r) \<Rightarrow> Some r | _ \<Rightarrow> None))"

text \<open>\<open>node.insert(k, v)\<close> for each pair of the list, in order.\<close>

fun insertAll :: "(string \<times> string) list \<Rightarrow> Node \<Rightarrow> Context \<Rightarrow> Context option" where
  "insertAll [] n ctx = Some ctx"
| "insertAll ((k, v) # kvs) n ctx =
     (case insertValue ctx n k (Inr v) of Some (Inr ctx') \<Rightarrow> insertAll kvs n ctx' | _ \<Rightarrow> None)"

definition buildMap :: "(string \<times> string) list \<Rightarrow> Context option" where
  "buildMap kvs = (case newMapDocument of None \<Rightarrow> None | Some (ctx, root) \<Rightarrow> insertAll kvs root ctx)"

definition tableLoad :: "Context \<Rightarrow> nat \<times> nat" where
  "tableLoad ctx = (entryQty ctx, maxEntryQty ctx)"

text \<open>The context built by the constructor: a zeroed table of 16 cells.\<close>

definition freshContext :: Context where
  "freshContext =
     \<lparr>elements = [], arena = [], sessionStartIdx = 0, entries = replicate 16 emptyEntry,
      entryQty = 0, maxEntryQty = 16\<rparr>"

text \<open>
  Insertions of the keys of a list into the index, for a parent that is the element 0,
  at the child positions \<open>i\<close>, \<open>i + 1\<close>, ...
\<close>

fun addKeys :: "nat \<Rightarrow> string list \<Rightarrow> Context \<Rightarrow> Context option" where
  "addKeys i [] ctx = Some ctx"
| "addKeys i (k # ks) ctx =
     (case addMapChildIndex ctx 0 k (newElement MAP) i of
        Some (b, ctx') \<Rightarrow> addKeys (i + 1) ks ctx'
      | None \<Rightarrow> None)"

text \<open>
  A map with the keys \<open>a\<close> and \<open>b\<close>, whose entries fall in the same line of the table;
  the entry of \<open>a\<close> is removed from the index, then \<open>b\<close> is inserted again at its
  position.
\<close>

definition tombstoneScenario :: "(bool \<times> Context) option" where
  "tombstoneScenario =
     (case buildMap [(''a'', ''1''), (''b'', ''1'')] of
        None \<Rightarrow> None
      | Some ctx \<Rightarrow>
          (case removeMapChildIndex True ctx 0 ''a'' (elements ctx ! 0) of
             Some (Inr (i, ctx1)) \<Rightarrow> addMapChildIndex ctx1 0 ''b'' (elements ctx1 ! 0) 1
           | _ \<Rightarrow> None))"

text \<open>
  A new document whose root is made a map, indexed with the empty key; the result comes
  with the presence of the empty key among the key children of the map.
\<close>

definition emptyKeyScenario :: "(bool \<times> (error + Node)) option" where
  "emptyKeyScenario =
     (case newMapDocument of
        None \<Rightarrow> None
      | Some (ctx, root) \<Rightarrow>
          (case nodeIndex ctx root [] of
             None \<Rightarrow> None
           | Some r \<Rightarrow> Some (hasKeyChild ctx (elements ctx ! nodeEltIdx root) [], r)))"

text \<open>
  A new document whose root is made a map; the pending handle of the key \<open>a\<close> is indexed
  with the key \<open>b\<close>. The result comes with the presence of \<open>b\<close> among the keys of the map.
\<close>

definition pendingIndexScenario :: "(bool \<times> (error + Node)) option" where
  "pendingIndexScenario =
     (case newMapDocument of
        None \<Rightarrow> None
      | Some (ctx, root) \<Rightarrow>
          (case nodeIndex ctx root ''a'' of
             Some (Inr h) \<Rightarrow>
               (case nodeIndex ctx h ''b'' of
                  None \<Rightarrow> None
                | Some r \<Rightarrow> Some (hasKeyChild ctx (elements ctx ! nodeEltIdx h) ''b'', r))
           | _ \<Rightarrow> None))"

text \<open>
  A new document whose root is made a map; a value is inserted at the key of six bytes
  \<open>a\<close>, zero, \<open>duqi\<close>, and the map is indexed with the key \<open>a\<close>, zero, \<open>jbwf\<close>. The result
  is the handle with its conversion to bool, and comes with the presence of the second
  key among the keys of the map.
\<close>

definition zeroByteScenario :: "(bool \<times> (error + Node \<times> bool)) option" where
  "zeroByteScenario =
     (case newMapDocument of
        None \<Rightarrow> None
      | Some (ctx, root) \<Rightarrow>
          (case insertValue ctx root [CHR ''a'', cNUL, CHR ''d'', CHR ''u'', CHR ''q'', CHR ''i''] (Inr ''v'') of
             Some (Inr ctx1) \<Rightarrow>
               (case nodeIndex ctx1 root [CHR ''a'', cNUL, CHR ''j'', CHR ''b'', CHR ''w'', CHR ''f''] of
                  None \<Rightarrow> None
                | Some r \<Rightarrow>
                    Some (hasKeyChild ctx1 (elements ctx1 ! nodeEltIdx root) [CHR ''a'', cNUL, CHR ''j'', CHR ''b'', CHR ''w'', CHR ''f''],
                          map_sum id (\<lambda>h. (h, nodeBool ctx1 h)) r))
           | _ \<Rightarrow> None))"

section \<open>States of the index with a tombstone\<close>

text \<open>
  The document built by inserting the keys \<open>a\<close> and \<open>b\<close> in a new map, the same
  after the index entry of \<open>a\<close> has been removed, and after \<open>b\<close> has then been added again.
\<close>

definition ctxAB :: Context where
  "ctxAB =
    \<lparr>elements = [mkElt MAP 2 0 0 0 [2, 4],
       mkElt VALUE 2 1 0 0 [],
       mkElt KEY 2 3 1 0 [],
       mkElt VALUE 2 5 0 0 [],
       mkElt KEY 2 7 3 0 []],
     arena = [cNUL, CHR ''1'', cNUL, CHR ''a'', cNUL, CHR ''1'', cNUL, CHR ''b'', cNUL],
     sessionStartIdx = 0,
     entries = [mkEntry 0 0, mkEntry 0 0, mkEntry 0 0, mkEntry 0 0, mkEntry 0 0, mkEntry 0 0, mkEntry 0 0, mkEntry 0 0, mkEntry 2145763320 0, mkEntry 2803492920 1, mkEntry 0 0, mkEntry 0 0, mkEntry 0 0, mkEntry 0 0, mkEntry 0 0, mkEntry 0 0],
     entryQty = 2, maxEntryQty = 16\<rparr>"

definition ctxT :: Context where
  "ctxT =
    \<lparr>elements = [mkElt MAP 2 0 0 0 [2, 4],
       mkElt VALUE 2 1 0 0 [],
       mkElt KEY 2 3 1 0 [],
       mkElt VALUE 2 5 0 0 [],
       mkElt KEY 2 7 3 0 []],
     arena = [cNUL, CHR ''1'', cNUL, CHR ''a'', cNUL, CHR ''1'', cNUL, CHR ''b'', cNUL],
     sessionStartIdx = 0,
     entries = [mkEntry 0 0, mkEntry 0 0, mkEntry 0 0, mkEntry 0 0, mkEntry 0 0, mkEntry 0 0, mkEntry 0 0, mkEntry 0 0, mkEntry 1 4294967295, mkEntry 2803492920 1, mkEntry 0 0, mkEntry 0 0, mkEntry 0 0, mkEntry 0 0, mkEntry 0 0, mkEntry 0 0],
     entryQty = 2, maxEntryQty = 16\<rparr>"

definition ctxT2 :: Context where
  "ctxT2 =
    \<lparr>elements = [mkElt MAP 2 0 0 0 [2, 4],
       mkElt VALUE 2 1 0 0 [],
       mkElt KEY 2 3 1 0 [],
       mkElt VALUE 2 5 0 0 [],
       mkElt KEY 2 7 3 0 []],
     arena = [cNUL, CHR ''1'', cNUL, CHR ''a'', cNUL, CHR ''1'', cNUL, CHR ''b'', cNUL],
     sessionStartIdx = 0,
     entries = [mkEntry 0 0, mkEntry 0 0, mkEntry 0 0, mkEntry 0 0, mkEntry 0 0, mkEntry 0 0, mkEntry 0 0, mkEntry 0 0, mkEntry 2803492920 1, mkEntry 2803492920 1, mkEntry 0 0, mkEntry 0 0, mkEntry 0 0, mkEntry 0 0, mkEntry 0 0, mkEntry 0 0],
     entryQty = 3, maxEntryQty = 16\<rparr>"

text \<open>
  An index with 14 entries in its 16 cells, for the keys \<open>a\<close> to \<open>n\<close> of the element 0 at
  the child positions 0 to 13, and the same after the key \<open>o\<close> has been inserted.
\<close>

definition ctx14 :: Context where
  "ctx14 =
    \<lparr>elements = [],
     arena = [],
     sessionStartIdx = 0,
     entries = [mkEntry 2592883077 2, mkEntry 1888981460 3, mkEntry 2228251622 4, mkEntry 3776416967 6, mkEntry 36347024 7, mkEntry 4255014788 9, mkEntry 3507710512 12, mkEntry 0 0, mkEntry 2145763320 0, mkEntry 2803492920 1, mkEntry 2034710847 5, mkEntry 1602241561 8, mkEntry 381519183 10, mkEntry 3760602280 11, mkEntry 3350352431 13, mkEntry 0 0],
     entryQty = 14, maxEntryQty = 16\<rparr>"

definition ctx15 :: Context where
  "ctx15 =
    \<lparr>elements = [],
     arena = [],
     sessionStartIdx = 0,
     entries = [mkEntry 2592883077 2, mkEntry 2228251622 4, mkEntry 3776416967 6, mkEntry 4255014788 9, mkEntry 0 0, mkEntry 0 0, mkEntry 0 0, mkEntry 0 0, mkEntry 381519183 10, mkEntry 3760602280 11, mkEntry 3350352431 13, mkEntry 0 0, mkEntry 0 0, mkEntry 0 0, mkEntry 0 0, mkEntry 0 0, mkEntry 1888981460 3, mkEntry 36347024 7, mkEntry 3507710512 12, mkEntry 2726381715 14, mkEntry 0 0, mkEntry 0 0, mkEntry 0 0, mkEntry 0 0, mkEntry 2145763320 0, mkEntry 2803492920 1, mkEntry 2034710847 5, mkEntry 1602241561 8, mkEntry 0 0, mkEntry 0 0, mkEntry 0 0, mkEntry 0 0],
     entryQty = 15, maxEntryQty = 32\<rparr>"

text \<open>
  The index of 14 entries after the entry of the key \<open>n\<close>, in the cell 14, has been
  removed: the cell holds the tombstone that \<open>removeMapChildIndex\<close> writes, and the counter
  of entries is unchanged.
\<close>

definition ctx14r :: Context where
  "ctx14r = ctx14\<lparr>entries := (entries ctx14)[14 := \<lparr>hash = Tombstone, childIndex = UINT_MAX\<rparr>]\<rparr>"

section \<open>Two maps whose keys collide in the index\<close>

text \<open>\<open>n[key] = kind\<close>, \<open>n[key] = value\<close> and \<open>n[key]\<close> for an existing key.\<close>

definition assignKindAt :: "Context \<Rightarrow> Node \<Rightarrow> string \<Rightarrow> NodeType \<Rightarrow> Context option" where
  "assignKindAt ctx n key kind =
     (case nodeIndex ctx n key of
        Some (Inr h) \<Rightarrow> (case assignKind ctx h kind of Some (Inr (ctx', h')) \<Rightarrow> Some ctx' | _ \<Rightarrow> None)
      | _ \<Rightarrow> None)"

definition assignValueAt :: "Context \<Rightarrow> Node \<Rightarrow> string \<Rightarrow> string \<Rightarrow> Context option" where
  "assignValueAt ctx n key v =
     (case nodeIndex ctx n key of
        Some (Inr h) \<Rightarrow> (case assignValue ctx h (Inr v) of Some (Inr (ctx', h')) \<Rightarrow> Some ctx' | _ \<Rightarrow> None)
      | _ \<Rightarrow> None)"

definition childNode :: "Context \<Rightarrow> Node \<Rightarrow> string \<Rightarrow> Node option" where
  "childNode ctx n key = (case nodeIndex ctx n key of Some (Inr h) \<Rightarrow> Some h | _ \<Rightarrow> None)"

text \<open>
  The script: a new document whose root becomes a map; the keys \<open>a\<close> and \<open>b\<close> of the
  root are assigned \<open>MAP\<close>; the key \<open>kuh\<close> of the map \<open>a\<close> is assigned the value \<open>x\<close> and
  the key \<open>ahzu\<close> of the map \<open>b\<close> the value \<open>y\<close>; the key \<open>ahzu\<close> is removed from \<open>b\<close>.
  The result is what \<open>hasKey\<close> then answers for \<open>kuh\<close> in the map \<open>a\<close>, with the
  presence of a key child named \<open>kuh\<close> in that map.
\<close>

definition collisionScenario :: "bool \<Rightarrow> (bool \<times> bool) option" where
  "collisionScenario ndebug =
     (case newMapDocument of None \<Rightarrow> None | Some (c0, root) \<Rightarrow>
      (case assignKindAt c0 root ''a'' MAP of None \<Rightarrow> None | Some c1 \<Rightarrow>
       (case assignKindAt c1 root ''b'' MAP of None \<Rightarrow> None | Some c2 \<Rightarrow>
        (case childNode c2 root ''a'' of None \<Rightarrow> None | Some a \<Rightarrow>
         (case childNode c2 root ''b'' of None \<Rightarrow> None | Some b \<Rightarrow>
          (case assignValueAt c2 a ''kuh'' ''x'' of None \<Rightarrow> None | Some c3 \<Rightarrow>
           (case assignValueAt c3 b ''ahzu'' ''y'' of None \<Rightarrow> None | Some c4 \<Rightarrow>
            (case removeKey ndebug c4 b ''ahzu'' of
               Some (Returned (removed, c5)) \<Rightarrow>
                 (case hasKey c5 a ''kuh'' of
                    Some (Inr found) \<Rightarrow> Some (found, hasKeyChild c5 (elements c5 ! nodeEltIdx a) ''kuh'')
                  | _ \<Rightarrow> None)
             | _ \<Rightarrow> None))))))))"

text \<open>The states of the document after each statement of the script.\<close>

definition ctxM0 :: Context where
  "ctxM0 =
    \<lparr>elements = [mkElt MAP 0 0 0 0 []],
     arena = [cNUL],
     sessionStartIdx = 0,
     entries = [mkEntry 0 0, mkEntry 0 0, mkEntry 0 0, mkEntry 0 0, mkEntry 0 0, mkEntry 0 0, mkEntry 0 0, mkEntry 0 0, mkEntry 0 0, mkEntry 0 0, mkEntry 0 0, mkEntry 0 0, mkEntry 0 0, mkEntry 0 0, mkEntry 0 0, mkEntry 0 0],
     entryQty = 0, maxEntryQty = 16\<rparr>"

definition ctxM1 :: Context where
  "ctxM1 =
    \<lparr>elements = [mkElt MAP 1 0 0 0 [2],
       mkElt MAP 0 0 0 0 [],
       mkElt KEY 2 1 1 0 []],
     arena = [cNUL, CHR ''a'', cNUL],
     sessionStartIdx = 0,
     entries = [mkEntry 0 0, mkEntry 0 0, mkEntry 0 0, mkEntry 0 0, mkEntry 0 0, mkEntry 0 0, mkEntry 0 0, mkEntry 0 0, mkEntry 2145763320 0, mkEntry 0 0, mkEntry 0 0, mkEntry 0 0, mkEntry 0 0, mkEntry 0 0, mkEntry 0 0, mkEntry 0 0],
     entryQty = 1, maxEntryQty = 16\<rparr>"

definition ctxM2 :: Context where
  "ctxM2 =
    \<lparr>elements = [mkElt MAP 2 0 0 0 [2, 4],
       mkElt MAP 0 0 0 0 [],
       mkElt KEY 2 1 1 0 [],
       mkElt MAP 0 0 0 0 [],
       mkElt KEY 2 3 3 0 []],
     arena = [cNUL, CHR ''a'', cNUL, CHR ''b'', cNUL],
     sessionStartIdx = 0,
     entries = [mkEntry 0 0, mkEntry 0 0, mkEntry 0 0, mkEntry 0 0, mkEntry 0 0, mkEntry 0 0, mkEntry 0 0, mkEntry 0 0, mkEntry 2145763320 0, mkEntry 2803492920 1, mkEntry 0 0, mkEntry 0 0, mkEntry 0 0, mkEntry 0 0, mkEntry 0 0, mkEntry 0 0],
     entryQty = 2, maxEntryQty = 16\<rparr>"

definition ctxM3 :: Context where
  "ctxM3 =
    \<lparr>elements = [mkElt MAP 2 0 0 0 [2, 4],
       mkElt MAP 1 0 0 0 [6],
       mkElt KEY 2 1 1 0 [],
       mkElt MAP 0 0 0 0 [],
       mkElt KEY 2 3 3 0 [],
       mkElt VALUE 2 5 0 0 [],
       mkElt KEY 4 7 5 0 []],
     arena = [cNUL, CHR ''a'', cNUL, CHR ''b'', cNUL, CHR ''x'', cNUL, CHR ''k'', CHR ''u'', CHR ''h'', cNUL],
     sessionStartIdx = 0,
     entries = [mkEntry 1600177600 0, mkEntry 0 0, mkEntry 0 0, mkEntry 0 0, mkEntry 0 0, mkEntry 0 0, mkEntry 0 0, mkEntry 0 0, mkEntry 2145763320 0, mkEntry 2803492920 1, mkEntry 0 0, mkEntry 0 0, mkEntry 0 0, mkEntry 0 0, mkEntry 0 0, mkEntry 0 0],
     entryQty = 3, maxEntryQty = 16\<rparr>"

definition ctxM4 :: Context where
  "ctxM4 =
    \<lparr>elements = [mkElt MAP 2 0 0 0 [2, 4],
       mkElt MAP 1 0 0 0 [6],
       mkElt KEY 2 1 1 0 [],
       mkElt MAP 1 0 0 0 [8],
       mkElt KEY 2 3 3 0 [],
       mkElt VALUE 2 5 0 0 [],
       mkElt KEY 4 7 5 0 [],
       mkElt VALUE 2 11 0 0 [],
       mkElt KEY 5 13 7 0 []],
     arena = [cNUL, CHR ''a'', cNUL, CHR ''b'', cNUL, CHR ''x'', cNUL, CHR ''k'', CHR ''u'', CHR ''h'', cNUL, CHR ''y'', cNUL, CHR ''a'', CHR ''h'', CHR ''z'', CHR ''u'', cNUL],
     sessionStartIdx = 0,
     entries = [mkEntry 1600177600 0, mkEntry 0 0, mkEntry 0 0, mkEntry 0 0, mkEntry 0 0, mkEntry 0 0, mkEntry 0 0, mkEntry 0 0, mkEntry 2145763320 0, mkEntry 2803492920 1, mkEntry 0 0, mkEntry 0 0, mkEntry 0 0, mkEntry 0 0, mkEntry 0 0, mkEntry 0 0],
     entryQty = 3, maxEntryQty = 16\<rparr>"

definition ctxM5 :: Context where
  "ctxM5 =
    \<lparr>elements = [mkElt MAP 2 0 0 0 [2, 4],
       mkElt MAP 1 0 0 0 [6],
       mkElt KEY 2 1 1 0 [],
       mkElt MAP 1 0 0 0 [],
       mkElt KEY 2 3 3 0 [],
       mkElt VALUE 2 5 0 0 [],
       mkElt KEY 4 7 5 0 [],
       mkElt VALUE 2 11 0 0 [],
       mkElt KEY 5 13 7 0 []],
     arena = [cNUL, CHR ''a'', cNUL, CHR ''b'', cNUL, CHR ''x'', cNUL, CHR ''k'', CHR ''u'', CHR ''h'', cNUL, CHR ''y'', cNUL, CHR ''a'', CHR ''h'', CHR ''z'', CHR ''u'', cNUL],
     sessionStartIdx = 0,
     entries = [mkEntry 1 4294967295, mkEntry 0 0, mkEntry 0 0, mkEntry 0 0, mkEntry 0 0, mkEntry 0 0, mkEntry 0 0, mkEntry 0 0, mkEntry 2145763320 0, mkEntry 2803492920 1, mkEntry 0 0, mkEntry 0 0, mkEntry 0 0, mkEntry 0 0, mkEntry 0 0, mkEntry 0 0],
     entryQty = 3, maxEntryQty = 16\<rparr>"

section \<open>Parsing: the string helper\<close>

text \<open>
  The input text is a C string of \<open>endIdx\<close> bytes: a read at a position after the last
  byte gives the terminating zero. A chunk of the text is a start and a size.
\<close>

definition charAt :: "string \<Rightarrow> nat \<Rightarrow> char" where
  "charAt text i = (if i < length text then text ! i else cNUL)"

definition slice :: "string \<Rightarrow> nat \<Rightarrow> nat \<Rightarrow> string" where
  "slice text start n = take n (drop start text)"

text \<open>
  A loop \<open>while (i < endIdx && P(i)) ++i\<close>. The loops of the source that test only the
  character, as \<open>while (text[i] == ' ') ++i\<close>, stop at the terminating zero: their bound
  is the length of the text.
\<close>

function scanWhile :: "(nat \<Rightarrow> bool) \<Rightarrow> nat \<Rightarrow> nat \<Rightarrow> nat" where
  "scanWhile P endIdx i = (if i < endIdx \<and> P i then scanWhile P endIdx (i + 1) else i)"
  by pat_completeness auto
termination
  by (relation "measure (\<lambda>(P, endIdx, i). endIdx - i)") auto

declare scanWhile.simps [simp del]

text \<open>\<open>StringHelper\<close>: an arena of characters and the chunks (start, size) of its lines.\<close>

record StringHelper =
  shArena :: string
  shChunks :: "(nat \<times> nat) list"
  shStartLineIdx :: nat

definition shStartSession :: StringHelper where
  "shStartSession = \<lparr>shArena = [], shChunks = [], shStartLineIdx = 0\<rparr>"

definition shAddLine :: "string \<Rightarrow> StringHelper \<Rightarrow> StringHelper" where
  "shAddLine text sh =
     sh\<lparr>shArena := shArena sh @ text,
        shChunks := shChunks sh @ [(length (shArena sh), length text)],
        shStartLineIdx := length (shArena sh) + length text\<rparr>"

definition shAddChar :: "char \<Rightarrow> StringHelper \<Rightarrow> StringHelper" where
  "shAddChar c sh = sh\<lparr>shArena := shArena sh @ [c]\<rparr>"

definition shAddChunk :: "string \<Rightarrow> StringHelper \<Rightarrow> StringHelper" where
  "shAddChunk text sh = sh\<lparr>shArena := shArena sh @ text\<rparr>"

text \<open>\<open>addChunkNoTrail\<close>: the size is reduced while the last character is a space or a tab.\<close>

function trimSize :: "string \<Rightarrow> nat \<Rightarrow> nat" where
  "trimSize text textSize =
     (if textSize > 0 \<and> (text ! (textSize - 1) = cSP \<or> text ! (textSize - 1) = cTAB)
      then trimSize text (textSize - 1) else textSize)"
  by pat_completeness auto
termination
  by (relation "measure (\<lambda>(text, textSize). textSize)") auto

declare trimSize.simps [simp del]

definition shAddChunkNoTrail :: "string \<Rightarrow> StringHelper \<Rightarrow> StringHelper" where
  "shAddChunkNoTrail text sh = shAddChunk (take (trimSize text (length text)) text) sh"

definition shEndLine :: "StringHelper \<Rightarrow> StringHelper" where
  "shEndLine sh =
     sh\<lparr>shChunks := shChunks sh @ [(shStartLineIdx sh, length (shArena sh) - shStartLineIdx sh)],
        shStartLineIdx := length (shArena sh)\<rparr>"

definition shEmpty :: "StringHelper \<Rightarrow> bool" where
  "shEmpty sh = (shChunks sh = [])"

text \<open>\<open>findFirstOf\<close> and \<open>findFirstNotOf\<close>, with the searched characters as a list.\<close>

function findFirstOf :: "string \<Rightarrow> nat \<Rightarrow> char list \<Rightarrow> nat \<Rightarrow> nat" where
  "findFirstOf text textSize Nchars startPos =
     (if startPos < textSize
      then (if charAt text startPos \<in> set Nchars then startPos
            else findFirstOf text textSize Nchars (startPos + 1))
      else UINT_MAX)"
  by pat_completeness auto
termination
  by (relation "measure (\<lambda>(text, textSize, Nchars, startPos). textSize - startPos)") auto

declare findFirstOf.simps [simp del]

function findFirstNotOf :: "string \<Rightarrow> nat \<Rightarrow> char list \<Rightarrow> nat \<Rightarrow> nat" where
  "findFirstNotOf text textSize Nchars startPos =
     (if startPos < textSize
      then (if charAt text startPos \<notin> set Nchars then startPos
            else findFirstNotOf text textSize Nchars (startPos + 1))
      else UINT_MAX)"
  by pat_completeness auto
termination
  by (relation "measure (\<lambda>(text, textSize, Nchars, startPos). textSize - startPos)") auto

declare findFirstNotOf.simps [simp del]

text \<open>
  \<open>removeTrailingLines\<close>: the last chunk is removed as long as all its characters are
  spaces, tabs, carriage returns or line feeds.
\<close>

function dropBlankChunks :: "string \<Rightarrow> (nat \<times> nat) list \<Rightarrow> (nat \<times> nat) list" where
  "dropBlankChunks a cs =
     (if cs = [] then []
      else if findFirstNotOf a (fst (last cs) + snd (last cs)) [cSP, cTAB, cCR, cLF] (fst (last cs)) \<noteq> UINT_MAX
      then cs
      else dropBlankChunks a (butlast cs))"
  by pat_completeness auto
termination
  by (relation "measure (\<lambda>(a, cs). length cs)") auto

declare dropBlankChunks.simps [simp del]

definition shRemoveTrailingLines :: "StringHelper \<Rightarrow> StringHelper" where
  "shRemoveTrailingLines sh = sh\<lparr>shChunks := dropBlankChunks (shArena sh) (shChunks sh)\<rparr>"

section \<open>Parsing: errors\<close>

definition showInt :: "int \<Rightarrow> string" where
  "showInt i = (if i < 0 then CHR ''-'' # showNat (nat (- i)) else showNat (nat i))"

text \<open>
  \<open>throwParsing\<close> writes into a buffer of 512 bytes: the message (at most 351 characters
  are written, but the offset advances by its full length), the footer with the line
  number, and a copy of at most 128 characters of the line at \<open>lineStart\<close>. A message of
  more than 351 characters is cut there by the terminating zero of the first write; the
  later writes land after it, and after the end of the buffer when the message is longer.
\<close>

definition throwParsing :: "int \<Rightarrow> string \<Rightarrow> nat \<Rightarrow> string \<Rightarrow> 'a outcome" where
  "throwParsing lineNbr text lineStart msg =
     (let footer = [cLF] @ ''  In line '' @ showInt lineNbr @ '': '' @ [cDQ];
          lineCopy = takeWhile (\<lambda>c. c \<noteq> cNUL \<and> c \<noteq> cCR \<and> c \<noteq> cLF) (take 128 (drop lineStart text));
          lineTail = (if lineCopy = [] then []
                      else lineCopy @ (if length lineCopy = 128 then ''...'' else []) @ [cDQ])
      in if length msg \<le> 351 then Thrown (ParseException (msg @ footer @ lineTail))
         else if length msg + length footer + length lineTail < 512
         then Thrown (ParseException (take 351 msg))
         else Undefined)"

text \<open>Sequencing of outcomes.\<close>

definition andThen :: "'a outcome \<Rightarrow> ('a \<Rightarrow> 'b outcome) \<Rightarrow> 'b outcome" where
  "andThen r f =
     (case r of Returned x \<Rightarrow> f x | Thrown e \<Rightarrow> Thrown e | Aborted \<Rightarrow> Aborted
      | Undefined \<Rightarrow> Undefined)"

section \<open>Parsing: the tokenizer\<close>

datatype TokenType = Key | StringValue | Newline | Caret | Comment | Eos

record TokenParser =
  tokValid :: bool
  tokType :: TokenType
  tokStartColNbr :: int
  tokStringIdx :: nat
  tokStringSize :: nat

definition mkToken :: "TokenType \<Rightarrow> int \<Rightarrow> nat \<Rightarrow> nat \<Rightarrow> TokenParser" where
  "mkToken t col i n =
     \<lparr>tokValid = True, tokType = t, tokStartColNbr = col, tokStringIdx = i, tokStringSize = n\<rparr>"

definition isEol :: "char \<Rightarrow> bool" where
  "isEol c = (c = cLF \<or> c = cCR)"

text \<open>The step over an end of line at \<open>i\<close>: two characters for \<open>\r\n\<close> inside the text, else one.\<close>

definition eolSize :: "string \<Rightarrow> nat \<Rightarrow> nat \<Rightarrow> nat" where
  "eolSize text endIdx i =
     (if i + 1 < endIdx \<and> charAt text i = cCR \<and> charAt text (i + 1) = cLF then 2 else 1)"

text \<open>
  The header of a block scalar: one of the two passes that read the chomp indicator and
  the explicit indentation, in any order. The state is (chomp, deltaIndent, idx, colNbr).
\<close>

definition headerPass ::
  "string \<Rightarrow> nat \<Rightarrow> int \<Rightarrow> nat \<Rightarrow> char \<times> int \<times> nat \<times> int \<Rightarrow> (char \<times> int \<times> nat \<times> int) outcome" where
  "headerPass text endIdx lineNbr initIdx st =
     (case st of (chomp, deltaIndent, idx, colNbr) \<Rightarrow>
        if idx \<ge> endIdx then Returned st
        else if charAt text idx = CHR ''+'' \<or> charAt text idx = CHR ''-'' then
          (if chomp \<noteq> cSP
           then throwParsing lineNbr text initIdx ''Parse error: chomp cannot be provided more than once''
           else Returned (charAt text idx, deltaIndent, idx + 1, colNbr + 1))
        else if (49::nat) \<le> of_char (charAt text idx) \<and> of_char (charAt text idx) \<le> (57::nat) then
          (if deltaIndent \<ge> 0
           then throwParsing lineNbr text initIdx
                  ''Parse error: explicit indentation cannot be provided more than once''
           else Returned (chomp, int (of_char (charAt text idx)) - 48, idx + 1, colNbr + 1))
        else Returned st)"

text \<open>
  The loop over a line of a single-quoted string. The state is the helper, \<open>lineEndIdx\<close>,
  \<open>chunkStartIdx\<close> and \<open>isFirstAdd\<close>; the result adds \<open>isEndOfStringReached\<close>.
\<close>

function sqLoop ::
  "string \<Rightarrow> nat \<Rightarrow> StringHelper \<Rightarrow> nat \<Rightarrow> nat \<Rightarrow> bool \<Rightarrow>
   (StringHelper \<times> nat \<times> nat \<times> bool \<times> bool) outcome" where
  "sqLoop text endIdx sh lineEndIdx chunkStartIdx isFirstAdd =
     (if lineEndIdx < endIdx \<and> \<not> isEol (charAt text lineEndIdx) then
        (if charAt text lineEndIdx \<noteq> cSQ
         then sqLoop text endIdx sh (lineEndIdx + 1) chunkStartIdx isFirstAdd
         else if lineEndIdx + 1 < endIdx \<and> charAt text (lineEndIdx + 1) = cSQ then
           (if isFirstAdd \<and> shArena sh = [] then Undefined
            else sqLoop text endIdx
                   (shAddChunk (slice text chunkStartIdx (lineEndIdx + 1 - chunkStartIdx))
                      (if isFirstAdd \<and> last (shArena sh) \<noteq> cLF then shAddChar cSP sh else sh))
                   (lineEndIdx + 2) (lineEndIdx + 2) False)
         else Returned (sh, lineEndIdx, chunkStartIdx, isFirstAdd, True))
      else Returned (sh, lineEndIdx, chunkStartIdx, isFirstAdd, False))"
  by pat_completeness auto
termination
  by (relation "measure (\<lambda>(text, endIdx, sh, lineEndIdx, chunkStartIdx, isFirstAdd). endIdx - lineEndIdx)") auto

declare sqLoop.simps [simp del]

text \<open>The line of a single-quoted string; the result is the helper, \<open>lineEndIdx\<close> and
  \<open>isEndOfStringReached\<close>.\<close>

definition sqLine ::
  "string \<Rightarrow> nat \<Rightarrow> int \<Rightarrow> nat \<Rightarrow> StringHelper \<Rightarrow> nat \<Rightarrow> (StringHelper \<times> nat \<times> bool) outcome" where
  "sqLine text endIdx lineNbr initIdx sh nonSpaceIdx =
     andThen (sqLoop text endIdx sh nonSpaceIdx nonSpaceIdx (\<not> shEmpty sh))
       (\<lambda>(sh1, lineEndIdx, chunkStartIdx, isFirstAdd, isEnd1).
          if isFirstAdd \<and> shArena sh1 = [] then Undefined
          else
            (let sh2 = (if isFirstAdd \<and> last (shArena sh1) \<noteq> cLF then shAddChar cSP sh1 else sh1);
                 sh3 = (if lineEndIdx > chunkStartIdx
                        then shAddChunk (slice text chunkStartIdx (lineEndIdx - chunkStartIdx)) sh2
                        else sh2)
             in if lineEndIdx \<ge> endIdx
                then throwParsing lineNbr text initIdx ''Parse error: unfinished single-quote string''
                else
                  (let closing = (charAt text lineEndIdx = cSQ);
                       isEnd2 = (isEnd1 \<or> closing);
                       lineEndIdx2 =
                         (if closing
                          then scanWhile (\<lambda>i. charAt text i = cSP \<or> charAt text i = cTAB)
                                 (length text) (lineEndIdx + 1)
                          else lineEndIdx);
                       sh4 = (if \<not> isEnd2 \<and> nonSpaceIdx = lineEndIdx2 then shAddLine [cLF] sh3 else sh3)
                   in Returned (sh4, lineEndIdx2, isEnd2))))"

lemma scanWhile_ge: "i \<le> scanWhile P endIdx i"
proof (induction P endIdx i rule: scanWhile.induct)
  case (1 P endIdx i)
  show ?case
  proof (cases "i < endIdx \<and> P i")
    case True
    with 1 have "i + 1 \<le> scanWhile P endIdx (i + 1)" by simp
    with True show ?thesis by (subst scanWhile.simps) simp
  next
    case False
    then show ?thesis by (subst scanWhile.simps) auto
  qed
qed

text \<open>
  The character after a backslash in a double-quoted string, at \<open>lineEndIdx\<close>: the helper
  and the next \<open>lineEndIdx\<close>. After an escaped end of line the source skips the spaces of
  the next line, decrements \<open>lineEndIdx\<close> and increments it again as for the other cases.
\<close>

definition dqEscape :: "string \<Rightarrow> StringHelper \<Rightarrow> nat \<Rightarrow> StringHelper \<times> nat" where
  "dqEscape text sh lineEndIdx =
     (let c = charAt text lineEndIdx
      in if c = CHR ''n'' then (shAddChar cLF sh, lineEndIdx + 1)
         else if c = CHR ''r'' then (shAddChar cCR sh, lineEndIdx + 1)
         else if c = CHR ''t'' then (shAddChar cTAB sh, lineEndIdx + 1)
         else if c = cDQ then (shAddChar cDQ sh, lineEndIdx + 1)
         else if c = CHR 0x5C then (shAddChar (CHR 0x5C) sh, lineEndIdx + 1)
         else if c = cCR \<or> c = cLF then
           (let l1 = (if charAt text lineEndIdx = cCR then lineEndIdx + 1 else lineEndIdx);
                l2 = (if charAt text l1 = cLF then l1 + 1 else l1);
                l3 = scanWhile (\<lambda>i. charAt text i = cSP) (length text) l2
            in (sh, l3))
         else (shAddChar c (shAddChar (CHR 0x5C) sh), lineEndIdx + 1))"

lemma dqEscape_ge: "dqEscape tx sh i = (sh', l) \<Longrightarrow> i \<le> l"
proof -
  assume a: "dqEscape tx sh i = (sh', l)"
  have "i \<le> scanWhile (\<lambda>i. charAt tx i = cSP) (length tx)
              (if charAt tx (if charAt tx i = cCR then i + 1 else i) = cLF
               then (if charAt tx i = cCR then i + 1 else i) + 1
               else (if charAt tx i = cCR then i + 1 else i))"
    using scanWhile_ge[of "if charAt tx (if charAt tx i = cCR then i + 1 else i) = cLF
               then (if charAt tx i = cCR then i + 1 else i) + 1
               else (if charAt tx i = cCR then i + 1 else i)" "\<lambda>i. charAt tx i = cSP" "length tx"]
    by (simp split: if_splits)
  with a show ?thesis unfolding dqEscape_def Let_def by (auto split: if_splits)
qed

text \<open>
  The loop over a line of a double-quoted string. The state is the helper, \<open>lineEndIdx\<close>,
  \<open>chunkStartIdx\<close> and \<open>isFirstAdd\<close>.
\<close>

function dqLoop ::
  "string \<Rightarrow> nat \<Rightarrow> StringHelper \<Rightarrow> nat \<Rightarrow> nat \<Rightarrow> bool \<Rightarrow>
   (StringHelper \<times> nat \<times> nat \<times> bool) outcome" where
  "dqLoop text endIdx sh lineEndIdx chunkStartIdx isFirstAdd =
     (if lineEndIdx < endIdx \<and> \<not> isEol (charAt text lineEndIdx) \<and> charAt text lineEndIdx \<noteq> cDQ then
        (if charAt text lineEndIdx \<noteq> CHR 0x5C
         then dqLoop text endIdx sh (lineEndIdx + 1) chunkStartIdx isFirstAdd
         else if isFirstAdd \<and> shArena sh = [] then Undefined
         else
           (let spaced = (isFirstAdd \<and> last (shArena sh) \<noteq> cLF);
                sh1 = (if spaced then shAddChar cSP sh else sh);
                isFirstAdd1 = (if spaced then False else isFirstAdd);
                sh2 = (if lineEndIdx > chunkStartIdx
                       then shAddChunk (slice text chunkStartIdx (lineEndIdx - chunkStartIdx)) sh1
                       else sh1)
            in if lineEndIdx + 1 < endIdx
               then (case dqEscape text sh2 (lineEndIdx + 1) of
                       (sh3, l) \<Rightarrow> dqLoop text endIdx sh3 l l isFirstAdd1)
               else dqLoop text endIdx sh2 (lineEndIdx + 1) (lineEndIdx + 1) isFirstAdd1))
      else Returned (sh, lineEndIdx, chunkStartIdx, isFirstAdd))"
  by pat_completeness auto
termination
proof (relation "measure (\<lambda>(text, endIdx, sh, lineEndIdx, chunkStartIdx, isFirstAdd). endIdx - lineEndIdx)")
  show "wf (measure (\<lambda>(text, endIdx, sh, lineEndIdx, chunkStartIdx, isFirstAdd). endIdx - lineEndIdx))"
    by simp
qed (auto dest!: dqEscape_ge[OF sym])

declare dqLoop.simps [simp del]

definition dqLine ::
  "string \<Rightarrow> nat \<Rightarrow> int \<Rightarrow> nat \<Rightarrow> StringHelper \<Rightarrow> nat \<Rightarrow> (StringHelper \<times> nat \<times> bool) outcome" where
  "dqLine text endIdx lineNbr initIdx sh nonSpaceIdx =
     andThen (dqLoop text endIdx sh nonSpaceIdx nonSpaceIdx (\<not> shEmpty sh))
       (\<lambda>(sh1, lineEndIdx, chunkStartIdx, isFirstAdd).
          if isFirstAdd \<and> shArena sh1 = [] then Undefined
          else
            (let sh2 = (if isFirstAdd \<and> last (shArena sh1) \<noteq> cLF then shAddChar cSP sh1 else sh1);
                 sh3 = (if lineEndIdx > chunkStartIdx
                        then shAddChunk (slice text chunkStartIdx (lineEndIdx - chunkStartIdx)) sh2
                        else sh2)
             in if lineEndIdx \<ge> endIdx
                then throwParsing lineNbr text initIdx ''Parse error: unfinished double-quote string''
                else
                  (let isEnd = (charAt text lineEndIdx = cDQ);
                       lineEndIdx2 =
                         (if isEnd
                          then scanWhile (\<lambda>i. charAt text i = cSP \<or> charAt text i = cTAB)
                                 (length text) (lineEndIdx + 1)
                          else lineEndIdx);
                       sh4 = (if \<not> isEnd \<and> nonSpaceIdx = lineEndIdx2 then shAddLine [cLF] sh3 else sh3)
                   in Returned (sh4, lineEndIdx2, isEnd))))"

text \<open>
  The line of a literal block. The result is the helper, \<open>lineEndIdx\<close> and
  \<open>isEndOfStringReached\<close>. \<open>targetIndent\<close> is not negative here.
\<close>

definition literalLine ::
  "string \<Rightarrow> nat \<Rightarrow> StringHelper \<Rightarrow> nat \<Rightarrow> nat \<Rightarrow> int \<Rightarrow> int \<Rightarrow> StringHelper \<times> nat \<times> bool" where
  "literalLine text endIdx sh idx nonSpaceIdx colNbr targetIndent =
     (let lineEndIdx = scanWhile (\<lambda>i. \<not> isEol (charAt text i)) endIdx nonSpaceIdx
      in if lineEndIdx \<noteq> nonSpaceIdx \<and> colNbr < targetIndent then (sh, nonSpaceIdx, True)
         else
           (let sh1 = (if \<not> shEmpty sh then shAddChar cLF sh else sh);
                start = idx + nat targetIndent;
                sh2 = (if lineEndIdx \<ge> start then shAddChunk (slice text start (lineEndIdx - start)) sh1
                       else sh1)
            in (sh2, lineEndIdx, False)))"

text \<open>The line of a folded block; the result has the new \<open>indentedFoldedLine\<close> too.\<close>

definition foldedLine ::
  "string \<Rightarrow> nat \<Rightarrow> StringHelper \<Rightarrow> nat \<Rightarrow> nat \<Rightarrow> int \<Rightarrow> int \<Rightarrow> bool \<Rightarrow>
   (StringHelper \<times> nat \<times> bool \<times> bool) outcome" where
  "foldedLine text endIdx sh idx nonSpaceIdx colNbr targetIndent indentedFoldedLine =
     (let lineEndIdx = scanWhile (\<lambda>i. \<not> isEol (charAt text i)) endIdx nonSpaceIdx
      in if lineEndIdx \<noteq> nonSpaceIdx \<and> colNbr < targetIndent
         then Returned (sh, nonSpaceIdx, True, indentedFoldedLine)
         else
           (let start = idx + nat targetIndent;
                isIndented = (lineEndIdx \<le> start \<or> (\<not> shEmpty sh \<and> charAt text start = cSP))
            in if \<not> (isIndented \<or> indentedFoldedLine) \<and> lineEndIdx > start \<and> \<not> shEmpty sh \<and>
                  shArena sh = []
               then Undefined
               else
                 (let sh1 = (if isIndented \<or> indentedFoldedLine then shAddChar cLF sh
                             else if lineEndIdx > start \<and> \<not> shEmpty sh \<and> last (shArena sh) \<noteq> cLF
                             then shAddChar cSP sh else sh);
                      sh2 = (if lineEndIdx > start then shAddChunk (slice text start (lineEndIdx - start)) sh1
                             else sh1)
                  in Returned (sh2, lineEndIdx, False, lineEndIdx > start \<and> charAt text start = cSP))))"

text \<open>The line of a plain string: it stops before a comment and before the colon of a key.\<close>

definition plainGoesOn :: "string \<Rightarrow> nat \<Rightarrow> nat \<Rightarrow> nat \<Rightarrow> bool" where
  "plainGoesOn text endIdx idx i =
     (\<not> isEol (charAt text i) \<and>
      (charAt text i \<noteq> CHR ''#'' \<or> i = idx \<or> charAt text (i - 1) \<noteq> cSP) \<and>
      (charAt text i \<noteq> CHR '':'' \<or>
       (i + 1 \<noteq> endIdx \<and> charAt text (i + 1) \<noteq> cSP \<and> \<not> isEol (charAt text (i + 1)))))"

definition plainLine ::
  "string \<Rightarrow> nat \<Rightarrow> StringHelper \<Rightarrow> nat \<Rightarrow> nat \<Rightarrow> int \<Rightarrow> int \<Rightarrow> (StringHelper \<times> nat \<times> bool) outcome" where
  "plainLine text endIdx sh idx nonSpaceIdx colNbr targetIndent =
     (let lineEndIdx = scanWhile (plainGoesOn text endIdx idx) endIdx nonSpaceIdx;
          isEnd = (lineEndIdx < endIdx \<and> \<not> isEol (charAt text lineEndIdx))
      in if lineEndIdx \<noteq> nonSpaceIdx \<and> colNbr < targetIndent then Returned (sh, nonSpaceIdx, True)
         else if \<not> shEmpty sh \<and> shArena sh = [] then Undefined
         else
           (let sh1 = (if \<not> shEmpty sh \<and> last (shArena sh) \<noteq> cLF then shAddChar cSP sh else sh);
                sh2 = shAddChunkNoTrail (slice text nonSpaceIdx (lineEndIdx - nonSpaceIdx)) sh1;
                sh3 = (if \<not> isEnd \<and> nonSpaceIdx = lineEndIdx then shAddLine [cLF] sh2 else sh2)
            in Returned (sh3, lineEndIdx, isEnd)))"

text \<open>The state of the loop over the lines of a string.\<close>

record LineState =
  lsSh :: StringHelper
  lsIdx :: nat
  lsColNbr :: int
  lsLineNbr :: int
  lsTargetIndent :: int
  lsIndentedFoldedLine :: bool
  lsIsKey :: bool

text \<open>The line of a string of the given kind: helper, \<open>lineEndIdx\<close>, end reached, folded flag.\<close>

definition modeLine ::
  "string \<Rightarrow> nat \<Rightarrow> char \<Rightarrow> nat \<Rightarrow> LineState \<Rightarrow> nat \<Rightarrow> int \<Rightarrow> int \<Rightarrow>
   (StringHelper \<times> nat \<times> bool \<times> bool) outcome" where
  "modeLine text endIdx mlType initIdx st nonSpaceIdx colNbr targetIndent =
     (if mlType = cSQ then
        andThen (sqLine text endIdx (lsLineNbr st) initIdx (lsSh st) nonSpaceIdx)
          (\<lambda>(sh1, lineEndIdx, isEnd). Returned (sh1, lineEndIdx, isEnd, lsIndentedFoldedLine st))
      else if mlType = cDQ then
        andThen (dqLine text endIdx (lsLineNbr st) initIdx (lsSh st) nonSpaceIdx)
          (\<lambda>(sh1, lineEndIdx, isEnd). Returned (sh1, lineEndIdx, isEnd, lsIndentedFoldedLine st))
      else if mlType = CHR ''|'' then
        (case literalLine text endIdx (lsSh st) (lsIdx st) nonSpaceIdx colNbr targetIndent of
           (sh1, lineEndIdx, isEnd) \<Rightarrow> Returned (sh1, lineEndIdx, isEnd, lsIndentedFoldedLine st))
      else if mlType = CHR ''>'' then
        foldedLine text endIdx (lsSh st) (lsIdx st) nonSpaceIdx colNbr targetIndent (lsIndentedFoldedLine st)
      else
        andThen (plainLine text endIdx (lsSh st) (lsIdx st) nonSpaceIdx colNbr targetIndent)
          (\<lambda>(sh1, lineEndIdx, isEnd). Returned (sh1, lineEndIdx, isEnd, lsIndentedFoldedLine st)))"

text \<open>
  One pass of the loop \<open>while (idx < endIdx)\<close> over the lines of a string. The result
  tells whether the loop goes on (\<open>continue\<close> or the end of the body) or ends (\<open>break\<close>).
\<close>

definition lineStep ::
  "string \<Rightarrow> nat \<Rightarrow> char \<Rightarrow> nat \<Rightarrow> bool \<Rightarrow> LineState \<Rightarrow> (bool \<times> LineState) outcome" where
  "lineStep text endIdx mlType initIdx isNewLine st =
     (let nonSpaceIdx = scanWhile (\<lambda>i. charAt text i = cSP) endIdx (lsIdx st);
          colNbr = lsColNbr st + int (nonSpaceIdx - lsIdx st)
      in if isNewLine \<and> nonSpaceIdx < endIdx \<and> charAt text nonSpaceIdx = cTAB
         then throwParsing (lsLineNbr st) text initIdx
                ''Parse error: using tabulation is not accepted for indentation''
         else if lsTargetIndent st < 0 \<and> isEol (charAt text nonSpaceIdx)
         then Returned (True,
                st\<lparr>lsSh := (if shEmpty (lsSh st) then shAddLine [] (lsSh st) else shAddLine [cLF] (lsSh st)),
                   lsIdx := nonSpaceIdx + eolSize text endIdx nonSpaceIdx,
                   lsColNbr := 0, lsLineNbr := lsLineNbr st + 1, lsIndentedFoldedLine := True\<rparr>)
         else
           (let targetIndent = (if lsTargetIndent st < 0 then colNbr else lsTargetIndent st)
            in andThen (modeLine text endIdx mlType initIdx st nonSpaceIdx colNbr targetIndent)
                 (\<lambda>(sh1, lineEndIdx, isEnd, folded).
                    (let nextLineStartIdx = lineEndIdx + eolSize text endIdx lineEndIdx;
                         sh2 = shEndLine sh1;
                         keyHere = (isEnd \<and> charAt text lineEndIdx = CHR '':'' \<and>
                                    (lineEndIdx + 1 = endIdx \<or> charAt text (lineEndIdx + 1) = cSP \<or>
                                     isEol (charAt text (lineEndIdx + 1))));
                         lineEndIdx2 = (if keyHere then lineEndIdx + 1 else lineEndIdx)
                     in if isEnd
                        then Returned (False,
                               st\<lparr>lsSh := sh2, lsIdx := lineEndIdx2,
                                  lsColNbr := colNbr + (int lineEndIdx2 - int nonSpaceIdx),
                                  lsTargetIndent := targetIndent, lsIndentedFoldedLine := folded,
                                  lsIsKey := keyHere\<rparr>)
                        else if nextLineStartIdx \<ge> endIdx \<and> mlType = cDQ
                        then throwParsing (lsLineNbr st + 1) text initIdx
                               ''Parse error: unfinished double-quote string''
                        else if nextLineStartIdx \<ge> endIdx \<and> mlType = cSQ
                        then throwParsing (lsLineNbr st + 1) text initIdx
                               ''Parse error: unfinished single-quote string''
                        else Returned (True,
                               st\<lparr>lsSh := sh2, lsIdx := nextLineStartIdx, lsColNbr := 0,
                                  lsLineNbr := lsLineNbr st + 1, lsTargetIndent := targetIndent,
                                  lsIndentedFoldedLine := folded\<rparr>)))))"
text \<open>Every line moves forward: the termination of the loop over the lines.\<close>

lemma andThen_Returned:
  "andThen r f = Returned y \<Longrightarrow> \<exists>x. r = Returned x \<and> f x = Returned y"
  unfolding andThen_def by (cases r) auto

lemma throwParsing_not_Returned: "throwParsing lineNbr tx lineStart msg \<noteq> Returned x"
  unfolding throwParsing_def by (simp add: Let_def)

lemma sqLoop_ge:
  "sqLoop tx endIdx sh l c f = Returned (sh', l', c', f', e) \<Longrightarrow> l \<le> l'"
proof (induction tx endIdx sh l c f rule: sqLoop.induct)
  case (1 tx endIdx sh lineEndIdx chunkStartIdx isFirstAdd)
  from "1.prems" "1.IH" show ?case
    by (subst (asm) sqLoop.simps) (fastforce split: if_splits)
qed

lemma dqLoop_ge:
  "dqLoop tx endIdx sh l c f = Returned (sh', l', c', f') \<Longrightarrow> l \<le> l'"
proof (induction tx endIdx sh l c f rule: dqLoop.induct)
  case (1 tx endIdx sh lineEndIdx chunkStartIdx isFirstAdd)
  from "1.prems" "1.IH" show ?case
    by (subst (asm) dqLoop.simps)
       (fastforce simp: Let_def split: if_splits prod.splits dest!: dqEscape_ge)
qed

lemma sqLine_ge:
  "sqLine tx endIdx lineNbr initIdx sh n = Returned (sh', l, e) \<Longrightarrow> n \<le> l"
proof -
  assume a: "sqLine tx endIdx lineNbr initIdx sh n = Returned (sh', l, e)"
  from andThen_Returned[OF a[unfolded sqLine_def]] obtain sh1 l1 c1 f1 e1 where
    r: "sqLoop tx endIdx sh n n (\<not> shEmpty sh) = Returned (sh1, l1, c1, f1, e1)" and
    s: "(if charAt tx l1 = cSQ
         then scanWhile (\<lambda>i. charAt tx i = cSP \<or> charAt tx i = cTAB) (length tx) (l1 + 1)
         else l1) = l"
    by (auto simp: Let_def throwParsing_not_Returned split: if_splits)
  from sqLoop_ge[OF r] have "n \<le> l1" .
  moreover have "l1 \<le> l"
    using s scanWhile_ge[of "l1 + 1" "\<lambda>i. charAt tx i = cSP \<or> charAt tx i = cTAB" "length tx"]
    by (auto split: if_splits)
  ultimately show ?thesis by simp
qed

lemma dqLine_ge:
  "dqLine tx endIdx lineNbr initIdx sh n = Returned (sh', l, e) \<Longrightarrow> n \<le> l"
proof -
  assume a: "dqLine tx endIdx lineNbr initIdx sh n = Returned (sh', l, e)"
  from andThen_Returned[OF a[unfolded dqLine_def]] obtain sh1 l1 c1 f1 where
    r: "dqLoop tx endIdx sh n n (\<not> shEmpty sh) = Returned (sh1, l1, c1, f1)" and
    s: "(if charAt tx l1 = cDQ
         then scanWhile (\<lambda>i. charAt tx i = cSP \<or> charAt tx i = cTAB) (length tx) (l1 + 1)
         else l1) = l"
    by (auto simp: Let_def throwParsing_not_Returned split: if_splits)
  from dqLoop_ge[OF r] have "n \<le> l1" .
  moreover have "l1 \<le> l"
    using s scanWhile_ge[of "l1 + 1" "\<lambda>i. charAt tx i = cSP \<or> charAt tx i = cTAB" "length tx"]
    by (auto split: if_splits)
  ultimately show ?thesis by simp
qed

lemma modeLine_ge:
  "modeLine tx endIdx mlType initIdx st n colNbr targetIndent = Returned (sh', l, e, f) \<Longrightarrow> n \<le> l"
  unfolding modeLine_def literalLine_def foldedLine_def plainLine_def
  using scanWhile_ge[of n "\<lambda>i. \<not> isEol (charAt tx i)" endIdx]
        scanWhile_ge[of n "plainGoesOn tx endIdx (lsIdx st)" endIdx]
  by (auto simp: Let_def split: if_splits dest!: andThen_Returned sqLine_ge dqLine_ge)

lemma eolSize_pos: "0 < eolSize tx endIdx i"
  by (simp add: eolSize_def)

lemma lineStep_progress:
  assumes "lineStep tx endIdx mlType initIdx isNewLine st = Returned (True, st')"
  shows "lsIdx st < lsIdx st'"
proof -
  let ?n = "scanWhile (\<lambda>i. charAt tx i = cSP) endIdx (lsIdx st)"
  have n: "lsIdx st \<le> ?n" by (rule scanWhile_ge)
  show ?thesis
  proof (cases "lsTargetIndent st < 0 \<and> isEol (charAt tx ?n)")
    case True
    with assms n eolSize_pos[of tx endIdx ?n] show ?thesis
      unfolding lineStep_def by (auto simp: Let_def throwParsing_not_Returned split: if_splits)
  next
    case False
    with assms obtain sh1 l e f where
      m: "modeLine tx endIdx mlType initIdx st ?n (lsColNbr st + int (?n - lsIdx st))
            (if lsTargetIndent st < 0 then lsColNbr st + int (?n - lsIdx st) else lsTargetIndent st) =
          Returned (sh1, l, e, f)" and
      i: "lsIdx st' = l + eolSize tx endIdx l"
      unfolding lineStep_def
      by (auto simp: Let_def throwParsing_not_Returned split: if_splits dest!: andThen_Returned)
    from modeLine_ge[OF m] n i eolSize_pos[of tx endIdx l] show ?thesis by simp
  qed
qed

text \<open>The loop \<open>while (idx < endIdx)\<close> over the lines of a string.\<close>

function lineLoop :: "string \<Rightarrow> nat \<Rightarrow> char \<Rightarrow> nat \<Rightarrow> bool \<Rightarrow> LineState \<Rightarrow> LineState outcome" where
  "lineLoop text endIdx mlType initIdx isNewLine st =
     (if lsIdx st < endIdx then
        (case lineStep text endIdx mlType initIdx isNewLine st of
           Returned (goesOn, st') \<Rightarrow>
             if goesOn then lineLoop text endIdx mlType initIdx isNewLine st' else Returned st'
         | Thrown e \<Rightarrow> Thrown e
         | Aborted \<Rightarrow> Aborted
         | Undefined \<Rightarrow> Undefined)
      else Returned st)"
  by pat_completeness auto
termination
proof (relation "measure (\<lambda>(tx, endIdx, mlType, initIdx, isNewLine, st). endIdx - lsIdx st)")
  show "wf (measure (\<lambda>(tx, endIdx, mlType, initIdx, isNewLine, st). endIdx - lsIdx st))" by simp
next
  fix tx endIdx mlType initIdx isNewLine st x4 x y
  assume "lsIdx st < endIdx"
    and "lineStep tx endIdx mlType initIdx isNewLine st = Returned x4"
    and "(x, y) = x4" and x
  then have "lineStep tx endIdx mlType initIdx isNewLine st = Returned (True, y)" by auto
  from lineStep_progress[OF this] \<open>lsIdx st < endIdx\<close>
  show "((tx, endIdx, mlType, initIdx, isNewLine, y), (tx, endIdx, mlType, initIdx, isNewLine, st))
        \<in> measure (\<lambda>(tx, endIdx, mlType, initIdx, isNewLine, st). endIdx - lsIdx st)"
    by simp
qed

declare lineLoop.simps [simp del]

text \<open>
  The end of \<open>getToken\<close> for a string: the chomp, then the chunks of the helper are
  copied in a string session of the context, with a final line feed for a block that is
  clipped or kept.
\<close>

primrec addChunksToSession :: "string \<Rightarrow> (nat \<times> nat) list \<Rightarrow> Context \<Rightarrow> Context" where
  "addChunksToSession a [] ctx = ctx"
| "addChunksToSession a (lc # lcs) ctx =
     addChunksToSession a lcs (addToSession (slice a (fst lc) (snd lc)) ctx)"

definition finishString ::
  "char \<Rightarrow> char \<Rightarrow> StringHelper \<Rightarrow> Context \<Rightarrow> Context \<times> nat \<times> nat \<times> StringHelper" where
  "finishString mlType chomp sh ctx =
     (let sh1 = (if mlType \<noteq> cSQ \<and> mlType \<noteq> cDQ \<and> (chomp = CHR ''-'' \<or> chomp = cSP)
                 then shRemoveTrailingLines sh else sh);
          ctx1 = addChunksToSession (shArena sh1) (shChunks sh1) (startStringSession ctx);
          ctx2 = (if (mlType = CHR ''|'' \<or> mlType = CHR ''>'') \<and> (chomp = cSP \<or> chomp = CHR ''+'')
                  then addToSession [cLF] ctx1 else ctx1)
      in case commitSession ctx2 of (ctx3, sIdx, sSize) \<Rightarrow> (ctx3, sIdx, sSize, sh1))"

text \<open>
  The start of a string: the kind (\<open>mlType\<close>), the chomp, whether the tab check of the
  lines is active, and the state of the loop over the lines.
\<close>

definition stringHeader ::
  "string \<Rightarrow> nat \<Rightarrow> int \<Rightarrow> nat \<Rightarrow> bool \<Rightarrow> int \<Rightarrow> int \<Rightarrow> nat \<Rightarrow> (char \<times> char \<times> bool \<times> LineState) outcome" where
  "stringHeader text endIdx parentIndent initIdx isNewLine colNbr lineNbr idx =
     (let firstChar = charAt text idx;
          st0 = \<lparr>lsSh = shStartSession, lsIdx = idx, lsColNbr = colNbr, lsLineNbr = lineNbr,
                 lsTargetIndent = - 1, lsIndentedFoldedLine = False, lsIsKey = False\<rparr>
      in if firstChar = cSQ \<or> firstChar = cDQ then
           (let nonSpaceIdx = scanWhile (\<lambda>i. charAt text i = cSP) endIdx (idx + 1)
            in Returned (firstChar, cSP, isNewLine,
                 st0\<lparr>lsSh := shAddChunk (replicate (nonSpaceIdx - (idx + 1)) cSP) shStartSession,
                     lsIdx := idx + 1, lsColNbr := colNbr + 1 + int (nonSpaceIdx - (idx + 1)),
                     lsTargetIndent := 0\<rparr>))
         else if firstChar = CHR ''|'' \<or> firstChar = CHR ''>'' then
           andThen (headerPass text endIdx lineNbr initIdx (cSP, - 1, idx + 1, colNbr + 1))
             (\<lambda>pass1. andThen (headerPass text endIdx lineNbr initIdx pass1)
                (\<lambda>(chomp, deltaIndent, idx2, colNbr2).
                   (let e = scanWhile (\<lambda>i. \<not> isEol (charAt text i)) endIdx idx2
                    in Returned (firstChar, chomp, True,
                         st0\<lparr>lsIdx := e + eolSize text endIdx e, lsColNbr := 0,
                             lsLineNbr := lineNbr + 1,
                             lsTargetIndent := (if deltaIndent \<ge> 0 then parentIndent + deltaIndent
                                                else - 1)\<rparr>))))
         else Returned (cSP, cSP, isNewLine,
                st0\<lparr>lsTargetIndent := (if colNbr > parentIndent then parentIndent + 1 else colNbr)\<rparr>))"

text \<open>
  \<open>getToken\<close>. The result is the token with the context and the helper as they are left,
  and the new values of \<open>colNbr\<close>, \<open>lineNbr\<close> and \<open>idx\<close>.
\<close>

definition getToken ::
  "string \<Rightarrow> nat \<Rightarrow> int \<Rightarrow> Context \<Rightarrow> StringHelper \<Rightarrow> int \<Rightarrow> int \<Rightarrow> nat \<Rightarrow>
   (TokenParser \<times> Context \<times> StringHelper \<times> int \<times> int \<times> nat) outcome" where
  "getToken text endIdx parentIndent ctx sh colNbr lineNbr idx =
     (let isNewLine = (colNbr = 0);
          idxFnp = (if isNewLine then scanWhile (\<lambda>i. charAt text i = cSP) endIdx idx
                    else scanWhile (\<lambda>i. charAt text i = cSP \<or> charAt text i = cTAB) endIdx idx)
      in if isNewLine \<and> charAt text idxFnp = cTAB
         then throwParsing lineNbr text idx
                ''Parse error: using tabulation is not accepted for indentation''
         else
           (let colNbr1 = colNbr + int (idxFnp - idx);
                firstChar = charAt text idxFnp
            in if idxFnp \<ge> endIdx then Returned (mkToken Eos colNbr1 0 0, ctx, sh, colNbr1, lineNbr, idxFnp)
               else if isEol firstChar then
                 Returned (mkToken Newline colNbr1 0 0, ctx, sh, 0, lineNbr + 1,
                           idxFnp + eolSize text endIdx idxFnp)
               else if firstChar = CHR ''-'' \<and>
                       (idxFnp + 1 = endIdx \<or> charAt text (idxFnp + 1) = cSP \<or>
                        isEol (charAt text (idxFnp + 1))) then
                 Returned (mkToken Caret colNbr1 0 0, ctx, sh, colNbr1 + 1, lineNbr, idxFnp + 1)
               else if firstChar = CHR ''#'' then
                 (let e = scanWhile (\<lambda>i. \<not> isEol (charAt text i)) endIdx idxFnp
                  in case addString (slice text (idxFnp + 1) (e - (idxFnp + 1))) ctx of
                       (ctx1, sIdx, sSize) \<Rightarrow>
                         Returned (mkToken Comment colNbr1 sIdx sSize, ctx1, sh,
                                   colNbr1 + int (e - idxFnp), lineNbr, e))
               else
                 andThen (stringHeader text endIdx parentIndent idx isNewLine colNbr1 lineNbr idxFnp)
                   (\<lambda>(mlType, chomp, tabCheck, st0).
                      andThen (lineLoop text endIdx mlType idx tabCheck st0)
                        (\<lambda>st. case finishString mlType chomp (lsSh st) ctx of
                                 (ctx1, sIdx, sSize, sh1) \<Rightarrow>
                                   Returned (mkToken (if lsIsKey st then Key else StringValue) colNbr1
                                               sIdx sSize,
                                             ctx1, sh1, lsColNbr st, lsLineNbr st, lsIdx st)))))"
section \<open>Parsing: the construction of the tree\<close>

text \<open>An item of the stack of \<open>parse\<close>: an element with its indentation and that of its children.\<close>

record ParseItem =
  piEltIdx :: nat
  piIndent :: int
  piChildIndent :: int

definition mkItem :: "nat \<Rightarrow> int \<Rightarrow> int \<Rightarrow> ParseItem" where
  "mkItem e i c = \<lparr>piEltIdx = e, piIndent = i, piChildIndent = c\<rparr>"

text \<open>
  The variables of \<open>parse\<close>: the context, the string helper, the stack and \<open>parent\<close> (a
  copy of an item of the stack), \<open>mlStringParentIndent\<close>, \<open>indexColNbr\<close>, \<open>lineNbr\<close>,
  \<open>startIdx\<close>, \<open>tokenLineNbr\<close>, \<open>tokenIdx\<close> and \<open>isEndOfInput\<close>.
\<close>

record ParseState =
  psCtx :: Context
  psSh :: StringHelper
  psStack :: "ParseItem list"
  psParent :: ParseItem
  psMlIndent :: int
  psColNbr :: int
  psLineNbr :: int
  psStartIdx :: nat
  psTokenLineNbr :: int
  psTokenIdx :: nat
  psEndOfInput :: bool

definition psElements :: "ParseState \<Rightarrow> Element list" where
  "psElements st = elements (psCtx st)"

definition psSetElements :: "Element list \<Rightarrow> ParseState \<Rightarrow> ParseState" where
  "psSetElements es st = st\<lparr>psCtx := (psCtx st)\<lparr>elements := es\<rparr>\<rparr>"

text \<open>\<open>throwParsing(tokenLineNbr, text + tokenIdx, ...)\<close>\<close>

definition parseError :: "string \<Rightarrow> ParseState \<Rightarrow> string \<Rightarrow> 'a outcome" where
  "parseError text st msg = throwParsing (psTokenLineNbr st) text (psTokenIdx st) msg"

text \<open>
  \<open>stack.pop_back(); parent = stack.back();\<close> The read of \<open>back()\<close> of a stack that has
  become empty is undefined.
\<close>

definition popItem :: "ParseState \<Rightarrow> ParseState outcome" where
  "popItem st =
     (if butlast (psStack st) = [] then Undefined
      else Returned (st\<lparr>psStack := butlast (psStack st), psParent := last (butlast (psStack st))\<rparr>))"

text \<open>
  The chain of the comments attached to an element: the loop
  \<open>while ((tmpIdx = elements[idx].getNextCommentIndex()) != 0) idx = tmpIdx\<close>.
\<close>

partial_function (option) lastComment :: "Element list \<Rightarrow> nat \<Rightarrow> nat option" where
  "lastComment es i =
     (if getNextCommentIndex (es ! i) \<noteq> 0 then lastComment es (getNextCommentIndex (es ! i))
      else Some i)"

declare lastComment.simps [code]

text \<open>The case of a comment token.\<close>

definition commentCase :: "bool \<Rightarrow> TokenParser \<Rightarrow> ParseState \<Rightarrow> ParseState outcome option" where
  "commentCase isStartingWithNewLine token st =
     (let eltIdx = length (psElements st);
          c0 = newStringElement COMMENT (tokStringIdx token) (tokStringSize token);
          es1 = psElements st @ [if isStartingWithNewLine then setStandalone c0 else c0];
          pc0 = piEltIdx (psParent st);
          pc1 = (if getType (es1 ! pc0) = UNKNOWN \<and> length (psStack st) \<ge> 2
                 then piEltIdx (psStack st ! (length (psStack st) - 2)) else pc0)
      in if getType (es1 ! pc1) \<noteq> UNKNOWN
         then (case lastComment es1 pc1 of
                 None \<Rightarrow> None
               | Some pc2 \<Rightarrow> Some (Returned (psSetElements (es1[pc2 := setComment eltIdx (es1 ! pc2)]) st)))
         else Some (Returned (psSetElements es1 st)))"

text \<open>
  The case of a caret token: the loop that pops the stack until the caret fits under the
  parent.
\<close>

definition caretPops :: "Element list \<Rightarrow> int \<Rightarrow> ParseItem list \<Rightarrow> ParseItem \<Rightarrow> bool" where
  "caretPops es colNbr stack parent =
     (stack \<noteq> [] \<and>
      (getType (es ! piEltIdx parent) \<noteq> KEY \<or> colNbr \<noteq> piIndent parent) \<and>
      (getType (es ! piEltIdx parent) \<noteq> UNKNOWN \<or> length stack < 2 \<or>
       getType (es ! piEltIdx (stack ! (length stack - 2))) \<noteq> KEY \<or>
       colNbr \<noteq> piIndent (stack ! (length stack - 2))) \<and>
      colNbr \<le> piIndent parent \<and>
      (piChildIndent parent < 0 \<or> colNbr < piChildIndent parent))"

function caretPopLoop :: "int \<Rightarrow> ParseState \<Rightarrow> ParseState outcome" where
  "caretPopLoop colNbr st =
     (if caretPops (psElements st) colNbr (psStack st) (psParent st)
      then (case popItem st of
              Returned st' \<Rightarrow> caretPopLoop colNbr st'
            | Thrown e \<Rightarrow> Thrown e | Aborted \<Rightarrow> Aborted | Undefined \<Rightarrow> Undefined)
      else Returned st)"
  by pat_completeness auto
termination
  by (relation "measure (\<lambda>(colNbr, st). length (psStack st))")
     (auto simp: popItem_def caretPops_def split: if_splits)

declare caretPopLoop.simps [simp del]

text \<open>\<open>stack.back()\<close> with a field changed.\<close>

definition setBack :: "(ParseItem \<Rightarrow> ParseItem) \<Rightarrow> ParseItem list \<Rightarrow> ParseItem list" where
  "setBack f stack = butlast stack @ [f (last stack)]"

definition caretCase :: "bool \<Rightarrow> string \<Rightarrow> TokenParser \<Rightarrow> ParseState \<Rightarrow> ParseState outcome" where
  "caretCase ndebug text token st0 =
     (let colNbr = tokStartColNbr token
      in andThen (caretPopLoop colNbr (st0\<lparr>psMlIndent := colNbr\<rparr>))
        (\<lambda>st.
          if psStack st = []
          then parseError text st
                 (''Parse error: the indentation of the caret (='' @ showInt colNbr @
                  '') does not match any parent (='' @ showInt (piChildIndent (psParent st)) @ '')'')
          else if piChildIndent (psParent st) \<ge> 0 \<and> colNbr \<noteq> piChildIndent (psParent st)
          then parseError text st
                 (''Parse error: the indentation of the caret (='' @ showInt colNbr @
                  '') is not aligned with other child elements (='' @
                  showInt (piChildIndent (psParent st)) @ '')'')
          else
            andThen
              (let parentElt = psElements st ! piEltIdx (psParent st)
               in if getType parentElt = SEQUENCE then Returned st
                  else if getType parentElt = UNKNOWN then
                    (if length (psStack st) < 2 then Undefined
                     else
                       (let es1 = (psElements st)[piEltIdx (psParent st) := reset SEQUENCE parentElt];
                            stack1 = setBack (\<lambda>it. it\<lparr>piIndent := colNbr, piChildIndent := colNbr\<rparr>)
                                       (psStack st);
                            stack2 = (if piChildIndent (stack1 ! (length stack1 - 2)) < 0
                                      then stack1[length stack1 - 2 :=
                                             (stack1 ! (length stack1 - 2))\<lparr>piChildIndent := colNbr\<rparr>]
                                      else stack1)
                        in Returned ((psSetElements es1 st)\<lparr>psStack := stack2, psParent := last stack1\<rparr>)))
                  else if \<not> ndebug \<and> getType parentElt = VALUE then Aborted
                  else if getType parentElt = KEY \<and> getSubQty parentElt > 0
                  then parseError text st
                         (''Parse error: probably bad indentation with caret, as the parent ('' @ [cSQ] @
                          nodeTypeName KEY @ [cSQ] @ '') already has a value'')
                  else
                    (let eltIdx = length (psElements st);
                         es1 = psElements st @ [newElement SEQUENCE];
                         es2 = es1[piEltIdx (psParent st) := addSub eltIdx (es1 ! piEltIdx (psParent st))]
                     in Returned ((psSetElements es2 st)\<lparr>psStack := psStack st @ [mkItem eltIdx colNbr colNbr],
                                                           psParent := mkItem eltIdx colNbr colNbr\<rparr>)))
              (\<lambda>st1.
                 if \<not> ndebug \<and> getType (psElements st1 ! piEltIdx (psParent st1)) \<noteq> SEQUENCE then Aborted
                 else
                   (let eltIdx = length (psElements st1);
                        es1 = psElements st1 @ [newElement UNKNOWN];
                        es2 = es1[piEltIdx (psParent st1) := addSub eltIdx (es1 ! piEltIdx (psParent st1))]
                    in Returned ((psSetElements es2 st1)\<lparr>psStack := psStack st1 @ [mkItem eltIdx colNbr (- 1)],
                                                            psParent := mkItem eltIdx colNbr (- 1)\<rparr>)))))"

text \<open>
  The case of a key token. The length of the key is \<open>token.stringSize - 1\<close> and the position
  of the new child is \<open>getSubQty() - 1\<close>, both of type \<open>uint32_t\<close>: with a size or a
  quantity of 0 they would wrap around, and the index would read outside the string.
\<close>

function keyPopLoop :: "int \<Rightarrow> ParseState \<Rightarrow> ParseState outcome" where
  "keyPopLoop colNbr st =
     (if psStack st \<noteq> [] \<and> colNbr \<le> piIndent (psParent st)
      then (case popItem st of
              Returned st' \<Rightarrow> keyPopLoop colNbr st'
            | Thrown e \<Rightarrow> Thrown e | Aborted \<Rightarrow> Aborted | Undefined \<Rightarrow> Undefined)
      else Returned st)"
  by pat_completeness auto
termination
  by (relation "measure (\<lambda>(colNbr, st). length (psStack st))")
     (auto simp: popItem_def split: if_splits)

declare keyPopLoop.simps [simp del]

definition duplicatedKeyMessage :: "string \<Rightarrow> string" where
  "duplicatedKeyMessage keyName =
     ''Parse error: duplicated key are forbidden and the key '' @ [cSQ] @ keyName @ [cSQ] @
     '' is already present.''"

definition keyCase ::
  "bool \<Rightarrow> string \<Rightarrow> TokenParser \<Rightarrow> ParseState \<Rightarrow> ParseState outcome option" where
  "keyCase ndebug text token st0 =
     (let colNbr = tokStartColNbr token
      in case
        andThen (keyPopLoop colNbr (st0\<lparr>psMlIndent := colNbr\<rparr>))
        (\<lambda>st.
          if psStack st = []
          then parseError text st
                 (''Parse error: the indentation of the key (='' @ showInt colNbr @
                  '') does not match any parent (='' @ showInt (piChildIndent (psParent st)) @ '')'')
          else if piChildIndent (psParent st) \<ge> 0 \<and> colNbr < piChildIndent (psParent st)
          then parseError text st
                 (''Parse error: the indentation of the key (='' @ showInt colNbr @
                  '') is not aligned with other child elements (='' @
                  showInt (piChildIndent (psParent st)) @ '')'')
          else
            (let st1 = (if piChildIndent (psParent st) < 0
                        then st\<lparr>psStack := setBack (\<lambda>it. it\<lparr>piChildIndent := colNbr\<rparr>) (psStack st),
                                psParent := (last (psStack st))\<lparr>piChildIndent := colNbr\<rparr>\<rparr>
                        else st);
                 parentElt = psElements st1 ! piEltIdx (psParent st1)
             in if getType parentElt = MAP then Returned st1
                else if getType parentElt = UNKNOWN
                then Returned (psSetElements
                       ((psElements st1)[piEltIdx (psParent st1) := reset MAP parentElt]) st1)
                else if \<not> ndebug \<and> getType parentElt = VALUE then Aborted
                else if getType parentElt = KEY \<and> getSubQty parentElt > 0
                then parseError text st1
                       (''Parse error: probably bad indentation, as the parent ('' @ [cSQ] @
                        nodeTypeName (getType parentElt) @ [cSQ] @ '') already has a value'')
                else
                  (let eltIdx = length (psElements st1);
                       es1 = psElements st1 @ [newElement MAP];
                       es2 = es1[piEltIdx (psParent st1) := addSub eltIdx (es1 ! piEltIdx (psParent st1))];
                       item = mkItem eltIdx (piIndent (psParent st1)) (- 1)
                   in Returned ((psSetElements es2 st1)\<lparr>psStack := psStack st1 @ [item],
                                                          psParent := item\<rparr>))))
      of
        Thrown e \<Rightarrow> Some (Thrown e)
      | Aborted \<Rightarrow> Some Aborted
      | Undefined \<Rightarrow> Some Undefined
      | Returned st2 \<Rightarrow>
          (let stack3 = (if piChildIndent (psParent st2) < 0
                         then setBack (\<lambda>it. it\<lparr>piChildIndent := colNbr\<rparr>) (psStack st2)
                         else psStack st2);
               P = piEltIdx (psParent st2);
               eltIdx = length (psElements st2);
               es1 = psElements st2 @ [newStringElement KEY (tokStringIdx token) (tokStringSize token)];
               stack4 = stack3 @ [mkItem eltIdx colNbr (- 1)]
           in if \<not> ndebug \<and> getType (es1 ! P) = KEY \<and> getSubQty (es1 ! P) \<noteq> 0 then Some Aborted
              else if tokStringSize token = 0 \<or> getSubQty (addSub eltIdx (es1 ! P)) = 0 then Some Undefined
              else
                (let es2 = es1[P := addSub eltIdx (es1 ! P)];
                     ctx2 = (psCtx st2)\<lparr>elements := es2\<rparr>;
                     keyName = getString ctx2 (tokStringIdx token)
                 in case addMapChildIndex ctx2 P (take (tokStringSize token - 1) keyName) (es2 ! P)
                           (getSubQty (es2 ! P) - 1) of
                      None \<Rightarrow> None
                    | Some (inserted, ctx3) \<Rightarrow>
                        if \<not> inserted
                        then Some (parseError text (st2\<lparr>psCtx := ctx3\<rparr>)
                                     (duplicatedKeyMessage (cstr (getString ctx3 (tokStringIdx token)))))
                        else if \<not> ndebug \<and> getType (elements ctx3 ! eltIdx) \<noteq> KEY then Some Aborted
                        else
                          (let valIdx = length (elements ctx3);
                               es3 = elements ctx3 @ [newElement UNKNOWN];
                               es4 = es3[eltIdx := addSub valIdx (es3 ! eltIdx)]
                           in Some (Returned (st2\<lparr>psCtx := ctx3\<lparr>elements := es4\<rparr>,
                                                   psStack := stack4 @ [mkItem valIdx colNbr (- 1)],
                                                   psParent := mkItem valIdx colNbr (- 1)\<rparr>))))))"

text \<open>The case of a string value token.\<close>

definition valueCase :: "bool \<Rightarrow> string \<Rightarrow> TokenParser \<Rightarrow> ParseState \<Rightarrow> ParseState outcome" where
  "valueCase ndebug text token st =
     (let colNbr = tokStartColNbr token
      in if colNbr \<le> piIndent (psParent st)
         then parseError text st
                (''Parse error: the indentation of the value (='' @ showInt colNbr @
                 '') is not compatible with the parent indentation (='' @
                 showInt (piIndent (psParent st)) @ '')'')
         else if piChildIndent (psParent st) \<ge> 0 \<and> colNbr < piChildIndent (psParent st)
         then parseError text st
                (''Parse error: the indentation of the value (='' @ showInt colNbr @
                 '') is not aligned with other child elements (='' @
                 showInt (piChildIndent (psParent st)) @ '')'')
         else if getType (psElements st ! piEltIdx (psParent st)) = MAP
         then parseError text st ''Parse error: in a map, a value without a key is forbidden''
         else
           (let st1 = (if piChildIndent (psParent st) < 0
                       then st\<lparr>psStack := setBack (\<lambda>it. it\<lparr>piChildIndent := colNbr\<rparr>) (psStack st),
                               psParent := (last (psStack st))\<lparr>piChildIndent := colNbr\<rparr>\<rparr>
                       else st);
                parentElt = psElements st1 ! piEltIdx (psParent st1)
            in andThen
                 (if getType parentElt = UNKNOWN
                  then popItem (psSetElements
                         ((psElements st1)[piEltIdx (psParent st1) :=
                            setString (tokStringIdx token) (tokStringSize token) (reset VALUE parentElt)])
                         st1)
                  else if \<not> ndebug \<and> getType parentElt = KEY \<and> getSubQty parentElt \<noteq> 0 then Aborted
                  else
                    (let eltIdx = length (psElements st1);
                         es1 = psElements st1 @
                                 [newStringElement VALUE (tokStringIdx token) (tokStringSize token)];
                         es2 = es1[piEltIdx (psParent st1) := addSub eltIdx (es1 ! piEltIdx (psParent st1))]
                     in Returned (psSetElements es2 st1)))
                 (\<lambda>st2. if getType (psElements st2 ! piEltIdx (psParent st2)) = KEY then popItem st2
                         else Returned st2)))"

text \<open>One pass of the loop of \<open>parse\<close>: the next token and its case.\<close>

definition parseStep :: "bool \<Rightarrow> string \<Rightarrow> nat \<Rightarrow> ParseState \<Rightarrow> ParseState outcome option" where
  "parseStep ndebug text textSize st =
     (case getToken text textSize (psMlIndent st) (psCtx st) (psSh st) (psColNbr st) (psLineNbr st)
             (psStartIdx st) of
        Thrown e \<Rightarrow> Some (Thrown e)
      | Aborted \<Rightarrow> Some Aborted
      | Undefined \<Rightarrow> Some Undefined
      | Returned (token, ctx1, sh1, colNbr1, lineNbr1, idx1) \<Rightarrow>
          (let st1 = st\<lparr>psCtx := ctx1, psSh := sh1, psColNbr := colNbr1, psLineNbr := lineNbr1,
                        psStartIdx := idx1\<rparr>;
               r = (case tokType token of
                      Comment \<Rightarrow> commentCase (psColNbr st = 0) token st1
                    | Caret \<Rightarrow> Some (caretCase ndebug text token st1)
                    | Key \<Rightarrow> keyCase ndebug text token st1
                    | StringValue \<Rightarrow> Some (valueCase ndebug text token st1)
                    | Newline \<Rightarrow> Some (Returned (st1\<lparr>psMlIndent := piIndent (psParent st1), psColNbr := 0\<rparr>))
                    | Eos \<Rightarrow> Some (Returned (st1\<lparr>psEndOfInput := True\<rparr>)))
           in case r of
                None \<Rightarrow> None
              | Some (Returned st2) \<Rightarrow>
                  Some (Returned (st2\<lparr>psTokenLineNbr := psLineNbr st2, psTokenIdx := psStartIdx st2\<rparr>))
              | Some other \<Rightarrow> Some other))"

text \<open>The loop \<open>while (!isEndOfInput && !stack.empty())\<close>; the result is the context.\<close>

partial_function (option) parseLoop :: "bool \<Rightarrow> string \<Rightarrow> nat \<Rightarrow> ParseState \<Rightarrow> Context outcome option" where
  "parseLoop ndebug text textSize st =
     (if psEndOfInput st \<or> psStack st = [] then Some (Returned (psCtx st))
      else (case parseStep ndebug text textSize st of
              None \<Rightarrow> None
            | Some (Returned st') \<Rightarrow> parseLoop ndebug text textSize st'
            | Some (Thrown e) \<Rightarrow> Some (Thrown e)
            | Some Aborted \<Rightarrow> Some Aborted
            | Some Undefined \<Rightarrow> Some Undefined))"

declare parseLoop.simps [code]

text \<open>
  \<open>parse(const char* text, uint32_t textSize)\<close>: the root key with an empty name, the
  stack with the item of the root, and the loop.
\<close>

definition parseInit :: "Context \<Rightarrow> ParseState" where
  "parseInit ctx0 =
     (let ctx1 = ctx0\<lparr>elements := elements ctx0 @ [newElement KEY]\<rparr>;
          ctx2 = addStringElt [] (length (elements ctx1) - 1) ctx1
      in \<lparr>psCtx = ctx2, psSh = shStartSession, psStack = [mkItem 0 (- 1) (- 1)],
          psParent = mkItem 0 (- 1) (- 1), psMlIndent = - 1, psColNbr = 0, psLineNbr = 1,
          psStartIdx = 0, psTokenLineNbr = 1, psTokenIdx = 0, psEndOfInput = False\<rparr>)"

definition parseN :: "bool \<Rightarrow> string \<Rightarrow> nat \<Rightarrow> Context outcome option" where
  "parseN ndebug text textSize =
     (case newContext of None \<Rightarrow> None | Some ctx0 \<Rightarrow> parseLoop ndebug text textSize (parseInit ctx0))"

text \<open>\<open>parse(const std::string& text)\<close>\<close>

definition parse :: "bool \<Rightarrow> string \<Rightarrow> Context outcome option" where
  "parse ndebug text = parseN ndebug text (length text)"
section \<open>Parsing: inputs\<close>

text \<open>
  What is observed of the document that \<open>parse\<close> returns: the elements and the arena of
  its context.
\<close>

definition parsedTree :: "Context outcome option \<Rightarrow> (Element list \<times> string) outcome option" where
  "parsedTree r =
     map_option (\<lambda>r. case r of Returned ctx \<Rightarrow> Returned (elements ctx, arena ctx)
                        | Thrown e \<Rightarrow> Thrown e | Aborted \<Rightarrow> Aborted | Undefined \<Rightarrow> Undefined) r"

text \<open>
  A plain value that goes on in a second line whose indentation is a space and a tab; the
  same value with its first line below the key; a tab inside a value.
\<close>

definition tabContinuation :: string where
  "tabContinuation = ''k: abc'' @ [cLF] @ '' '' @ [cTAB] @ ''def''"

definition tabOwnLine :: string where
  "tabOwnLine = ''k:'' @ [cLF] @ ''  abc'' @ [cLF] @ '' '' @ [cTAB] @ ''def''"

definition tabInValue :: string where
  "tabInValue = ''k: a'' @ [cTAB] @ ''b''"

definition tabulationMessage :: string where
  "tabulationMessage = ''Parse error: using tabulation is not accepted for indentation''"

section \<open>Proofs: scalar style selection\<close>

lemma hasPair_iff: "hasPair a b s \<longleftrightarrow> (\<exists>i. i + 1 < length s \<and> s ! i = a \<and> s ! (i + 1) = b)"
proof (induction a b s rule: hasPair.induct)
  case (1 a b x y zs)
  show ?case
  proof
    assume "hasPair a b (x # y # zs)"
    then consider "x = a \<and> y = b" | "hasPair a b (y # zs)" by auto
    then show "\<exists>i. i + 1 < length (x # y # zs) \<and> (x # y # zs) ! i = a \<and> (x # y # zs) ! (i + 1) = b"
    proof cases
      case 1
      then show ?thesis by (intro exI[of _ 0]) simp
    next
      case 2
      with "1.IH" obtain i where "i + 1 < length (y # zs)" "(y # zs) ! i = a" "(y # zs) ! (i + 1) = b"
        by blast
      then show ?thesis by (intro exI[of _ "Suc i"]) simp
    qed
  next
    assume "\<exists>i. i + 1 < length (x # y # zs) \<and> (x # y # zs) ! i = a \<and> (x # y # zs) ! (i + 1) = b"
    then obtain i where i: "i + 1 < length (x # y # zs)" "(x # y # zs) ! i = a" "(x # y # zs) ! (i + 1) = b"
      by blast
    show "hasPair a b (x # y # zs)"
    proof (cases i)
      case 0
      with i show ?thesis by simp
    next
      case (Suc j)
      with i have "j + 1 < length (y # zs) \<and> (y # zs) ! j = a \<and> (y # zs) ! (j + 1) = b" by simp
      with "1.IH" show ?thesis by auto
    qed
  qed
qed simp_all

lemma analyzeLoop_spec:
  "analyzeLoop t idx p n =
     (p \<and> (\<forall>i. idx \<le> i \<and> i < length t \<longrightarrow> \<not> violAt t i),
      n + int (length (filter (\<lambda>c. c = cLF) (drop idx t))))"
proof (induction t idx p n rule: analyzeLoop.induct)
  case (1 t idx isPlain newLineCount)
  show ?case
  proof (cases "idx < length t")
    case False
    then show ?thesis by (auto simp add: analyzeLoop.simps[of t idx])
  next
    case True
    define c where "c = t ! idx"
    define n1 where "n1 = (if c = cLF then newLineCount + 1 else newLineCount)"
    define p1 where "p1 = (if isPlain \<and> c = CHR '':'' \<and> idx + 1 < length t \<and>
                            (t ! (idx + 1) = cSP \<or> t ! (idx + 1) = cCR \<or> t ! (idx + 1) = cLF)
                         then False else isPlain)"
    define p2 where "p2 = (if p1 \<and> c = CHR ''#'' \<and> (idx = 0 \<or> t ! (idx - 1) = cSP)
                         then False else p1)"
    have step: "analyzeLoop t idx isPlain newLineCount = analyzeLoop t (idx + 1) p2 n1"
      using True by (subst analyzeLoop.simps) (auto simp add: Let_def c_def n1_def p1_def p2_def)
    have ih: "analyzeLoop t (idx + 1) p2 n1 =
       (p2 \<and> (\<forall>i. idx + 1 \<le> i \<and> i < length t \<longrightarrow> \<not> violAt t i),
        n1 + int (length (filter (\<lambda>c. c = cLF) (drop (idx + 1) t))))"
      using "1.IH"[OF True c_def n1_def p1_def p2_def] .
    have split: "(\<forall>i. idx \<le> i \<and> i < length t \<longrightarrow> \<not> violAt t i) \<longleftrightarrow>
                 (\<not> violAt t idx \<and> (\<forall>i. idx + 1 \<le> i \<and> i < length t \<longrightarrow> \<not> violAt t i))"
    proof -
      have "\<And>i. idx \<le> i \<longleftrightarrow> i = idx \<or> idx + 1 \<le> i" by auto
      with True show ?thesis by metis
    qed
    have dr: "drop idx t = c # drop (idx + 1) t"
      using True by (simp add: Cons_nth_drop_Suc c_def)
    have p2: "p2 \<longleftrightarrow> isPlain \<and> \<not> violAt t idx"
      by (auto simp: p2_def p1_def violAt_def c_def)
    have n1: "n1 + int (length (filter (\<lambda>c. c = cLF) (drop (idx + 1) t))) =
              newLineCount + int (length (filter (\<lambda>c. c = cLF) (drop idx t)))"
      by (simp add: dr n1_def)
    show ?thesis
      using ih n1 by (simp add: step split p2)
  qed
qed

lemma analyze0:
  assumes "s \<noteq> []"
  shows "analyzeLoop s 0 p 0 =
     (p \<and> hd s \<noteq> CHR ''#'' \<and> \<not> hasPair (CHR '':'') cSP s \<and> \<not> hasPair (CHR '':'') cCR s \<and>
      \<not> hasPair (CHR '':'') cLF s \<and> \<not> hasPair cSP (CHR ''#'') s,
      int (length (filter (\<lambda>c. c = cLF) s)))"
proof -
  let ?L = "\<forall>i. i < length s \<longrightarrow> \<not> violAt s i"
  let ?R = "hd s \<noteq> CHR ''#'' \<and> \<not> hasPair (CHR '':'') cSP s \<and> \<not> hasPair (CHR '':'') cCR s \<and>
      \<not> hasPair (CHR '':'') cLF s \<and> \<not> hasPair cSP (CHR ''#'') s"
  have v: "?L \<longleftrightarrow> ?R"
  proof
    assume L: ?L
    have h: "hd s \<noteq> CHR ''#''"
      using L[rule_format, of 0] assms by (auto simp: violAt_def hd_conv_nth)
    have c: "\<not> hasPair (CHR '':'') b s" if "b = cSP \<or> b = cCR \<or> b = cLF" for b
    proof
      assume "hasPair (CHR '':'') b s"
      then obtain i where "i + 1 < length s" "s ! i = CHR '':''" "s ! (i + 1) = b"
        unfolding hasPair_iff by blast
      with that have "violAt s i" "i < length s" by (auto simp: violAt_def)
      with L show False by blast
    qed
    have d: "\<not> hasPair cSP (CHR ''#'') s"
    proof
      assume "hasPair cSP (CHR ''#'') s"
      then obtain i where "i + 1 < length s" "s ! i = cSP" "s ! (i + 1) = CHR ''#''"
        unfolding hasPair_iff by blast
      then have "violAt s (i + 1)" "i + 1 < length s" by (auto simp: violAt_def)
      with L show False by blast
    qed
    from h c d show ?R by blast
  next
    assume R: ?R
    show ?L
    proof (intro allI impI notI)
      fix i assume i: "i < length s" and "violAt s i"
      then consider
        (colon) b where "s ! i = CHR '':''" "i + 1 < length s" "s ! (i + 1) = b" "b = cSP \<or> b = cCR \<or> b = cLF"
        | (hash0) "s ! i = CHR ''#''" "i = 0"
        | (hash) "s ! i = CHR ''#''" "i \<noteq> 0" "s ! (i - 1) = cSP"
        unfolding violAt_def by blast
      then show False
      proof cases
        case colon
        then have "hasPair (CHR '':'') b s" unfolding hasPair_iff by blast
        with R colon(4) show False by blast
      next
        case hash0
        with R assms show False by (simp add: hd_conv_nth)
      next
        case hash
        then have "(i - 1) + 1 < length s \<and> s ! (i - 1) = cSP \<and> s ! ((i - 1) + 1) = CHR ''#''"
          using i by simp
        then have "hasPair cSP (CHR ''#'') s" unfolding hasPair_iff by blast
        with R show False by blast
      qed
    qed
  qed
  show ?thesis
    unfolding analyzeLoop_spec using v by simp
qed

lemma count_LF_zero: "length (filter (\<lambda>c. c = cLF) s) = 0 \<longleftrightarrow> cLF \<notin> set s"
  by (induction s) auto

lemma style_pick:
  "(let isSingleQuote = ((n::int) = 0);
        newLineCount = (if \<not> P \<and> n > 0 then X else n)
    in if P \<and> newLineCount = 0 then Plain
       else if isSingleQuote then SingleQuote
       else if True \<or> newLineCount = 0 then DoubleQuote
       else Literal) =
   (if P \<and> n = 0 then Plain else if n = 0 then SingleQuote else DoubleQuote)"
  by (auto simp: Let_def)

lemma scalarStyle_unfold:
  assumes "s \<noteq> []"
  shows "scalarStyle s =
     (if (hd s \<noteq> cSP \<and> hd s \<noteq> CHR ''>'' \<and> hd s \<noteq> CHR ''|'' \<and> hd s \<noteq> cSQ \<and> hd s \<noteq> cDQ \<and>
          last s \<noteq> cSP \<and> hd s \<noteq> CHR ''#'' \<and> \<not> hasPair (CHR '':'') cSP s \<and>
          \<not> hasPair (CHR '':'') cCR s \<and> \<not> hasPair (CHR '':'') cLF s \<and>
          \<not> hasPair cSP (CHR ''#'') s) \<and> cLF \<notin> set s then Plain
      else if cLF \<notin> set s then SingleQuote else DoubleQuote)"
proof -
  have hd0: "s ! 0 = hd s" and lst: "s ! (length s - 1) = last s"
    using assms by (simp_all add: hd_conv_nth last_conv_nth)
  have len: "length s \<noteq> 0" using assms by simp
  have n0: "(int (length (filter (\<lambda>c. c = cLF) s)) = 0) \<longleftrightarrow> cLF \<notin> set s"
    using count_LF_zero[of s] by simp
  have "scalarStyle s =
     (let isPlain0 = (s ! 0 \<noteq> cSP \<and> s ! 0 \<noteq> CHR ''>'' \<and> s ! 0 \<noteq> CHR ''|'' \<and>
                         s ! 0 \<noteq> cSQ \<and> s ! 0 \<noteq> cDQ \<and> s ! (length s - 1) \<noteq> cSP)
      in case analyzeLoop s 0 isPlain0 0 of (isPlain, newLineCount0) \<Rightarrow>
        (let isSingleQuote = (newLineCount0 = 0);
             newLineCount = (if \<not> isPlain \<and> newLineCount0 > 0
                             then trailingLoop s (int (length s) - 1) newLineCount0
                             else newLineCount0)
         in if isPlain \<and> newLineCount = 0 then Plain
            else if isSingleQuote then SingleQuote
            else if True \<or> newLineCount = 0 then DoubleQuote
            else Literal))"
    unfolding scalarStyle_def using len by (simp only: if_False Let_def)
  also have "\<dots> = (if (hd s \<noteq> cSP \<and> hd s \<noteq> CHR ''>'' \<and> hd s \<noteq> CHR ''|'' \<and> hd s \<noteq> cSQ \<and> hd s \<noteq> cDQ \<and>
          last s \<noteq> cSP \<and> hd s \<noteq> CHR ''#'' \<and> \<not> hasPair (CHR '':'') cSP s \<and>
          \<not> hasPair (CHR '':'') cCR s \<and> \<not> hasPair (CHR '':'') cLF s \<and>
          \<not> hasPair cSP (CHR ''#'') s) \<and> cLF \<notin> set s then Plain
      else if cLF \<notin> set s then SingleQuote else DoubleQuote)"
    unfolding Let_def[of "_ \<and> _"] analyze0[OF assms] prod.case style_pick hd0 lst n0
    by (simp only: conj_assoc)
  finally show ?thesis .
qed

text \<open>
  Claim C5, as amended. For a non-empty scalar without tab and carriage return that does
  not end with a colon, the emitter writes the plain style exactly when the string does not
  start with a space, \<open>>\<close>, \<open>|\<close>, a single or double quote or \<open>#\<close>, does not end with a
  space, contains no colon followed by a space, no \<open>#\<close> preceded by a space and no newline;
  otherwise it writes the single-quoted style when the string has no newline, and the
  double-quoted style when it has one.
\<close>

theorem scalarStyle_by_design:
  assumes "s \<noteq> []" and "cTAB \<notin> set s" and "cCR \<notin> set s" and "last s \<noteq> CHR '':''"
  shows "scalarStyle s =
           (if codePlain s then Plain else if cLF \<notin> set s then SingleQuote else DoubleQuote)"
proof -
  have cr: "\<not> hasPair (CHR '':'') cCR s"
  proof
    assume "hasPair (CHR '':'') cCR s"
    then obtain i where "i + 1 < length s" "s ! (i + 1) = cCR" unfolding hasPair_iff by blast
    then have "cCR \<in> set s" using nth_mem by metis
    with assms(3) show False by simp
  qed
  have lf: "cLF \<in> set s" if "hasPair (CHR '':'') cLF s"
  proof -
    from that obtain i where "i + 1 < length s" "s ! (i + 1) = cLF" unfolding hasPair_iff by blast
    then show ?thesis using nth_mem by metis
  qed
  have "codePlain s \<longleftrightarrow>
     (hd s \<noteq> cSP \<and> hd s \<noteq> CHR ''>'' \<and> hd s \<noteq> CHR ''|'' \<and> hd s \<noteq> cSQ \<and> hd s \<noteq> cDQ \<and>
          last s \<noteq> cSP \<and> hd s \<noteq> CHR ''#'' \<and> \<not> hasPair (CHR '':'') cSP s \<and>
          \<not> hasPair (CHR '':'') cCR s \<and> \<not> hasPair (CHR '':'') cLF s \<and>
          \<not> hasPair cSP (CHR ''#'') s) \<and> cLF \<notin> set s"
    unfolding codePlain_def using assms(1) cr lf by blast
  then show ?thesis
    unfolding scalarStyle_unfold[OF assms(1)] by simp
qed

theorem scalarStyle_by_design_witness:
  "scalarStyle ''a b'' = Plain \<and> scalarStyle ''a: b'' = SingleQuote \<and>
   scalarStyle [CHR ''a'', cLF, CHR ''b''] = DoubleQuote"
  using scalarStyle_by_design [of "''a b''"] scalarStyle_by_design [of "''a: b''"]
        scalarStyle_by_design [of "[CHR ''a'', cLF, CHR ''b'']"]
  by (simp add: codePlain_def)

text \<open>
  Claim C5 as stated fails: the string \<open>#a\<close> satisfies every condition of the stated rule
  for the plain style, and the emitter writes it single-quoted.
\<close>

theorem scalarStyle_counterexample:
  "specStyle ''#a'' = Plain \<and> scalarStyle ''#a'' = SingleQuote"
  by (simp add: specStyle_def specPlain_def scalarStyle_def analyzeLoop.simps)

section \<open>Proofs: the probe sequence\<close>

lemma tri_Suc: "tri (Suc n) = tri n + Suc n"
proof -
  have "even (n * (n + 1))" by simp
  then obtain m where m: "n * (n + 1) = 2 * m" by (elim evenE)
  have "Suc n * (Suc n + 1) = n * (n + 1) + 2 * Suc n" by simp
  then show ?thesis unfolding tri_def m by simp
qed

lemma tri_double: "2 * tri n = n * (n + 1)"
proof -
  have "even (n * (n + 1))" by simp
  then show ?thesis unfolding tri_def by simp
qed

lemma tri_mono: "i \<le> j \<Longrightarrow> tri i \<le> tri j"
  unfolding tri_def by (intro div_le_mono mult_le_mono) simp_all

lemma tri_diff:
  assumes "i \<le> j" shows "2 * (tri j - tri i) = (j - i) * (j + i + 1)"
proof -
  have "2 * (tri j - tri i) = j * (j + 1) - i * (i + 1)"
    by (simp add: diff_mult_distrib2 tri_double)
  also have "\<dots> = (j - i) * (j + i + 1)"
  proof -
    obtain d where d: "j = i + d" using assms le_Suc_ex by blast
    show ?thesis unfolding d by (simp add: algebra_simps)
  qed
  finally show ?thesis .
qed

lemma tri_inj_mod:
  assumes "i < j" "j < 2 ^ k"
  shows "tri i mod 2 ^ k \<noteq> tri j mod 2 ^ k"
proof
  assume eq: "tri i mod 2 ^ k = tri j mod 2 ^ k"
  have le: "tri i \<le> tri j" using assms(1) by (simp add: tri_mono)
  from eq have "(2::nat) ^ k dvd tri j - tri i"
    using le by (metis mod_eq_dvd_iff_nat)
  then have "2 * 2 ^ k dvd 2 * (tri j - tri i)" by simp
  then have dv: "(2::nat) ^ (k + 1) dvd (j - i) * (j + i + 1)"
    using tri_diff[of i j] assms(1) by simp
  have pos1: "0 < j - i" using assms by simp
  have lt1: "j - i < 2 ^ (k + 1)" using assms by simp
  have lt2: "j + i + 1 < 2 ^ (k + 1)" using assms by simp
  have "(j - i) + (j + i + 1) = 2 * j + 1" using assms(1) by simp
  then have "odd ((j - i) + (j + i + 1))" by simp
  then consider "odd (j - i)" | "odd (j + i + 1)" by (auto simp only: odd_add)
  then show False
  proof cases
    case 1
    then have "coprime ((2::nat) ^ (k + 1)) (j - i)" by simp
    with dv have "(2::nat) ^ (k + 1) dvd j + i + 1"
      by (metis coprime_dvd_mult_right_iff mult.commute)
    with lt2 show False by (auto dest: dvd_imp_le)
  next
    case 2
    then have "coprime ((2::nat) ^ (k + 1)) (j + i + 1)" by simp
    with dv have "(2::nat) ^ (k + 1) dvd j - i"
      by (metis coprime_dvd_mult_left_iff mult.commute)
    with lt1 pos1 show False by (auto dest: dvd_imp_le)
  qed
qed

lemma tri_surj_mod:
  assumes "b < 2 ^ k"
  shows "\<exists>n < 2 ^ k. tri n mod 2 ^ k = b"
proof -
  let ?f = "\<lambda>n. tri n mod (2::nat) ^ k"
  have inj: "inj_on ?f {..<2 ^ k}"
  proof (rule inj_onI)
    fix x y assume "x \<in> {..<(2::nat) ^ k}" "y \<in> {..<(2::nat) ^ k}" "?f x = ?f y"
    then show "x = y"
      using tri_inj_mod[of x y k] tri_inj_mod[of y x k] by (cases x y rule: linorder_cases) auto
  qed
  have sub: "?f ` {..<2 ^ k} \<subseteq> {..<2 ^ k}" by auto
  have "card (?f ` {..<2 ^ k}) = card {..<(2::nat) ^ k}" using inj by (rule card_image)
  then have "?f ` {..<2 ^ k} = {..<2 ^ k}"
    using sub by (intro card_subset_eq) auto
  with assms have "b \<in> ?f ` {..<2 ^ k}" by simp
  then show ?thesis by auto
qed

text \<open>Every line is visited within as many probes as the table has lines.\<close>

lemma lineAt_covers:
  assumes "l < 2 ^ k" "l0 < 2 ^ k"
  shows "\<exists>n < 2 ^ k. lineAt (2 ^ k) l0 n = l"
proof -
  let ?B = "(2::nat) ^ k"
  have "(l + ?B - l0) mod ?B < ?B" by simp
  then obtain n where n: "n < ?B" "tri n mod ?B = (l + ?B - l0) mod ?B"
    using tri_surj_mod by blast
  have "lineAt ?B l0 n = (l0 + tri n mod ?B) mod ?B"
    unfolding lineAt_def by (simp add: mod_add_right_eq)
  also have "\<dots> = (l0 + (l + ?B - l0)) mod ?B"
    unfolding n(2) by (simp add: mod_add_right_eq)
  also have "\<dots> = (l + ?B) mod ?B" using assms by simp
  also have "\<dots> = l" using assms by simp
  finally show ?thesis using n(1) by blast
qed

lemma lineAt_Suc: "lineAt B l0 (Suc n) = (lineAt B l0 n + Suc n) mod B"
  unfolding lineAt_def tri_Suc by (metis add.assoc mod_add_left_eq)

lemma lineAt_0: "l0 < B \<Longrightarrow> lineAt B l0 0 = l0"
  unfolding lineAt_def tri_def by simp

lemma lineAt_less: "0 < B \<Longrightarrow> lineAt B l0 n < B"
  unfolding lineAt_def by simp

subsection \<open>The mask\<close>

lemma tableMask_pow2:
  assumes "3 \<le> m" "m \<le> 31"
  shows "tableMask (2 ^ m) = mask m AND NOT (mask 3)"
proof -
  have a: "(word_of_nat (2 ^ m) - 1 :: 32 word) = mask m"
    by (simp add: mask_eq_exp_minus_1)
  have b: "(word_of_nat KeyDirAssocQty - 1 :: 32 word) = mask 3"
    by (simp add: mask_eq_exp_minus_1 KeyDirAssocQty_def)
  show ?thesis unfolding tableMask_def a b ..
qed

lemma and_tableMask:
  fixes x :: "32 word"
  assumes "3 \<le> m" "m \<le> 31"
  shows "x AND tableMask (2 ^ m) = push_bit 3 (drop_bit 3 (take_bit m x))"
  unfolding tableMask_pow2[OF assms]
  using assms by (intro bit_eqI) (auto simp: bit_simps)

lemma unat_and_tableMask:
  fixes x :: "32 word"
  assumes "3 \<le> m" "m \<le> 31"
  shows "unat (x AND tableMask (2 ^ m)) = 8 * ((unat x mod 2 ^ m) div 8)"
proof -
  have "push_bit 3 (drop_bit 3 (take_bit m (unat x))) \<le> take_bit m (unat x)"
    by (simp add: push_bit_eq_mult drop_bit_eq_div)
  also have "\<dots> < 2 ^ m" by simp
  also have "(2::nat) ^ m \<le> 2 ^ 32" using assms by (intro power_increasing) simp_all
  finally have small: "push_bit 3 (drop_bit 3 (take_bit m (unat x))) < 2 ^ 32" .
  have mn: "min 32 m = m" using assms by simp
  have "unat (push_bit 3 (drop_bit 3 (take_bit m x))) =
        take_bit 32 (push_bit 3 (drop_bit 3 (take_bit m (unat x))))"
    by (simp add: unsigned_push_bit_eq unsigned_drop_bit_eq unsigned_take_bit_eq mn)
  also have "\<dots> = push_bit 3 (drop_bit 3 (take_bit m (unat x)))"
    using small by (rule take_bit_nat_eq_self)
  finally show ?thesis
    unfolding and_tableMask[OF assms]
    by (simp add: push_bit_eq_mult drop_bit_eq_div take_bit_eq_mod)
qed

text \<open>One move of the probe loop, on line numbers.\<close>

lemma probe_step:
  fixes p :: "32 word"
  assumes m: "3 \<le> m" "m \<le> 31" and l: "l < 2 ^ (m - 3)"
  shows "unat ((word_of_nat (8 * l) + p * word_of_nat KeyDirAssocQty) AND tableMask (2 ^ m)) =
         8 * ((l + unat p) mod 2 ^ (m - 3))"
proof -
  have pw: "(2::nat) ^ m = 8 * 2 ^ (m - 3)"
  proof -
    have "(2::nat) ^ m = 2 ^ (3 + (m - 3))" using m by simp
    then show ?thesis by (simp only: power_add) simp
  qed
  have dvd32: "(2::nat) ^ m dvd 2 ^ 32" using m by (intro le_imp_power_dvd) simp
  let ?x = "word_of_nat (8 * l) + p * word_of_nat KeyDirAssocQty :: 32 word"
  have "unat ?x = (8 * l + unat p * 8) mod 2 ^ 32"
  proof -
    have "?x = word_of_nat (8 * l + unat p * 8)"
      by (simp add: KeyDirAssocQty_def)
    then show ?thesis by (simp only: unat_of_nat) simp
  qed
  then have "unat ?x mod 2 ^ m = (8 * l + unat p * 8) mod 2 ^ m"
    using dvd32 by (simp add: mod_mod_cancel)
  also have "\<dots> = (8 * (l + unat p)) mod (8 * 2 ^ (m - 3))"
    unfolding pw by (simp add: algebra_simps)
  also have "\<dots> = 8 * ((l + unat p) mod 2 ^ (m - 3))"
    by (simp only: mult_mod_right)
  finally show ?thesis
    unfolding unat_and_tableMask[OF m] by simp
qed

lemma pow2_split: "3 \<le> m \<Longrightarrow> (2::nat) ^ m = 8 * 2 ^ (m - 3)"
proof -
  assume "3 \<le> m"
  then have "(2::nat) ^ m = 2 ^ (3 + (m - 3))" by simp
  then show ?thesis by (simp only: power_add) simp
qed

lemma unat_of_nat32: "n < 2 ^ 32 \<Longrightarrow> unat (word_of_nat n :: 32 word) = n"
  by (simp add: unat_of_nat)

subsection \<open>The scan of one line\<close>

lemma scanLine_Found:
  "scanLine thr mt es idx c = Found c' \<Longrightarrow>
     c \<le> c' \<and> c' < KeyDirAssocQty \<and> mt (es ! (idx + c')) \<and> hash (es ! (idx + c')) \<ge> thr"
proof (induction thr mt es idx c rule: scanLine.induct)
  case (1 threshold matches es idx cellId)
  show ?case
  proof (cases "cellId < KeyDirAssocQty \<and> hash (es ! (idx + cellId)) \<ge> threshold")
    case True
    note T = True
    show ?thesis
    proof (cases "matches (es ! (idx + cellId))")
      case True
      with T "1.prems" show ?thesis by (simp add: scanLine.simps[of threshold matches es idx cellId])
    next
      case False
      with T "1.prems" have "scanLine threshold matches es idx (cellId + 1) = Found c'"
        by (simp add: scanLine.simps[of threshold matches es idx cellId])
      from "1.IH"[OF T False this] show ?thesis by simp
    qed
  next
    case False
    with "1.prems" show ?thesis
      by (simp add: scanLine.simps[of threshold matches es idx cellId] split: if_splits)
  qed
qed

lemma scanLine_Stopped:
  "scanLine thr mt es idx c = Stopped c' \<Longrightarrow>
     c \<le> c' \<and> c' < KeyDirAssocQty \<and> hash (es ! (idx + c')) < thr \<and>
     (\<forall>d. c \<le> d \<and> d < c' \<longrightarrow> hash (es ! (idx + d)) \<ge> thr \<and> \<not> mt (es ! (idx + d)))"
proof (induction thr mt es idx c rule: scanLine.induct)
  case (1 threshold matches es idx cellId)
  show ?case
  proof (cases "cellId < KeyDirAssocQty \<and> hash (es ! (idx + cellId)) \<ge> threshold")
    case True
    note T = True
    show ?thesis
    proof (cases "matches (es ! (idx + cellId))")
      case True
      with T "1.prems" show ?thesis by (simp add: scanLine.simps[of threshold matches es idx cellId])
    next
      case False
      with T "1.prems" have "scanLine threshold matches es idx (cellId + 1) = Stopped c'"
        by (simp add: scanLine.simps[of threshold matches es idx cellId])
      from "1.IH"[OF T False this]
      have ih: "cellId + 1 \<le> c'" "c' < KeyDirAssocQty" "hash (es ! (idx + c')) < threshold"
        "\<forall>d. cellId + 1 \<le> d \<and> d < c' \<longrightarrow> hash (es ! (idx + d)) \<ge> threshold \<and> \<not> matches (es ! (idx + d))"
        by simp_all
      have "hash (es ! (idx + d)) \<ge> threshold \<and> \<not> matches (es ! (idx + d))" if "cellId \<le> d" "d < c'" for d
      proof (cases "d = cellId")
        case True
        with T False show ?thesis by simp
      next
        case False
        with that have "cellId + 1 \<le> d" by simp
        with ih(4) that show ?thesis by blast
      qed
      with ih show ?thesis by simp
    qed
  next
    case False
    with "1.prems" show ?thesis
      by (auto simp add: scanLine.simps[of threshold matches es idx cellId] split: if_splits)
  qed
qed

lemma scanLine_not_full:
  "c \<le> c' \<Longrightarrow> c' < KeyDirAssocQty \<Longrightarrow> hash (es ! (idx + c')) < thr \<Longrightarrow>
   scanLine thr mt es idx c \<noteq> LineFull"
proof (induction thr mt es idx c rule: scanLine.induct)
  case (1 threshold matches es idx cellId)
  show ?case
  proof (cases "cellId < KeyDirAssocQty \<and> hash (es ! (idx + cellId)) \<ge> threshold")
    case True
    note T = True
    show ?thesis
    proof (cases "matches (es ! (idx + cellId))")
      case True
      with T show ?thesis by (simp add: scanLine.simps[of threshold matches es idx cellId])
    next
      case False
      have "cellId \<noteq> c'" using T "1.prems"(3) by auto
      with "1.prems" have "cellId + 1 \<le> c'" by simp
      from "1.IH"[OF T False this "1.prems"(2,3)] T False show ?thesis
        by (simp add: scanLine.simps[of threshold matches es idx cellId])
    qed
  next
    case False
    with "1.prems" show ?thesis
      by (auto simp add: scanLine.simps[of threshold matches es idx cellId])
  qed
qed

subsection \<open>Termination of the probe loop\<close>

lemma probe_run:
  fixes scan :: "nat \<Rightarrow> LineScan"
  assumes m: "3 \<le> m" "m \<le> 31" and l0: "l0 < 2 ^ (m - 3)"
    and full: "\<forall>j < n. scan (8 * lineAt (2 ^ (m - 3)) l0 j) = LineFull"
    and stop: "scan (8 * lineAt (2 ^ (m - 3)) l0 n) \<noteq> LineFull"
    and n: "n < 2 ^ (m - 3)"
    and k: "k \<le> n"
  shows "probe scan (tableMask (2 ^ m)) (word_of_nat (8 * lineAt (2 ^ (m - 3)) l0 k)) (word_of_nat (k + 1)) =
         Some (8 * lineAt (2 ^ (m - 3)) l0 n, scan (8 * lineAt (2 ^ (m - 3)) l0 n))"
  using k
proof (induction "n - k" arbitrary: k)
  case 0
  then have kn: "k = n" by simp
  let ?B = "(2::nat) ^ (m - 3)"
  have lt: "8 * lineAt ?B l0 n < 2 ^ 32"
  proof -
    have "lineAt ?B l0 n < ?B" by (simp add: lineAt_less)
    then have "8 * lineAt ?B l0 n < 2 ^ 3 * ?B" by simp
    also have "\<dots> = 2 ^ m" using pow2_split[OF m(1)] by simp
    also have "\<dots> \<le> (2::nat) ^ 32" using m by (intro power_increasing) simp_all
    finally show ?thesis .
  qed
  have u: "unat (word_of_nat (8 * lineAt ?B l0 n) :: 32 word) = 8 * lineAt ?B l0 n"
    using lt by (rule unat_of_nat32)
  show ?case
    unfolding kn
    apply (subst probe.simps)
    using stop by (simp only: u split: LineScan.splits) simp
next
  case (Suc d)
  let ?B = "(2::nat) ^ (m - 3)"
  have kn: "k < n" using Suc by simp
  have lt: "8 * lineAt ?B l0 k < 2 ^ 32"
  proof -
    have "lineAt ?B l0 k < ?B" by (simp add: lineAt_less)
    then have "8 * lineAt ?B l0 k < 2 ^ 3 * ?B" by simp
    also have "\<dots> = 2 ^ m" using pow2_split[OF m(1)] by simp
    also have "\<dots> \<le> (2::nat) ^ 32" using m by (intro power_increasing) simp_all
    finally show ?thesis .
  qed
  have u: "unat (word_of_nat (8 * lineAt ?B l0 k) :: 32 word) = 8 * lineAt ?B l0 k"
    using lt by (rule unat_of_nat32)
  have fullk: "scan (8 * lineAt ?B l0 k) = LineFull" using full kn by blast
  have k32: "k + 1 < 2 ^ 32"
  proof -
    have "k + 1 \<le> n" using kn by simp
    also have "n < ?B" by (rule n)
    also have "?B \<le> 2 ^ 32" using m by (intro power_increasing) simp_all
    finally show ?thesis .
  qed
  have up: "unat (word_of_nat (k + 1) :: 32 word) = k + 1"
    using k32 by (rule unat_of_nat32)
  have lk: "lineAt ?B l0 k < ?B" by (simp add: lineAt_less)
  have nxt: "(word_of_nat (8 * lineAt ?B l0 k) + word_of_nat (k + 1) * word_of_nat KeyDirAssocQty) AND tableMask (2 ^ m)
             = (word_of_nat (8 * lineAt ?B l0 (Suc k)) :: 32 word)"
  proof -
    have "unat ((word_of_nat (8 * lineAt ?B l0 k) + word_of_nat (k + 1) * word_of_nat KeyDirAssocQty) AND tableMask (2 ^ m) :: 32 word)
          = 8 * ((lineAt ?B l0 k + (k + 1)) mod ?B)"
      using probe_step[OF m lk, of "word_of_nat (k + 1)"] unfolding up .
    also have "\<dots> = 8 * lineAt ?B l0 (Suc k)" by (simp add: lineAt_Suc)
    finally show ?thesis by (metis of_nat_unat ucast_id)
  qed
  have ih: "probe scan (tableMask (2 ^ m)) (word_of_nat (8 * lineAt ?B l0 (Suc k))) (word_of_nat (Suc k + 1)) =
         Some (8 * lineAt ?B l0 n, scan (8 * lineAt ?B l0 n))"
    using Suc by (intro Suc.hyps(1)) simp_all
  have inc: "(word_of_nat (k + 1) + 1 :: 32 word) = word_of_nat (Suc k + 1)" by simp
  show ?case
    apply (subst probe.simps)
    apply (simp only: u fullk LineScan.case nxt inc)
    apply (rule ih)
    done
qed

lemma probe_terminates:
  fixes scan :: "nat \<Rightarrow> LineScan"
  assumes m: "3 \<le> m" "m \<le> 31"
    and ex: "\<exists>l < 2 ^ (m - 3). scan (8 * l) \<noteq> LineFull"
  shows "\<exists>l < 2 ^ (m - 3). probe scan (tableMask (2 ^ m)) (h AND tableMask (2 ^ m)) 1 = Some (8 * l, scan (8 * l)) \<and>
            scan (8 * l) \<noteq> LineFull"
proof -
  let ?B = "(2::nat) ^ (m - 3)"
  define l0 where "l0 = (unat h mod 2 ^ m) div 8"
  have pw: "(2::nat) ^ m = 8 * ?B" by (rule pow2_split[OF m(1)])
  have l0: "l0 < ?B"
  proof -
    have "unat h mod 2 ^ m < 8 * ?B" unfolding pw[symmetric] by simp
    then show ?thesis unfolding l0_def by (simp add: less_mult_imp_div_less mult.commute)
  qed
  have start: "h AND tableMask (2 ^ m) = word_of_nat (8 * lineAt ?B l0 0)"
  proof -
    have "unat (h AND tableMask (2 ^ m)) = 8 * l0"
      unfolding unat_and_tableMask[OF m] l0_def ..
    then show ?thesis using lineAt_0[OF l0] by (metis of_nat_unat ucast_id)
  qed
  from ex obtain l where l: "l < ?B" "scan (8 * l) \<noteq> LineFull" by blast
  obtain j where j: "j < ?B" "lineAt ?B l0 j = l" using lineAt_covers[OF l(1) l0] by blast
  define n where "n = (LEAST j. scan (8 * lineAt ?B l0 j) \<noteq> LineFull)"
  have nstop: "scan (8 * lineAt ?B l0 n) \<noteq> LineFull"
    unfolding n_def using l(2) j(2) by (metis (mono_tags, lifting) LeastI)
  have nle: "n \<le> j" unfolding n_def using l(2) j(2) by (simp add: Least_le)
  have nfull: "\<forall>i < n. scan (8 * lineAt ?B l0 i) = LineFull"
    unfolding n_def using not_less_Least by blast
  have nB: "n < ?B" using nle j(1) by simp
  have "probe scan (tableMask (2 ^ m)) (word_of_nat (8 * lineAt ?B l0 0)) (word_of_nat (0 + 1)) =
         Some (8 * lineAt ?B l0 n, scan (8 * lineAt ?B l0 n))"
    by (rule probe_run[OF m l0 nfull nstop nB]) simp
  then have "probe scan (tableMask (2 ^ m)) (h AND tableMask (2 ^ m)) 1 =
         Some (8 * lineAt ?B l0 n, scan (8 * lineAt ?B l0 n))"
    unfolding start by simp
  moreover have "lineAt ?B l0 n < ?B" by (simp add: lineAt_less)
  ultimately show ?thesis using nstop by blast
qed

subsection \<open>Cells of a table\<close>

lemma filter_update_length:
  "i < length xs \<Longrightarrow>
   length (filter P (xs[i := x])) + (if P (xs ! i) then 1 else 0) =
   length (filter P xs) + (if P x then 1 else 0)"
proof (induction xs arbitrary: i)
  case Nil
  then show ?case by simp
next
  case (Cons a xs)
  show ?case
  proof (cases i)
    case 0
    then show ?thesis by simp
  next
    case (Suc j)
    with Cons.prems have "j < length xs" by simp
    from Cons.IH[OF this] Suc show ?thesis by simp
  qed
qed

lemma filter_less_ex:
  "length (filter P xs) < length xs \<Longrightarrow> \<exists>i < length xs. \<not> P (xs ! i)"
proof -
  assume "length (filter P xs) < length xs"
  then have "filter P xs \<noteq> xs" by auto
  then obtain x where "x \<in> set xs" "\<not> P x" by (auto simp: filter_id_conv)
  then show ?thesis by (auto simp: in_set_conv_nth)
qed

lemma liveCells_le_usedCells: "liveCells es \<le> usedCells es"
proof -
  have "filter (\<lambda>e. hash e \<ge> FirstValid) es = filter (\<lambda>e. hash e \<ge> FirstValid) (filter (\<lambda>e. hash e \<noteq> Empty) es)"
    by (auto simp: FirstValid_def Empty_def intro!: filter_cong)
  then show ?thesis
    unfolding liveCells_def usedCells_def by (metis length_filter_le)
qed

lemma empty_cell_exists:
  "usedCells es < length es \<Longrightarrow> \<exists>i < length es. hash (es ! i) = Empty"
  unfolding usedCells_def using filter_less_ex[of "\<lambda>e. hash e \<noteq> Empty" es] by simp

lemma free_cell_exists:
  "liveCells es < length es \<Longrightarrow> \<exists>i < length es. hash (es ! i) < FirstValid"
  unfolding liveCells_def using filter_less_ex[of "\<lambda>e. hash e \<ge> FirstValid" es] by (simp add: not_le)

lemma line_not_full:
  assumes m: "3 \<le> m" and len: "length es = 2 ^ m" and i: "i < length es" and h: "hash (es ! i) < thr"
  shows "\<exists>l < 2 ^ (m - 3). scanLine thr mt es (8 * l) 0 \<noteq> LineFull"
proof -
  have "i < 8 * 2 ^ (m - 3)" using i len pow2_split[OF m] by simp
  then have l: "i div 8 < 2 ^ (m - 3)" by (simp add: less_mult_imp_div_less mult.commute)
  have c: "i mod 8 < KeyDirAssocQty" by (simp add: KeyDirAssocQty_def)
  have "hash (es ! (8 * (i div 8) + i mod 8)) < thr" using h by simp
  then have "scanLine thr mt es (8 * (i div 8)) 0 \<noteq> LineFull"
    using c by (intro scanLine_not_full[where c' = "i mod 8"]) simp_all
  with l show ?thesis by blast
qed

subsection \<open>The search ends\<close>

lemma findCell_total:
  assumes m: "3 \<le> m" "m \<le> 31" and cap: "maxEntryQty ctx = 2 ^ m" and len: "length (entries ctx) = 2 ^ m"
    and free: "\<exists>i < length (entries ctx). hash (entries ctx ! i) < thr"
  shows "\<exists>l r. findCell thr ctx P key elt = Some (8 * l, r) \<and> l < 2 ^ (m - 3) \<and> r \<noteq> LineFull \<and>
           r = scanLine thr (cellMatches ctx elt key (keyHashOf P key)) (entries ctx) (8 * l) 0"
proof -
  let ?scan = "\<lambda>idx. scanLine thr (cellMatches ctx elt key (keyHashOf P key)) (entries ctx) idx 0"
  from free obtain i where i: "i < length (entries ctx)" "hash (entries ctx ! i) < thr" by blast
  have ex: "\<exists>l < 2 ^ (m - 3). ?scan (8 * l) \<noteq> LineFull"
    using line_not_full[OF m(1) len i] by blast
  from probe_terminates[OF m, of ?scan "keyHashOf P key", OF ex]
  obtain l where "l < 2 ^ (m - 3)"
    "probe ?scan (tableMask (2 ^ m)) (keyHashOf P key AND tableMask (2 ^ m)) 1 = Some (8 * l, ?scan (8 * l))"
    "?scan (8 * l) \<noteq> LineFull" by blast
  then show ?thesis
    unfolding findCell_def Let_def cap by blast
qed

lemma line_in_table:
  assumes "3 \<le> m" "l < 2 ^ (m - 3)" "c < (8::nat)"
  shows "8 * l + c < 2 ^ m"
proof -
  have "8 * l + c < 8 * (l + 1)" using assms(3) by simp
  also have "\<dots> \<le> 8 * 2 ^ (m - 3)" using assms(2) by (intro mult_le_mono2) simp
  finally show ?thesis using pow2_split[OF assms(1)] by simp
qed

subsection \<open>Reserved hash values\<close>

lemma lt_FirstValid: "h < FirstValid \<longleftrightarrow> h = Empty \<or> h = Tombstone"
  unfolding FirstValid_def Empty_def Tombstone_def by unat_arith

lemma ge_FirstValid: "h \<ge> FirstValid \<longleftrightarrow> h \<noteq> Empty \<and> h \<noteq> Tombstone"
  unfolding FirstValid_def Empty_def Tombstone_def by unat_arith

lemma lt_Tombstone: "h < Tombstone \<longleftrightarrow> h = Empty"
  unfolding Empty_def Tombstone_def by unat_arith

lemma ge_Tombstone: "h \<ge> Tombstone \<longleftrightarrow> h \<noteq> Empty"
  unfolding Empty_def Tombstone_def by unat_arith

lemma word_cmp:
  "\<not> (2::u32) \<le> 1" "\<not> (2::u32) \<le> 0" "\<not> (1::u32) \<le> 0"
  by unat_arith+

subsection \<open>Resizing\<close>

lemma liveCells_update:
  assumes "i < length es" "hash (es ! i) < FirstValid" "hash e \<ge> FirstValid"
  shows "liveCells (es[i := e]) = liveCells es + 1"
  using filter_update_length[OF assms(1), of "\<lambda>e. hash e \<ge> FirstValid" e] assms(2,3)
  unfolding liveCells_def by (simp add: not_le[symmetric])

lemma transferEntry_ok:
  assumes m: "3 \<le> m" "m \<le> 31" and len: "length arr = 2 ^ m"
    and room: "liveCells arr < length arr" and live: "hash e \<ge> FirstValid"
  shows "\<exists>arr'. transferEntry (tableMask (2 ^ m)) e arr = Some arr' \<and> length arr' = length arr \<and>
           liveCells arr' = liveCells arr + 1 \<and>
           ((\<forall>x \<in> set arr. hash x \<noteq> Tombstone) \<longrightarrow> (\<forall>x \<in> set arr'. hash x \<noteq> Tombstone))"
proof -
  let ?scan = "\<lambda>idx. scanLine FirstValid (\<lambda>_. False) arr idx 0"
  obtain i where i: "i < length arr" "hash (arr ! i) < FirstValid"
    using free_cell_exists[OF room] by blast
  have ex: "\<exists>l < 2 ^ (m - 3). ?scan (8 * l) \<noteq> LineFull"
    using line_not_full[OF m(1) len i] by blast
  from probe_terminates[OF m, of ?scan "hash e", OF ex]
  obtain l where l: "l < 2 ^ (m - 3)"
    "probe ?scan (tableMask (2 ^ m)) (hash e AND tableMask (2 ^ m)) 1 = Some (8 * l, ?scan (8 * l))"
    "?scan (8 * l) \<noteq> LineFull" by blast
  have "\<exists>c. ?scan (8 * l) = Stopped c"
  proof (cases "?scan (8 * l)")
    case (Found c)
    from scanLine_Found[OF this] show ?thesis by simp
  next
    case (Stopped c)
    then show ?thesis by blast
  next
    case LineFull
    with l(3) show ?thesis by simp
  qed
  then obtain c where c: "?scan (8 * l) = Stopped c" by blast
  from scanLine_Stopped[OF c] have c8: "c < 8" and hc: "hash (arr ! (8 * l + c)) < FirstValid"
    by (simp_all add: KeyDirAssocQty_def)
  have inb: "8 * l + c < length arr" using line_in_table[OF m(1) l(1) c8] len by simp
  have res: "transferEntry (tableMask (2 ^ m)) e arr = Some (arr[8 * l + c := e])"
    unfolding transferEntry_def l(2) c by simp
  have nt: "hash e \<noteq> Tombstone" using live by (simp add: ge_FirstValid)
  have "(\<forall>x \<in> set arr. hash x \<noteq> Tombstone) \<longrightarrow> (\<forall>x \<in> set (arr[8 * l + c := e]). hash x \<noteq> Tombstone)"
  proof (intro impI ballI)
    fix x assume a: "\<forall>x \<in> set arr. hash x \<noteq> Tombstone" and x: "x \<in> set (arr[8 * l + c := e])"
    from x have "x = e \<or> x \<in> set arr" using set_update_subset_insert[of arr "8 * l + c" e] by blast
    with a nt show "hash x \<noteq> Tombstone" by blast
  qed
  then show ?thesis
    using res liveCells_update[OF inb hc live] by simp
qed

lemma transferAll_ok:
  assumes m: "3 \<le> m" "m \<le> 31"
  shows "length arr = 2 ^ m \<Longrightarrow> liveCells arr + liveCells old < 2 ^ m \<Longrightarrow>
         \<exists>arr'. transferAll (tableMask (2 ^ m)) old arr = Some arr' \<and> length arr' = 2 ^ m \<and>
           liveCells arr' = liveCells arr + liveCells old \<and>
           ((\<forall>x \<in> set arr. hash x \<noteq> Tombstone) \<longrightarrow> (\<forall>x \<in> set arr'. hash x \<noteq> Tombstone))"
proof (induction old arbitrary: arr)
  case Nil
  then show ?case by (simp add: liveCells_def)
next
  case (Cons e old)
  show ?case
  proof (cases "hash e < FirstValid")
    case True
    then have lc: "liveCells (e # old) = liveCells old" by (simp add: liveCells_def not_le[symmetric])
    from Cons.IH[OF Cons.prems(1)] Cons.prems(2) lc True show ?thesis by simp
  next
    case False
    then have live: "hash e \<ge> FirstValid" by simp
    then have lc: "liveCells (e # old) = liveCells old + 1" by (simp add: liveCells_def)
    have room: "liveCells arr < length arr" using Cons.prems lc by simp
    from transferEntry_ok[OF m Cons.prems(1) room live]
    obtain arr1 where a1: "transferEntry (tableMask (2 ^ m)) e arr = Some arr1" "length arr1 = length arr"
      "liveCells arr1 = liveCells arr + 1"
      "(\<forall>x \<in> set arr. hash x \<noteq> Tombstone) \<longrightarrow> (\<forall>x \<in> set arr1. hash x \<noteq> Tombstone)" by blast
    have l1: "length arr1 = 2 ^ m" using a1(2) Cons.prems(1) by simp
    have r1: "liveCells arr1 + liveCells old < 2 ^ m" using a1(3) Cons.prems(2) lc by simp
    from Cons.IH[OF l1 r1] obtain arr' where a': "transferAll (tableMask (2 ^ m)) old arr1 = Some arr'"
      "length arr' = 2 ^ m" "liveCells arr' = liveCells arr1 + liveCells old"
      "(\<forall>x \<in> set arr1. hash x \<noteq> Tombstone) \<longrightarrow> (\<forall>x \<in> set arr'. hash x \<noteq> Tombstone)" by blast
    have "transferAll (tableMask (2 ^ m)) (e # old) arr = Some arr'"
      using False a1(1) a'(1) by simp
    moreover have "liveCells arr' = liveCells arr + liveCells (e # old)" using a'(3) a1(3) lc by simp
    moreover have "(\<forall>x \<in> set arr. hash x \<noteq> Tombstone) \<longrightarrow> (\<forall>x \<in> set arr'. hash x \<noteq> Tombstone)"
      using a1(4) a'(4) by blast
    ultimately show ?thesis using a'(2) by blast
  qed
qed

lemma usedCells_no_tombstone:
  "\<forall>x \<in> set es. hash x \<noteq> Tombstone \<Longrightarrow> usedCells es = liveCells es"
proof -
  assume nt: "\<forall>x \<in> set es. hash x \<noteq> Tombstone"
  have "hash x \<noteq> Empty \<longleftrightarrow> hash x \<ge> FirstValid" if "x \<in> set es" for x
    using nt that by (auto simp: ge_FirstValid)
  then have "filter (\<lambda>e. hash e \<noteq> Empty) es = filter (\<lambda>e. hash e \<ge> FirstValid) es"
    by (intro filter_cong refl)
  then show ?thesis unfolding usedCells_def liveCells_def by simp
qed

lemma replicate_cells:
  "liveCells (replicate n emptyEntry) = 0" "\<forall>x \<in> set (replicate n emptyEntry). hash x \<noteq> Tombstone"
  by (simp_all add: liveCells_def emptyEntry_def FirstValid_def Tombstone_def)

lemma resize_ok:
  assumes m: "3 \<le> m" "m \<le> 31" and room: "liveCells (take (maxEntryQty ctx) (entries ctx)) < 2 ^ m"
  shows "\<exists>arr. resize (2 ^ m) ctx = Some (ctx\<lparr>entries := arr, maxEntryQty := 2 ^ m\<rparr>) \<and>
           length arr = 2 ^ m \<and> liveCells arr = liveCells (take (maxEntryQty ctx) (entries ctx)) \<and>
           usedCells arr = liveCells arr"
proof -
  have len: "length (replicate (2 ^ m) emptyEntry) = 2 ^ m" by simp
  have r: "liveCells (replicate (2 ^ m) emptyEntry) + liveCells (take (maxEntryQty ctx) (entries ctx)) < 2 ^ m"
    using room by (simp add: replicate_cells(1))
  from transferAll_ok[OF m len r]
  obtain arr where arr: "transferAll (tableMask (2 ^ m)) (take (maxEntryQty ctx) (entries ctx))
       (replicate (2 ^ m) emptyEntry) = Some arr" "length arr = 2 ^ m"
     "liveCells arr = liveCells (replicate (2 ^ m) emptyEntry) + liveCells (take (maxEntryQty ctx) (entries ctx))"
     "\<forall>x \<in> set arr. hash x \<noteq> Tombstone"
    using replicate_cells(2) by blast
  have "resize (2 ^ m) ctx = Some (ctx\<lparr>entries := arr, maxEntryQty := 2 ^ m\<rparr>)"
    unfolding resize_def arr(1) by simp
  moreover have "liveCells arr = liveCells (take (maxEntryQty ctx) (entries ctx))"
    using arr(3) by (simp add: replicate_cells(1))
  ultimately show ?thesis
    using arr(2) usedCells_no_tombstone[OF arr(4)] by (intro exI[of _ arr]) simp
qed

lemma newContext_ok:
  "\<exists>ctx0. newContext = Some ctx0 \<and> maxEntryQty ctx0 = 16 \<and> entryQty ctx0 = 0 \<and> indexOk ctx0 \<and>
      elements ctx0 = [] \<and> arena ctx0 = []"
proof -
  let ?c = "\<lparr>elements = [], arena = [], sessionStartIdx = 0, entries = [], entryQty = 0, maxEntryQty = 0\<rparr>"
  have "liveCells (take (maxEntryQty ?c) (entries ?c)) < 2 ^ 4" by (simp add: liveCells_def)
  from resize_ok[of 4 ?c, OF _ _ this]
  obtain arr where arr: "resize (2 ^ 4) ?c = Some (?c\<lparr>entries := arr, maxEntryQty := 2 ^ 4\<rparr>)"
    "length arr = 2 ^ 4" "liveCells arr = liveCells (take (maxEntryQty ?c) (entries ?c))" "usedCells arr = liveCells arr"
    by auto
  have u: "usedCells arr = 0" using arr(3,4) by (simp add: liveCells_def)
  have sh: "tableShape arr 16"
    unfolding tableShape_def using arr(2) by (auto intro!: image_eqI[where x = 4])
  have "newContext = Some (?c\<lparr>entries := arr, maxEntryQty := 16\<rparr>)"
    using arr(1) unfolding newContext_def InitMapSize_def by simp
  then show ?thesis using u sh
    by (intro exI[of _ "?c\<lparr>entries := arr, maxEntryQty := 16\<rparr>"]) (simp add: indexOk_def maxLoad128th_def)
qed

lemma tableShapeD:
  assumes "tableShape es cap"
  obtains m where "4 \<le> m" "m \<le> 31" "cap = 2 ^ m" "length es = 2 ^ m"
  using assms unfolding tableShape_def by auto

lemma indexOk_empty_cell:
  assumes "indexOk ctx"
  shows "\<exists>i < length (entries ctx). hash (entries ctx ! i) = Empty"
proof -
  from assms obtain m where m: "maxEntryQty ctx = 2 ^ m" "length (entries ctx) = 2 ^ m"
    unfolding indexOk_def by (auto elim: tableShapeD)
  have "128 * entryQty ctx \<le> 115 * maxEntryQty ctx" using assms by (simp add: indexOk_def maxLoad128th_def)
  moreover have "0 < maxEntryQty ctx" using m by simp
  ultimately have "entryQty ctx < maxEntryQty ctx" by linarith
  then have "usedCells (entries ctx) < length (entries ctx)"
    using assms m by (simp add: indexOk_def)
  then show ?thesis by (rule empty_cell_exists)
qed

lemma keyHashOf_valid: "keyHashOf P key \<ge> FirstValid"
proof -
  have "h + FirstValid \<ge> FirstValid" if "h < FirstValid" for h :: u32
  proof -
    from that have "h = 0 \<or> h = 1" by (simp add: lt_FirstValid Empty_def Tombstone_def)
    then show ?thesis by (auto simp: FirstValid_def)
  qed
  then show ?thesis unfolding keyHashOf_def Let_def by (simp add: not_less)
qed

lemma usedCells_update_same:
  assumes "i < length es" "hash e \<noteq> Empty \<longleftrightarrow> hash (es ! i) \<noteq> Empty"
  shows "usedCells (es[i := e]) = usedCells es"
  using filter_update_length[OF assms(1), of "\<lambda>e. hash e \<noteq> Empty" e] assms(2)
  unfolding usedCells_def by (simp split: if_splits)

lemma usedCells_update_le:
  assumes "i < length es"
  shows "usedCells (es[i := e]) \<le> usedCells es + 1"
  using filter_update_length[OF assms(1), of "\<lambda>e. hash e \<noteq> Empty" e]
  unfolding usedCells_def by (simp split: if_splits)

text \<open>The outcome of a search in a well-formed index.\<close>

lemma findCell_indexOk:
  assumes ok: "indexOk ctx" and thr: "thr = Tombstone \<or> thr = FirstValid"
  shows "\<exists>l r. findCell thr ctx P key elt = Some (8 * l, r) \<and> r \<noteq> LineFull \<and>
           r = scanLine thr (cellMatches ctx elt key (keyHashOf P key)) (entries ctx) (8 * l) 0 \<and>
           (\<forall>c < 8. 8 * l + c < length (entries ctx))"
proof -
  from ok obtain m where m: "4 \<le> m" "m \<le> 31" "maxEntryQty ctx = 2 ^ m" "length (entries ctx) = 2 ^ m"
    unfolding indexOk_def by (auto elim: tableShapeD)
  have m3: "3 \<le> m" using m(1) by simp
  obtain i where i: "i < length (entries ctx)" "hash (entries ctx ! i) = Empty"
    using indexOk_empty_cell[OF ok] by blast
  have "hash (entries ctx ! i) < thr" using i(2) thr by (auto simp: lt_Tombstone lt_FirstValid)
  with i(1) have free: "\<exists>i < length (entries ctx). hash (entries ctx ! i) < thr" by blast
  from findCell_total[OF m3 m(2) m(3) m(4) free, of P key elt]
  obtain l r where lr: "findCell thr ctx P key elt = Some (8 * l, r)" "l < 2 ^ (m - 3)" "r \<noteq> LineFull"
    "r = scanLine thr (cellMatches ctx elt key (keyHashOf P key)) (entries ctx) (8 * l) 0" by blast
  have "\<forall>c < 8. 8 * l + c < length (entries ctx)"
    using line_in_table[OF m3 lr(2)] m(4) by simp
  with lr show ?thesis by blast
qed

subsection \<open>Insertion into the index\<close>

lemma indexOk_resize:
  assumes ok: "tableShape (entries ctx) (maxEntryQty ctx)" and small: "maxEntryQty ctx < 2 ^ 31"
    and used: "usedCells (entries ctx) \<le> entryQty ctx"
    and load: "128 * entryQty ctx \<le> 115 * (2 * maxEntryQty ctx)"
  shows "\<exists>ctx'. resize (2 * maxEntryQty ctx) ctx = Some ctx' \<and> indexOk ctx' \<and>
           maxEntryQty ctx' = 2 * maxEntryQty ctx \<and> entryQty ctx' = entryQty ctx \<and>
           elements ctx' = elements ctx \<and> arena ctx' = arena ctx \<and> sessionStartIdx ctx' = sessionStartIdx ctx \<and>
           liveCells (entries ctx') = liveCells (entries ctx)"
proof -
  from ok obtain m where m: "4 \<le> m" "m \<le> 31" "maxEntryQty ctx = 2 ^ m" "length (entries ctx) = 2 ^ m"
    by (auto elim: tableShapeD)
  have "m < 31"
  proof (rule ccontr)
    assume "\<not> m < 31"
    with m(2) have "m = 31" by simp
    with m(3) small show False by simp
  qed
  with m(1) have m1: "3 \<le> m + 1" "m + 1 \<le> 31" by simp_all
  have dbl: "2 * maxEntryQty ctx = 2 ^ (m + 1)" using m(3) by simp
  have "liveCells (take (maxEntryQty ctx) (entries ctx)) \<le> length (take (maxEntryQty ctx) (entries ctx))"
    unfolding liveCells_def by (rule length_filter_le)
  also have "\<dots> < 2 ^ (m + 1)" using m(3,4) by simp
  finally have room: "liveCells (take (maxEntryQty ctx) (entries ctx)) < 2 ^ (m + 1)" .
  from resize_ok[OF m1 room]
  obtain arr where arr: "resize (2 ^ (m + 1)) ctx = Some (ctx\<lparr>entries := arr, maxEntryQty := 2 ^ (m + 1)\<rparr>)"
    "length arr = 2 ^ (m + 1)" "liveCells arr = liveCells (take (maxEntryQty ctx) (entries ctx))"
    "usedCells arr = liveCells arr" by blast
  have tk: "take (maxEntryQty ctx) (entries ctx) = entries ctx" using m(3,4) by simp
  have u: "usedCells arr \<le> entryQty ctx"
    using arr(3,4) tk liveCells_le_usedCells[of "entries ctx"] used by simp
  have sh: "tableShape arr (2 ^ (m + 1))"
    unfolding tableShape_def using arr(2) m(1) \<open>m < 31\<close> by (auto intro!: image_eqI[where x = "m + 1"])
  have "indexOk (ctx\<lparr>entries := arr, maxEntryQty := 2 ^ (m + 1)\<rparr>)"
    unfolding indexOk_def using sh u load dbl by (simp add: maxLoad128th_def)
  then show ?thesis
    using arr(1,3) dbl tk by (intro exI[of _ "ctx\<lparr>entries := arr, maxEntryQty := 2 ^ (m + 1)\<rparr>"]) simp
qed

lemma addMapChildIndex_ok:
  assumes ok: "indexOk ctx" and small: "maxEntryQty ctx < 2 ^ 31"
  shows "\<exists>b ctx'. addMapChildIndex ctx P key elt ci = Some (b, ctx') \<and> indexOk ctx' \<and>
           elements ctx' = elements ctx \<and> arena ctx' = arena ctx \<and>
           sessionStartIdx ctx' = sessionStartIdx ctx \<and>
           entryQty ctx' = (if b then entryQty ctx + 1 else entryQty ctx) \<and>
           maxEntryQty ctx' =
             (if b \<and> 128 * (entryQty ctx + 1) > maxLoad128th * maxEntryQty ctx
              then 2 * maxEntryQty ctx else maxEntryQty ctx)"
proof -
  from findCell_indexOk[OF ok, of FirstValid P key elt]
  obtain l r where lr: "findCell FirstValid ctx P key elt = Some (8 * l, r)" "r \<noteq> LineFull"
    "r = scanLine FirstValid (cellMatches ctx elt key (keyHashOf P key)) (entries ctx) (8 * l) 0"
    "\<forall>c < 8. 8 * l + c < length (entries ctx)" by blast
  have sh: "tableShape (entries ctx) (maxEntryQty ctx)" and used: "usedCells (entries ctx) \<le> entryQty ctx"
    and load: "128 * entryQty ctx \<le> 115 * maxEntryQty ctx"
    using ok by (simp_all add: indexOk_def maxLoad128th_def)
  have cap16: "16 \<le> maxEntryQty ctx"
  proof -
    from sh obtain m where m: "4 \<le> m" "maxEntryQty ctx = 2 ^ m" by (auto elim: tableShapeD)
    have "(2::nat) ^ 4 \<le> 2 ^ m" using m(1) by (intro power_increasing) simp_all
    then show ?thesis using m(2) by simp
  qed
  show ?thesis
  proof (cases r)
    case (Found c)
    from scanLine_Found[OF lr(3)[symmetric, unfolded Found]]
    have c: "c < 8" and hc: "hash (entries ctx ! (8 * l + c)) \<ge> FirstValid"
      by (simp_all add: KeyDirAssocQty_def)
    let ?ctx' = "ctx\<lparr>entries := (entries ctx)[8 * l + c := (entries ctx ! (8 * l + c))\<lparr>childIndex := ci\<rparr>]\<rparr>"
    have res: "addMapChildIndex ctx P key elt ci = Some (False, ?ctx')"
      unfolding addMapChildIndex_def lr(1) Found by simp
    have inb: "8 * l + c < length (entries ctx)" using lr(4) c by blast
    have "usedCells (entries ?ctx') = usedCells (entries ctx)"
      using usedCells_update_same[OF inb, of "(entries ctx ! (8 * l + c))\<lparr>childIndex := ci\<rparr>"] by simp
    moreover have "tableShape (entries ?ctx') (maxEntryQty ?ctx')"
      using sh by (simp add: tableShape_def)
    ultimately have "indexOk ?ctx'" using used load by (simp add: indexOk_def maxLoad128th_def)
    then show ?thesis using res by (intro exI[of _ False] exI[of _ ?ctx']) simp
  next
    case LineFull
    with lr(2) show ?thesis by simp
  next
    case (Stopped c)
    from scanLine_Stopped[OF lr(3)[symmetric, unfolded Stopped]]
    have c: "c < 8" by (simp add: KeyDirAssocQty_def)
    have inb: "8 * l + c < length (entries ctx)" using lr(4) c by blast
    let ?e = "\<lparr>hash = keyHashOf P key, childIndex = ci\<rparr>"
    let ?ctx1 = "ctx\<lparr>entries := (entries ctx)[8 * l + c := ?e], entryQty := entryQty ctx + 1\<rparr>"
    have sh1: "tableShape (entries ?ctx1) (maxEntryQty ?ctx1)" using sh by (simp add: tableShape_def)
    have used1: "usedCells (entries ?ctx1) \<le> entryQty ?ctx1"
      using usedCells_update_le[OF inb, of ?e] used by simp
    show ?thesis
    proof (cases "128 * (entryQty ctx + 1) > maxLoad128th * maxEntryQty ctx")
      case True
      have load1: "128 * entryQty ?ctx1 \<le> 115 * (2 * maxEntryQty ?ctx1)"
        using load cap16 by simp
      have small1: "maxEntryQty ?ctx1 < 2 ^ 31" using small by simp
      from indexOk_resize[OF sh1 small1 used1 load1]
      obtain ctx2 where c2: "resize (2 * maxEntryQty ?ctx1) ?ctx1 = Some ctx2" "indexOk ctx2"
        "maxEntryQty ctx2 = 2 * maxEntryQty ?ctx1" "entryQty ctx2 = entryQty ?ctx1"
        "elements ctx2 = elements ?ctx1" "arena ctx2 = arena ?ctx1" "sessionStartIdx ctx2 = sessionStartIdx ?ctx1"
        by blast
      have res: "addMapChildIndex ctx P key elt ci = Some (True, ctx2)"
        unfolding addMapChildIndex_def lr(1) Stopped using True c2(1) by (simp add: Let_def)
      show ?thesis using res c2 True by (intro exI[of _ True] exI[of _ ctx2]) simp
    next
      case False
      have res: "addMapChildIndex ctx P key elt ci = Some (True, ?ctx1)"
        unfolding addMapChildIndex_def lr(1) Stopped using False by (simp add: Let_def)
      have "indexOk ?ctx1" unfolding indexOk_def using sh1 used1 False by (simp add: not_less)
      then show ?thesis using res False by (intro exI[of _ True] exI[of _ ?ctx1]) simp
    qed
  qed
qed
section \<open>The searches along the probe sequence\<close>

lemma cellMatches_hash: "cellMatches ctx elt key h e \<Longrightarrow> hash e = h"
  unfolding cellMatches_def by (simp split: if_splits)

lemma scanLine_Found_before:
  "scanLine thr mt es idx c = Found c' \<Longrightarrow>
     (\<forall>d. c \<le> d \<and> d < c' \<longrightarrow> hash (es ! (idx + d)) \<ge> thr \<and> \<not> mt (es ! (idx + d)))"
proof (induction thr mt es idx c rule: scanLine.induct)
  case (1 threshold matches es idx cellId)
  show ?case
  proof (cases "cellId < KeyDirAssocQty \<and> hash (es ! (idx + cellId)) \<ge> threshold")
    case True
    note T = True
    show ?thesis
    proof (cases "matches (es ! (idx + cellId))")
      case True
      with T "1.prems" show ?thesis by (auto simp add: scanLine.simps[of threshold matches es idx cellId])
    next
      case False
      with T "1.prems" have "scanLine threshold matches es idx (cellId + 1) = Found c'"
        by (simp add: scanLine.simps[of threshold matches es idx cellId])
      from "1.IH"[OF T False this]
      have ih: "\<forall>d. cellId + 1 \<le> d \<and> d < c' \<longrightarrow> hash (es ! (idx + d)) \<ge> threshold \<and> \<not> matches (es ! (idx + d))" .
      have "hash (es ! (idx + d)) \<ge> threshold \<and> \<not> matches (es ! (idx + d))" if "cellId \<le> d" "d < c'" for d
      proof (cases "d = cellId")
        case True
        with T False show ?thesis by simp
      next
        case False
        with that have "cellId + 1 \<le> d" by simp
        with ih that show ?thesis by blast
      qed
      then show ?thesis by simp
    qed
  next
    case False
    with "1.prems" show ?thesis
      by (simp add: scanLine.simps[of threshold matches es idx cellId] split: if_splits)
  qed
qed

lemma scanLine_LineFull:
  "scanLine thr mt es idx c = LineFull \<Longrightarrow>
     (\<forall>d. c \<le> d \<and> d < KeyDirAssocQty \<longrightarrow> hash (es ! (idx + d)) \<ge> thr \<and> \<not> mt (es ! (idx + d)))"
proof (induction thr mt es idx c rule: scanLine.induct)
  case (1 threshold matches es idx cellId)
  show ?case
  proof (cases "cellId < KeyDirAssocQty \<and> hash (es ! (idx + cellId)) \<ge> threshold")
    case True
    note T = True
    show ?thesis
    proof (cases "matches (es ! (idx + cellId))")
      case True
      with T "1.prems" show ?thesis by (simp add: scanLine.simps[of threshold matches es idx cellId])
    next
      case False
      with T "1.prems" have "scanLine threshold matches es idx (cellId + 1) = LineFull"
        by (simp add: scanLine.simps[of threshold matches es idx cellId])
      from "1.IH"[OF T False this]
      have ih: "\<forall>d. cellId + 1 \<le> d \<and> d < KeyDirAssocQty \<longrightarrow>
                  hash (es ! (idx + d)) \<ge> threshold \<and> \<not> matches (es ! (idx + d))" .
      have "hash (es ! (idx + d)) \<ge> threshold \<and> \<not> matches (es ! (idx + d))"
        if "cellId \<le> d" "d < KeyDirAssocQty" for d
      proof (cases "d = cellId")
        case True
        with T False show ?thesis by simp
      next
        case False
        with that have "cellId + 1 \<le> d" by simp
        with ih that show ?thesis by blast
      qed
      then show ?thesis by simp
    qed
  next
    case False
    with "1.prems" show ?thesis
      by (auto simp add: scanLine.simps[of threshold matches es idx cellId] split: if_splits)
  qed
qed

text \<open>The loop ends at the first line of the sequence that is not full.\<close>

lemma probe_first_stop:
  fixes scan :: "nat \<Rightarrow> LineScan"
  assumes m: "3 \<le> m" "m \<le> 31"
    and ex: "\<exists>l < 2 ^ (m - 3). scan (8 * l) \<noteq> LineFull"
  shows "\<exists>n. (\<forall>i < n. scan (8 * lineAt (2 ^ (m - 3)) (unat (h AND tableMask (2 ^ m)) div 8) i) = LineFull) \<and>
             scan (8 * lineAt (2 ^ (m - 3)) (unat (h AND tableMask (2 ^ m)) div 8) n) \<noteq> LineFull \<and>
             probe scan (tableMask (2 ^ m)) (h AND tableMask (2 ^ m)) 1 =
               Some (8 * lineAt (2 ^ (m - 3)) (unat (h AND tableMask (2 ^ m)) div 8) n,
                     scan (8 * lineAt (2 ^ (m - 3)) (unat (h AND tableMask (2 ^ m)) div 8) n))"
proof -
  let ?B = "(2::nat) ^ (m - 3)"
  define l0 where "l0 = unat (h AND tableMask (2 ^ m)) div 8"
  have l0eq: "l0 = (unat h mod 2 ^ m) div 8"
    unfolding l0_def unat_and_tableMask[OF m] by simp
  have pw: "(2::nat) ^ m = 8 * ?B" by (rule pow2_split[OF m(1)])
  have l0: "l0 < ?B"
  proof -
    have "unat h mod 2 ^ m < 8 * ?B" unfolding pw[symmetric] by simp
    then show ?thesis unfolding l0eq by (simp add: less_mult_imp_div_less mult.commute)
  qed
  have start: "h AND tableMask (2 ^ m) = word_of_nat (8 * lineAt ?B l0 0)"
  proof -
    have "unat (h AND tableMask (2 ^ m)) = 8 * l0"
      unfolding unat_and_tableMask[OF m] l0eq ..
    then show ?thesis using lineAt_0[OF l0] by (metis of_nat_unat ucast_id)
  qed
  from ex obtain l where l: "l < ?B" "scan (8 * l) \<noteq> LineFull" by blast
  obtain j where j: "j < ?B" "lineAt ?B l0 j = l" using lineAt_covers[OF l(1) l0] by blast
  define n where "n = (LEAST j. scan (8 * lineAt ?B l0 j) \<noteq> LineFull)"
  have nstop: "scan (8 * lineAt ?B l0 n) \<noteq> LineFull"
    unfolding n_def using l(2) j(2) by (metis (mono_tags, lifting) LeastI)
  have nle: "n \<le> j" unfolding n_def using l(2) j(2) by (simp add: Least_le)
  have nfull: "\<forall>i < n. scan (8 * lineAt ?B l0 i) = LineFull"
    unfolding n_def using not_less_Least by blast
  have nB: "n < ?B" using nle j(1) by simp
  have "probe scan (tableMask (2 ^ m)) (word_of_nat (8 * lineAt ?B l0 0)) (word_of_nat (0 + 1)) =
         Some (8 * lineAt ?B l0 n, scan (8 * lineAt ?B l0 n))"
    by (rule probe_run[OF m l0 nfull nstop nB]) simp
  then have "probe scan (tableMask (2 ^ m)) (h AND tableMask (2 ^ m)) 1 =
         Some (8 * lineAt ?B l0 n, scan (8 * lineAt ?B l0 n))"
    unfolding start by simp
  with nfull nstop show ?thesis unfolding l0_def by blast
qed

lemma match_hash_ge:
  "cellMatches ctx elt key (keyHashOf P key) e \<Longrightarrow> thr = Tombstone \<or> thr = FirstValid \<Longrightarrow> thr \<le> hash e"
  using cellMatches_hash[of ctx elt key "keyHashOf P key" e] keyHashOf_valid[of P key]
  by (auto simp: ge_FirstValid ge_Tombstone)

text \<open>The search ends at the first cell of the probe sequence that stops it.\<close>

lemma findCell_stops:
  assumes ok: "indexOk ctx" and thr: "thr = Tombstone \<or> thr = FirstValid"
  shows "\<exists>k. stopsAt thr ctx P key elt k \<and> probeCell ctx P key k < length (entries ctx) \<and>
             findCell thr ctx P key elt =
               Some (probeCell ctx P key k - k mod 8,
                     if cellMatches ctx elt key (keyHashOf P key) (entries ctx ! probeCell ctx P key k)
                     then Found (k mod 8) else Stopped (k mod 8))"
proof -
  let ?mt = "cellMatches ctx elt key (keyHashOf P key)"
  let ?scan = "\<lambda>idx. scanLine thr ?mt (entries ctx) idx 0"
  from ok obtain m where m: "4 \<le> m" "m \<le> 31" "maxEntryQty ctx = 2 ^ m" "length (entries ctx) = 2 ^ m"
    unfolding indexOk_def by (auto elim: tableShapeD)
  have m3: "3 \<le> m" using m(1) by simp
  let ?B = "(2::nat) ^ (m - 3)"
  have B: "maxEntryQty ctx div 8 = ?B" using pow2_split[OF m3] m(3) by simp
  let ?l0 = "firstCell ctx P key div 8"
  have l0: "?l0 = unat (keyHashOf P key AND tableMask (2 ^ m)) div 8"
    unfolding firstCell_def m(3) ..
  obtain i where i: "i < length (entries ctx)" "hash (entries ctx ! i) = Empty"
    using indexOk_empty_cell[OF ok] by blast
  have "hash (entries ctx ! i) < thr" using i(2) thr by (auto simp: lt_Tombstone lt_FirstValid)
  from line_not_full[OF m3 m(4) i(1) this]
  have ex: "\<exists>l < ?B. ?scan (8 * l) \<noteq> LineFull" by blast
  from probe_first_stop[OF m3 m(2), of ?scan "keyHashOf P key", OF ex]
  obtain n where n: "\<forall>i < n. ?scan (8 * lineAt ?B ?l0 i) = LineFull"
    "?scan (8 * lineAt ?B ?l0 n) \<noteq> LineFull"
    "probe ?scan (tableMask (2 ^ m)) (keyHashOf P key AND tableMask (2 ^ m)) 1 =
       Some (8 * lineAt ?B ?l0 n, ?scan (8 * lineAt ?B ?l0 n))"
    unfolding l0 by blast
  have fc: "findCell thr ctx P key elt = Some (8 * lineAt ?B ?l0 n, ?scan (8 * lineAt ?B ?l0 n))"
    unfolding findCell_def Let_def m(3) using n(3) by simp
  have pc: "probeCell ctx P key j = 8 * lineAt ?B ?l0 (j div 8) + j mod 8" for j
    unfolding probeCell_def B ..
  have full: "thr \<le> hash (entries ctx ! probeCell ctx P key j) \<and> \<not> ?mt (entries ctx ! probeCell ctx P key j)"
    if "j div 8 < n" for j
  proof -
    have "?scan (8 * lineAt ?B ?l0 (j div 8)) = LineFull" using n(1) that by blast
    from scanLine_LineFull[OF this] show ?thesis unfolding pc by (simp add: KeyDirAssocQty_def)
  qed
  have lineB: "lineAt ?B ?l0 n < ?B" by (simp add: lineAt_less)
  have inb: "8 * lineAt ?B ?l0 n + c < length (entries ctx)" if "c < 8" for c
    using line_in_table[OF m3 lineB that] m(4) by simp
  show ?thesis
  proof (cases "?scan (8 * lineAt ?B ?l0 n)")
    case LineFull
    with n(2) show ?thesis by simp
  next
    case (Found c)
    from scanLine_Found[OF Found] have c: "c < 8" "?mt (entries ctx ! (8 * lineAt ?B ?l0 n + c))"
      by (simp_all add: KeyDirAssocQty_def)
    from scanLine_Found_before[OF Found]
    have bef: "\<forall>d < c. thr \<le> hash (entries ctx ! (8 * lineAt ?B ?l0 n + d)) \<and>
                        \<not> ?mt (entries ctx ! (8 * lineAt ?B ?l0 n + d))" by simp
    let ?k = "8 * n + c"
    have kd: "?k div 8 = n" "?k mod 8 = c" using c(1) by simp_all
    have pk: "probeCell ctx P key ?k = 8 * lineAt ?B ?l0 n + c" unfolding pc kd ..
    have before: "thr \<le> hash (entries ctx ! probeCell ctx P key j) \<and> \<not> ?mt (entries ctx ! probeCell ctx P key j)"
      if "j < ?k" for j
    proof (cases "j div 8 < n")
      case True
      then show ?thesis by (rule full)
    next
      case False
      have "j div 8 \<le> (8 * n + c) div 8" using that by (intro div_le_mono) simp
      also have "\<dots> = n" using c(1) by simp
      finally have jn: "j div 8 = n" using False by simp
      have "8 * (j div 8) + j mod 8 < 8 * n + c" using that by simp
      then have "j mod 8 < c" unfolding jn by simp
      with bef show ?thesis unfolding pc jn by blast
    qed
    have "stopsAt thr ctx P key elt ?k"
      unfolding stopsAt_def pk using before c(2) by blast
    moreover have "probeCell ctx P key ?k < length (entries ctx)" unfolding pk using inb[OF c(1)] .
    moreover have "findCell thr ctx P key elt =
               Some (probeCell ctx P key ?k - ?k mod 8,
                     if ?mt (entries ctx ! probeCell ctx P key ?k) then Found (?k mod 8) else Stopped (?k mod 8))"
      unfolding fc Found pk kd using c(2) by simp
    ultimately show ?thesis by blast
  next
    case (Stopped c)
    from scanLine_Stopped[OF Stopped] have c: "c < 8" "hash (entries ctx ! (8 * lineAt ?B ?l0 n + c)) < thr"
      and bef: "\<forall>d < c. thr \<le> hash (entries ctx ! (8 * lineAt ?B ?l0 n + d)) \<and>
                        \<not> ?mt (entries ctx ! (8 * lineAt ?B ?l0 n + d))"
      by (simp_all add: KeyDirAssocQty_def)
    have nm: "\<not> ?mt (entries ctx ! (8 * lineAt ?B ?l0 n + c))"
      using match_hash_ge[OF _ thr, of ctx elt key P "entries ctx ! (8 * lineAt ?B ?l0 n + c)"] c(2)
      by auto
    let ?k = "8 * n + c"
    have kd: "?k div 8 = n" "?k mod 8 = c" using c(1) by simp_all
    have pk: "probeCell ctx P key ?k = 8 * lineAt ?B ?l0 n + c" unfolding pc kd ..
    have before: "thr \<le> hash (entries ctx ! probeCell ctx P key j) \<and> \<not> ?mt (entries ctx ! probeCell ctx P key j)"
      if "j < ?k" for j
    proof (cases "j div 8 < n")
      case True
      then show ?thesis by (rule full)
    next
      case False
      have "j div 8 \<le> (8 * n + c) div 8" using that by (intro div_le_mono) simp
      also have "\<dots> = n" using c(1) by simp
      finally have jn: "j div 8 = n" using False by simp
      have "8 * (j div 8) + j mod 8 < 8 * n + c" using that by simp
      then have "j mod 8 < c" unfolding jn by simp
      with bef show ?thesis unfolding pc jn by blast
    qed
    have "stopsAt thr ctx P key elt ?k"
      unfolding stopsAt_def pk using before c(2) by blast
    moreover have "probeCell ctx P key ?k < length (entries ctx)" unfolding pk using inb[OF c(1)] .
    moreover have "findCell thr ctx P key elt =
               Some (probeCell ctx P key ?k - ?k mod 8,
                     if ?mt (entries ctx ! probeCell ctx P key ?k) then Found (?k mod 8) else Stopped (?k mod 8))"
      unfolding fc Stopped pk kd using nm by simp
    ultimately show ?thesis by blast
  qed
qed

lemma stopsAt_unique:
  assumes "stopsAt thr ctx P key elt k" "stopsAt thr ctx P key elt k'"
  shows "k = k'"
proof (rule ccontr)
  assume "k \<noteq> k'"
  then consider "k < k'" | "k' < k" by linarith
  then show False
  proof cases
    case 1
    with assms show False unfolding stopsAt_def by (auto simp: not_less)
  next
    case 2
    with assms show False unfolding stopsAt_def by (auto simp: not_less)
  qed
qed

lemma probeCell_split: "k mod 8 \<le> probeCell ctx P key k"
  unfolding probeCell_def by simp

text \<open>The outcome of an insertion, from the cell where its search ends.\<close>

lemma liveCells_update_same:
  assumes "i < length es" "hash e = hash (es ! i)"
  shows "liveCells (es[i := e]) = liveCells es"
  using filter_update_length[OF assms(1), of "\<lambda>e. hash e \<ge> FirstValid" e] assms(2)
  unfolding liveCells_def by (simp split: if_splits)

lemma addMapChildIndex_at:
  assumes "indexOk ctx"
  shows "\<exists>ka. stopsAt FirstValid ctx P key elt ka \<and> probeCell ctx P key ka < length (entries ctx) \<and>
     addMapChildIndex ctx P key elt ci =
       (if cellMatches ctx elt key (keyHashOf P key) (entries ctx ! probeCell ctx P key ka)
        then Some (False, ctx\<lparr>entries := (entries ctx)[probeCell ctx P key ka :=
                                  (entries ctx ! probeCell ctx P key ka)\<lparr>childIndex := ci\<rparr>]\<rparr>)
        else if 128 * (entryQty ctx + 1) > 115 * maxEntryQty ctx
        then map_option (Pair True)
               (resize (2 * maxEntryQty ctx)
                  (ctx\<lparr>entries := (entries ctx)[probeCell ctx P key ka :=
                                      \<lparr>hash = keyHashOf P key, childIndex = ci\<rparr>],
                       entryQty := entryQty ctx + 1\<rparr>))
        else Some (True, ctx\<lparr>entries := (entries ctx)[probeCell ctx P key ka :=
                                      \<lparr>hash = keyHashOf P key, childIndex = ci\<rparr>],
                              entryQty := entryQty ctx + 1\<rparr>))"
proof -
  let ?mt = "cellMatches ctx elt key (keyHashOf P key)"
  from findCell_stops[OF assms, of FirstValid P key elt]
  obtain ka where ka: "stopsAt FirstValid ctx P key elt ka"
    "probeCell ctx P key ka < length (entries ctx)"
    "findCell FirstValid ctx P key elt =
       Some (probeCell ctx P key ka - ka mod 8,
             if ?mt (entries ctx ! probeCell ctx P key ka) then Found (ka mod 8) else Stopped (ka mod 8))"
    by blast
  have pa: "probeCell ctx P key ka - ka mod 8 + ka mod 8 = probeCell ctx P key ka"
    using probeCell_split[of ka ctx P key] by simp
  have "addMapChildIndex ctx P key elt ci =
       (if ?mt (entries ctx ! probeCell ctx P key ka)
        then Some (False, ctx\<lparr>entries := (entries ctx)[probeCell ctx P key ka :=
                                  (entries ctx ! probeCell ctx P key ka)\<lparr>childIndex := ci\<rparr>]\<rparr>)
        else if 128 * (entryQty ctx + 1) > 115 * maxEntryQty ctx
        then map_option (Pair True)
               (resize (2 * maxEntryQty ctx)
                  (ctx\<lparr>entries := (entries ctx)[probeCell ctx P key ka :=
                                      \<lparr>hash = keyHashOf P key, childIndex = ci\<rparr>],
                       entryQty := entryQty ctx + 1\<rparr>))
        else Some (True, ctx\<lparr>entries := (entries ctx)[probeCell ctx P key ka :=
                                      \<lparr>hash = keyHashOf P key, childIndex = ci\<rparr>],
                              entryQty := entryQty ctx + 1\<rparr>))"
    unfolding addMapChildIndex_def ka(3)
    by (simp add: pa Let_def maxLoad128th_def split: option.splits)
  with ka(1,2) show ?thesis by blast
qed


section \<open>Proofs: capacity of the index\<close>

lemma rep16: "replicate 16 x = [x, x, x, x, x, x, x, x, x, x, x, x, x, x, x, x]"
  by (simp add: numeral_eq_Suc)

lemmas wy_eval = wyr3_def wyr4_def byteAt_def wymix_def wymum_def secret0_def secret1_def wyseed_def Let_def

lemmas idx_eval = findCell_def tableMask_def KeyDirAssocQty_def probe.simps scanLine.simps cellMatches_def
  Tombstone_def FirstValid_def Empty_def UINT_MAX_def getSubQty_def getType_def getSub_def
  getStringSize_def getStringIdx_def getString_def getKeyValue_def

lemma wyhash_a: "wyhash ''a'' = 0xaced12527fe5bff8"
proof -
  have l: "length ''a'' = 1" by simp
  show ?thesis unfolding wyhash_def l by (simp add: wy_eval)
qed

lemma keyHash_a_0: "keyHashOf 0 ''a'' = 0x7fe5bff8"
  by (simp add: keyHashOf_def wyhash_a FirstValid_def)

lemma wyhash_b: "wyhash ''b'' = 0x444ed4dca719e838"
proof -
  have l: "length ''b'' = 1" by simp
  show ?thesis unfolding wyhash_def l by (simp add: wy_eval)
qed

lemma keyHash_b_0: "keyHashOf 0 ''b'' = 0xa719e838"
  by (simp add: keyHashOf_def wyhash_b FirstValid_def)

lemma wyhash_c: "wyhash ''c'' = 0x5361fe389a8c4185"
proof -
  have l: "length ''c'' = 1" by simp
  show ?thesis unfolding wyhash_def l by (simp add: wy_eval)
qed

lemma keyHash_c_0: "keyHashOf 0 ''c'' = 0x9a8c4185"
  by (simp add: keyHashOf_def wyhash_c FirstValid_def)

lemma wyhash_d: "wyhash ''d'' = 0xe403164b709791d4"
proof -
  have l: "length ''d'' = 1" by simp
  show ?thesis unfolding wyhash_def l by (simp add: wy_eval)
qed

lemma keyHash_d_0: "keyHashOf 0 ''d'' = 0x709791d4"
  by (simp add: keyHashOf_def wyhash_d FirstValid_def)

lemma wyhash_e: "wyhash ''e'' = 0x31bc409a84d06be6"
proof -
  have l: "length ''e'' = 1" by simp
  show ?thesis unfolding wyhash_def l by (simp add: wy_eval)
qed

lemma keyHash_e_0: "keyHashOf 0 ''e'' = 0x84d06be6"
  by (simp add: keyHashOf_def wyhash_e FirstValid_def)

lemma wyhash_f: "wyhash ''f'' = 0x184ddd7b7947393f"
proof -
  have l: "length ''f'' = 1" by simp
  show ?thesis unfolding wyhash_def l by (simp add: wy_eval)
qed

lemma keyHash_f_0: "keyHashOf 0 ''f'' = 0x7947393f"
  by (simp add: keyHashOf_def wyhash_f FirstValid_def)

lemma wyhash_g: "wyhash ''g'' = 0x4212c749e1178cc7"
proof -
  have l: "length ''g'' = 1" by simp
  show ?thesis unfolding wyhash_def l by (simp add: wy_eval)
qed

lemma keyHash_g_0: "keyHashOf 0 ''g'' = 0xe1178cc7"
  by (simp add: keyHashOf_def wyhash_g FirstValid_def)

lemma wyhash_h: "wyhash ''h'' = 0xf8ec568d022a9c90"
proof -
  have l: "length ''h'' = 1" by simp
  show ?thesis unfolding wyhash_def l by (simp add: wy_eval)
qed

lemma keyHash_h_0: "keyHashOf 0 ''h'' = 0x022a9c90"
  by (simp add: keyHashOf_def wyhash_h FirstValid_def)

lemma wyhash_i: "wyhash ''i'' = 0x1524f1655f804419"
proof -
  have l: "length ''i'' = 1" by simp
  show ?thesis unfolding wyhash_def l by (simp add: wy_eval)
qed

lemma keyHash_i_0: "keyHashOf 0 ''i'' = 0x5f804419"
  by (simp add: keyHashOf_def wyhash_i FirstValid_def)

lemma wyhash_j: "wyhash ''j'' = 0xfc3c5ee3fd9e5f84"
proof -
  have l: "length ''j'' = 1" by simp
  show ?thesis unfolding wyhash_def l by (simp add: wy_eval)
qed

lemma keyHash_j_0: "keyHashOf 0 ''j'' = 0xfd9e5f84"
  by (simp add: keyHashOf_def wyhash_j FirstValid_def)

lemma wyhash_k: "wyhash ''k'' = 0x4cca4dfd16bd854f"
proof -
  have l: "length ''k'' = 1" by simp
  show ?thesis unfolding wyhash_def l by (simp add: wy_eval)
qed

lemma keyHash_k_0: "keyHashOf 0 ''k'' = 0x16bd854f"
  by (simp add: keyHashOf_def wyhash_k FirstValid_def)

lemma wyhash_l: "wyhash ''l'' = 0x04fb1f8ee0263ca8"
proof -
  have l: "length ''l'' = 1" by simp
  show ?thesis unfolding wyhash_def l by (simp add: wy_eval)
qed

lemma keyHash_l_0: "keyHashOf 0 ''l'' = 0xe0263ca8"
  by (simp add: keyHashOf_def wyhash_l FirstValid_def)

lemma newContext_fresh: "newContext = Some freshContext"
  by (simp add: newContext_def resize_def InitMapSize_def freshContext_def)

lemma freshContext_ok: "indexOk freshContext"
proof -
  have "(16::nat) \<in> (\<lambda>m. 2 ^ m) ` {4..<32}" by (intro image_eqI[where x = 4]) simp_all
  then show ?thesis
    by (simp add: indexOk_def tableShape_def freshContext_def usedCells_def emptyEntry_def Empty_def
        maxLoad128th_def)
qed

lemma wyhash_o: "wyhash ''o'' = 0x889ed61ca2814893"
proof -
  have l: "length ''o'' = 1" by simp
  show ?thesis unfolding wyhash_def l by (simp add: wy_eval)
qed

lemma keyHash_o_0: "keyHashOf 0 ''o'' = 0xa2814893"
  by (simp add: keyHashOf_def wyhash_o FirstValid_def)


lemma rep32:
  "replicate 32 x = [x, x, x, x, x, x, x, x, x, x, x, x, x, x, x, x,
                     x, x, x, x, x, x, x, x, x, x, x, x, x, x, x, x]"
  by (simp add: numeral_eq_Suc)

lemma ctx14_ok: "indexOk ctx14"
proof -
  have "(16::nat) \<in> (\<lambda>m. 2 ^ m) ` {4..<32}" by (intro image_eqI[where x = 4]) simp_all
  then show ?thesis
    by (simp add: indexOk_def tableShape_def usedCells_def maxLoad128th_def Empty_def ctx14_def)
qed

lemma ctx14_live: "liveCells (entries ctx14) = entryQty ctx14"
  by (simp add: liveCells_def ctx14_def ge_FirstValid Empty_def Tombstone_def)

lemma ctx14_add:
  "addMapChildIndex ctx14 0 ''o'' (newElement MAP) 14 = Some (True, ctx15)"
  by (simp add: addMapChildIndex_def maxLoad128th_def resize_def transferAll.simps transferEntry_def
      emptyEntry_def rep32 newElement_def idx_eval keyHash_o_0 word_cmp ctx14_def ctx15_def)

text \<open>
  Claim C9, as amended. The index starts with a capacity of 16 cells, all empty. For an
  index from which no entry was removed, so that its live entries are as many as the
  counter \<open>_entryQty\<close>, and whose capacity is below \<open>2^31\<close>, an insertion gives an index
  of the same kind, and it doubles the capacity exactly when the occupancy after the
  insertion exceeds 115/128 of the capacity (115 is 0.90 * 128 truncated); otherwise the
  capacity is unchanged.
\<close>

theorem resize_rule:
  assumes "indexOk ctx" and "liveCells (entries ctx) = entryQty ctx" and "maxEntryQty ctx < 2 ^ 31"
  shows "newContext = Some freshContext \<and> maxEntryQty freshContext = 16 \<and>
         liveCells (entries freshContext) = 0 \<and>
         (\<exists>b ctx'. addMapChildIndex ctx P key elt ci = Some (b, ctx') \<and> indexOk ctx' \<and>
            liveCells (entries ctx') = entryQty ctx' \<and>
            liveCells (entries ctx') =
              (if b then liveCells (entries ctx) + 1 else liveCells (entries ctx)) \<and>
            maxEntryQty ctx' =
              (if 128 * liveCells (entries ctx') > 115 * maxEntryQty ctx
               then 2 * maxEntryQty ctx else maxEntryQty ctx))"
proof -
  let ?mt = "cellMatches ctx elt key (keyHashOf P key)"
  from addMapChildIndex_ok[OF assms(1,3), of P key elt ci]
  obtain b ctx' where r: "addMapChildIndex ctx P key elt ci = Some (b, ctx')" "indexOk ctx'"
    "entryQty ctx' = (if b then entryQty ctx + 1 else entryQty ctx)"
    "maxEntryQty ctx' =
       (if b \<and> 128 * (entryQty ctx + 1) > maxLoad128th * maxEntryQty ctx
        then 2 * maxEntryQty ctx else maxEntryQty ctx)" by blast
  from addMapChildIndex_at[OF assms(1), of P key elt ci]
  obtain ka where ka: "stopsAt FirstValid ctx P key elt ka"
    "probeCell ctx P key ka < length (entries ctx)"
    and a: "addMapChildIndex ctx P key elt ci =
       (if ?mt (entries ctx ! probeCell ctx P key ka)
        then Some (False, ctx\<lparr>entries := (entries ctx)[probeCell ctx P key ka :=
                                  (entries ctx ! probeCell ctx P key ka)\<lparr>childIndex := ci\<rparr>]\<rparr>)
        else if 128 * (entryQty ctx + 1) > 115 * maxEntryQty ctx
        then map_option (Pair True)
               (resize (2 * maxEntryQty ctx)
                  (ctx\<lparr>entries := (entries ctx)[probeCell ctx P key ka :=
                                      \<lparr>hash = keyHashOf P key, childIndex = ci\<rparr>],
                       entryQty := entryQty ctx + 1\<rparr>))
        else Some (True, ctx\<lparr>entries := (entries ctx)[probeCell ctx P key ka :=
                                      \<lparr>hash = keyHashOf P key, childIndex = ci\<rparr>],
                              entryQty := entryQty ctx + 1\<rparr>))"
    by blast
  let ?pa = "probeCell ctx P key ka"
  let ?ctx1 = "ctx\<lparr>entries := (entries ctx)[?pa := \<lparr>hash = keyHashOf P key, childIndex = ci\<rparr>],
                   entryQty := entryQty ctx + 1\<rparr>"
  have sh: "tableShape (entries ctx) (maxEntryQty ctx)" and used: "usedCells (entries ctx) \<le> entryQty ctx"
    and load: "128 * entryQty ctx \<le> 115 * maxEntryQty ctx"
    using assms(1) by (simp_all add: indexOk_def maxLoad128th_def)
  have live: "liveCells (entries ctx') =
                (if b then liveCells (entries ctx) + 1 else liveCells (entries ctx))"
  proof (cases "?mt (entries ctx ! ?pa)")
    case True
    with r(1) a have b: "\<not> b" and c: "ctx' = ctx\<lparr>entries := (entries ctx)[?pa :=
                                  (entries ctx ! ?pa)\<lparr>childIndex := ci\<rparr>]\<rparr>" by simp_all
    have "liveCells (entries ctx') = liveCells (entries ctx)"
      unfolding c using liveCells_update_same[OF ka(2), of "(entries ctx ! ?pa)\<lparr>childIndex := ci\<rparr>"]
      by simp
    with b show ?thesis by simp
  next
    case False
    with ka(1) have free: "hash (entries ctx ! ?pa) < FirstValid" unfolding stopsAt_def by blast
    have l1: "liveCells (entries ?ctx1) = liveCells (entries ctx) + 1"
      using liveCells_update[OF ka(2) free, of "\<lparr>hash = keyHashOf P key, childIndex = ci\<rparr>"]
        keyHashOf_valid[of P key] by simp
    show ?thesis
    proof (cases "128 * (entryQty ctx + 1) > 115 * maxEntryQty ctx")
      case True
      with False r(1) a have b: b and rs: "resize (2 * maxEntryQty ctx) ?ctx1 = Some ctx'"
        by auto
      have sh1: "tableShape (entries ?ctx1) (maxEntryQty ?ctx1)" using sh by (simp add: tableShape_def)
      have used1: "usedCells (entries ?ctx1) \<le> entryQty ?ctx1"
        using usedCells_update_le[OF ka(2), of "\<lparr>hash = keyHashOf P key, childIndex = ci\<rparr>"] used
        by simp
      have cap16: "16 \<le> maxEntryQty ctx"
      proof -
        from sh obtain m where m: "4 \<le> m" "maxEntryQty ctx = 2 ^ m" by (auto elim: tableShapeD)
        have "(2::nat) ^ 4 \<le> 2 ^ m" using m(1) by (intro power_increasing) simp_all
        then show ?thesis using m(2) by simp
      qed
      have load1: "128 * entryQty ?ctx1 \<le> 115 * (2 * maxEntryQty ?ctx1)" using load cap16 by simp
      have small1: "maxEntryQty ?ctx1 < 2 ^ 31" using assms(3) by simp
      from indexOk_resize[OF sh1 small1 used1 load1]
      obtain ctx2 where c2: "resize (2 * maxEntryQty ?ctx1) ?ctx1 = Some ctx2"
        "liveCells (entries ctx2) = liveCells (entries ?ctx1)" by blast
      from c2(1) rs have "ctx2 = ctx'" by simp
      with c2(2) l1 b show ?thesis by simp
    next
      case nr: False
      with False r(1) a have b: b and c: "ctx' = ?ctx1" by simp_all
      from l1 b show ?thesis unfolding c by simp
    qed
  qed
  have lq: "liveCells (entries ctx') = entryQty ctx'"
    using live r(3) assms(2) by simp
  have cap: "maxEntryQty ctx' =
              (if 128 * liveCells (entries ctx') > 115 * maxEntryQty ctx
               then 2 * maxEntryQty ctx else maxEntryQty ctx)"
    using r(4) live assms(2) load by (auto simp: maxLoad128th_def)
  have f0: "liveCells (entries freshContext) = 0"
    by (simp add: freshContext_def liveCells_def emptyEntry_def FirstValid_def)
  from r(1,2) lq live cap
  have "\<exists>b ctx'. addMapChildIndex ctx P key elt ci = Some (b, ctx') \<and> indexOk ctx' \<and>
            liveCells (entries ctx') = entryQty ctx' \<and>
            liveCells (entries ctx') =
              (if b then liveCells (entries ctx) + 1 else liveCells (entries ctx)) \<and>
            maxEntryQty ctx' =
              (if 128 * liveCells (entries ctx') > 115 * maxEntryQty ctx
               then 2 * maxEntryQty ctx else maxEntryQty ctx)" by blast
  then show ?thesis using newContext_fresh f0 by (simp add: freshContext_def)
qed

text \<open>
  An insertion that doubles the table: the index holds 14 entries in its 16 cells, and
  the occupancy after the insertion, 15 of 16 cells, exceeds 115/128 of the capacity.
\<close>

theorem resize_rule_witness:
  "indexOk ctx14 \<and> liveCells (entries ctx14) = entryQty ctx14 \<and> maxEntryQty ctx14 < 2 ^ 31 \<and>
   maxEntryQty ctx14 = 16 \<and>
   addMapChildIndex ctx14 0 ''o'' (newElement MAP) 14 = Some (True, ctx15) \<and>
   liveCells (entries ctx15) = 15 \<and> 128 * liveCells (entries ctx15) > 115 * maxEntryQty ctx14 \<and>
   maxEntryQty ctx15 = 32"
proof -
  have sm: "maxEntryQty ctx14 < 2 ^ 31" and c16: "maxEntryQty ctx14 = 16" and l14: "entryQty ctx14 = 14"
    by (simp_all add: ctx14_def)
  from resize_rule[OF ctx14_ok ctx14_live sm, where P = 0 and key = "''o''" and elt = "newElement MAP"
      and ci = 14]
  obtain b ctx' where r: "addMapChildIndex ctx14 0 ''o'' (newElement MAP) 14 = Some (b, ctx')"
    "liveCells (entries ctx') = (if b then liveCells (entries ctx14) + 1 else liveCells (entries ctx14))"
    "maxEntryQty ctx' =
       (if 128 * liveCells (entries ctx') > 115 * maxEntryQty ctx14
        then 2 * maxEntryQty ctx14 else maxEntryQty ctx14)" by blast
  from r(1) ctx14_add have e: "b" "ctx' = ctx15" by simp_all
  have l15: "liveCells (entries ctx15) = 15" using r(2) e ctx14_live l14 by simp
  have m15: "maxEntryQty ctx15 = 32" using r(3) e l15 c16 by simp
  from ctx14_ok ctx14_live sm c16 ctx14_add l15 m15 show ?thesis by simp
qed

text \<open>
  After a removal the counter of entries exceeds the occupancy, and the rule of the
  amended claim does not extend to such an index: in the index of 14 entries from which
  one was removed, an insertion doubles the capacity although the occupancy after it, 14
  of 16 cells, does not exceed 115/128 of the capacity.
\<close>

lemma resize_after_removal:
  "map_option (\<lambda>(b, c). (b, liveCells (entries c), entryQty c, maxEntryQty c))
     (addMapChildIndex ctx14r 0 ''o'' (newElement MAP) 14) = Some (True, 14, 15, 32) \<and>
   \<not> 128 * (14::nat) > 115 * 16"
  by (simp add: addMapChildIndex_def maxLoad128th_def resize_def transferAll.simps transferEntry_def
      emptyEntry_def rep32 newElement_def idx_eval keyHash_o_0 word_cmp ctx14_def ctx14r_def
      liveCells_def)

text \<open>
  Claim C9 as stated fails: after twelve insertions into a new index the occupancy, 12 of
  16 cells, exceeds 90/128 of the capacity (128 * 12 > 90 * 16), and the capacity is
  still 16.
\<close>

theorem resize_rule_counterexample:
  "map_option tableLoad (Option.bind newContext
      (addKeys 0 [''a'', ''b'', ''c'', ''d'', ''e'', ''f'', ''g'', ''h'', ''i'', ''j'', ''k'', ''l''])) =
     Some (12, 16) \<and>
   128 * (12::nat) > 90 * 16"
  by (simp add: newContext_def resize_def InitMapSize_def emptyEntry_def rep16 newElement_def
      addMapChildIndex_def maxLoad128th_def tableLoad_def idx_eval keyHash_a_0 keyHash_b_0
      keyHash_c_0 keyHash_d_0 keyHash_e_0 keyHash_f_0 keyHash_g_0 keyHash_h_0 keyHash_i_0
      keyHash_j_0 keyHash_k_0 keyHash_l_0)
section \<open>Tombstones in the probe sequence\<close>

lemmas api_eval = buildMap_def newMapDocument_def newDocument_def newContext_def resize_def InitMapSize_def
  emptyEntry_def rep16 addStringElt_def setString_def newElement_def initFromContext_def mkNode_def
  mkPendingNode_def assignKind_def reset_def insertValue_def createKeyValue_def addString_def
  newStringElement_def newKeyElement_def addSub_def ensureSpaceForOne_def getMapChildIndex_def
  addMapChildIndex_def removeMapChildIndex_def maxLoad128th_def

lemma build_ab: "buildMap [(''a'', ''1''), (''b'', ''1'')] = Some ctxAB"
  by (simp add: api_eval idx_eval keyHash_a_0 keyHash_b_0 ctxAB_def)

lemma tomb_a: "removeMapChildIndex True ctxAB 0 ''a'' (elements ctxAB ! 0) = Some (Inr (0, ctxT))"
  by (simp add: api_eval idx_eval word_cmp keyHash_a_0 ctxAB_def ctxT_def)

lemma add_b: "addMapChildIndex ctxT 0 ''b'' (elements ctxT ! 0) (Suc 0) = Some (True, ctxT2)"
  by (simp add: api_eval idx_eval word_cmp keyHash_b_0 ctxT_def ctxT2_def)

lemma ctxT_ok: "indexOk ctxT"
proof -
  have "(16::nat) \<in> (\<lambda>m. 2 ^ m) ` {4..<32}" by (intro image_eqI[of _ _ 4]) simp_all
  then show ?thesis
    by (simp add: indexOk_def tableShape_def usedCells_def maxLoad128th_def Empty_def ctxT_def)
qed

text \<open>
  Claim C3, as amended. Every search visits the cells of the probe sequence of the key in
  order. The search of find and remove passes over every cell that is not empty and does
  not match, tombstones included, and ends at the first cell that is empty or matches.
  The search of insert-or-replace ends at the first cell that is empty, a tombstone, or a
  match: when that cell is a match its child position is overwritten and the result is
  false; otherwise the new entry is written in that cell, be it a tombstone, the counter
  of entries is incremented, and the result is true, also when a matching entry comes
  later in the sequence.
\<close>

theorem tombstone_rule:
  assumes "indexOk ctx" and "maxEntryQty ctx < 2 ^ 31"
  shows "\<exists>kf ka.
     stopsAt Tombstone ctx P key elt kf \<and> stopsAt FirstValid ctx P key elt ka \<and>
     (hash (entries ctx ! probeCell ctx P key kf) = Empty \<or>
      cellMatches ctx elt key (keyHashOf P key) (entries ctx ! probeCell ctx P key kf)) \<and>
     (hash (entries ctx ! probeCell ctx P key ka) = Empty \<or>
      hash (entries ctx ! probeCell ctx P key ka) = Tombstone \<or>
      cellMatches ctx elt key (keyHashOf P key) (entries ctx ! probeCell ctx P key ka)) \<and>
     getMapChildIndex ctx P key elt =
       Some (if cellMatches ctx elt key (keyHashOf P key) (entries ctx ! probeCell ctx P key kf)
             then childIndex (entries ctx ! probeCell ctx P key kf) else UINT_MAX) \<and>
     removeMapChildIndex ndebug ctx P key elt =
       (if cellMatches ctx elt key (keyHashOf P key) (entries ctx ! probeCell ctx P key kf)
        then Some (Inr (childIndex (entries ctx ! probeCell ctx P key kf),
                        ctx\<lparr>entries := (entries ctx)[probeCell ctx P key kf :=
                               \<lparr>hash = Tombstone, childIndex = UINT_MAX\<rparr>]\<rparr>))
        else if ndebug then Some (Inr (UINT_MAX, ctx)) else Some (Inl ())) \<and>
     addMapChildIndex ctx P key elt ci =
       (if cellMatches ctx elt key (keyHashOf P key) (entries ctx ! probeCell ctx P key ka)
        then Some (False, ctx\<lparr>entries := (entries ctx)[probeCell ctx P key ka :=
                                  (entries ctx ! probeCell ctx P key ka)\<lparr>childIndex := ci\<rparr>]\<rparr>)
        else if 128 * (entryQty ctx + 1) > 115 * maxEntryQty ctx
        then map_option (Pair True)
               (resize (2 * maxEntryQty ctx)
                  (ctx\<lparr>entries := (entries ctx)[probeCell ctx P key ka :=
                                      \<lparr>hash = keyHashOf P key, childIndex = ci\<rparr>],
                       entryQty := entryQty ctx + 1\<rparr>))
        else Some (True, ctx\<lparr>entries := (entries ctx)[probeCell ctx P key ka :=
                                      \<lparr>hash = keyHashOf P key, childIndex = ci\<rparr>],
                              entryQty := entryQty ctx + 1\<rparr>)) \<and>
     (\<exists>b ctx'. addMapChildIndex ctx P key elt ci = Some (b, ctx') \<and>
        (b \<longleftrightarrow> \<not> cellMatches ctx elt key (keyHashOf P key) (entries ctx ! probeCell ctx P key ka)))"
proof -
  let ?mt = "cellMatches ctx elt key (keyHashOf P key)"
  from findCell_stops[OF assms(1), of Tombstone P key elt]
  obtain kf where kf: "stopsAt Tombstone ctx P key elt kf"
    "findCell Tombstone ctx P key elt =
       Some (probeCell ctx P key kf - kf mod 8,
             if ?mt (entries ctx ! probeCell ctx P key kf) then Found (kf mod 8) else Stopped (kf mod 8))"
    by blast
  from addMapChildIndex_at[OF assms(1), of P key elt ci]
  obtain ka where ka: "stopsAt FirstValid ctx P key elt ka"
    and a: "addMapChildIndex ctx P key elt ci =
       (if ?mt (entries ctx ! probeCell ctx P key ka)
        then Some (False, ctx\<lparr>entries := (entries ctx)[probeCell ctx P key ka :=
                                  (entries ctx ! probeCell ctx P key ka)\<lparr>childIndex := ci\<rparr>]\<rparr>)
        else if 128 * (entryQty ctx + 1) > 115 * maxEntryQty ctx
        then map_option (Pair True)
               (resize (2 * maxEntryQty ctx)
                  (ctx\<lparr>entries := (entries ctx)[probeCell ctx P key ka :=
                                      \<lparr>hash = keyHashOf P key, childIndex = ci\<rparr>],
                       entryQty := entryQty ctx + 1\<rparr>))
        else Some (True, ctx\<lparr>entries := (entries ctx)[probeCell ctx P key ka :=
                                      \<lparr>hash = keyHashOf P key, childIndex = ci\<rparr>],
                              entryQty := entryQty ctx + 1\<rparr>))"
    by blast
  have pf: "probeCell ctx P key kf - kf mod 8 + kf mod 8 = probeCell ctx P key kf"
    using probeCell_split[of kf ctx P key] by simp
  have ef: "hash (entries ctx ! probeCell ctx P key kf) = Empty \<or> ?mt (entries ctx ! probeCell ctx P key kf)"
    using kf(1) unfolding stopsAt_def by (auto simp: lt_Tombstone)
  have ea: "hash (entries ctx ! probeCell ctx P key ka) = Empty \<or>
            hash (entries ctx ! probeCell ctx P key ka) = Tombstone \<or>
            ?mt (entries ctx ! probeCell ctx P key ka)"
    using ka unfolding stopsAt_def by (auto simp: lt_FirstValid)
  have g: "getMapChildIndex ctx P key elt =
       Some (if ?mt (entries ctx ! probeCell ctx P key kf)
             then childIndex (entries ctx ! probeCell ctx P key kf) else UINT_MAX)"
    unfolding getMapChildIndex_def kf(2) by (simp add: pf)
  have r: "removeMapChildIndex ndebug ctx P key elt =
       (if ?mt (entries ctx ! probeCell ctx P key kf)
        then Some (Inr (childIndex (entries ctx ! probeCell ctx P key kf),
                        ctx\<lparr>entries := (entries ctx)[probeCell ctx P key kf :=
                               \<lparr>hash = Tombstone, childIndex = UINT_MAX\<rparr>]\<rparr>))
        else if ndebug then Some (Inr (UINT_MAX, ctx)) else Some (Inl ()))"
    unfolding removeMapChildIndex_def kf(2) by (simp add: pf)
  from addMapChildIndex_ok[OF assms, of P key elt ci]
  obtain b ctx' where b: "addMapChildIndex ctx P key elt ci = Some (b, ctx')" by blast
  have "b \<longleftrightarrow> \<not> ?mt (entries ctx ! probeCell ctx P key ka)"
    using b unfolding a by (auto split: if_splits)
  with b have e: "\<exists>b ctx'. addMapChildIndex ctx P key elt ci = Some (b, ctx') \<and>
        (b \<longleftrightarrow> \<not> ?mt (entries ctx ! probeCell ctx P key ka))" by blast
  from kf(1) ka ef ea g r a e show ?thesis by blast
qed

theorem tombstone_rule_witness:
  "indexOk ctxT \<and> maxEntryQty ctxT < 2 ^ 31 \<and>
   hash (entries ctxT ! 8) = Tombstone \<and>
   getMapChildIndex ctxT 0 ''b'' (elements ctxT ! 0) = Some 1 \<and>
   addMapChildIndex ctxT 0 ''b'' (elements ctxT ! 0) 1 = Some (True, ctxT2) \<and>
   entries ctxT2 ! 8 = \<lparr>hash = keyHashOf 0 ''b'', childIndex = 1\<rparr>"
proof -
  have sm: "maxEntryQty ctxT < 2 ^ 31" by (simp add: ctxT_def)
  have p0: "probeCell ctxT 0 ''b'' 0 = 8" and p1: "probeCell ctxT 0 ''b'' (Suc 0) = 9"
    by (simp_all add: probeCell_def lineAt_def tri_def firstCell_def keyHash_b_0 tableMask_def
        KeyDirAssocQty_def ctxT_def)
  have m9: "cellMatches ctxT (elements ctxT ! 0) ''b'' (keyHashOf 0 ''b'') (entries ctxT ! 9)"
    by (simp add: keyHash_b_0 ctxT_def idx_eval)
  have m8: "\<not> cellMatches ctxT (elements ctxT ! 0) ''b'' (keyHashOf 0 ''b'') (entries ctxT ! 8)"
    by (simp add: keyHash_b_0 ctxT_def idx_eval)
  have h8: "hash (entries ctxT ! 8) = Tombstone" by (simp add: ctxT_def Tombstone_def)
  have sf: "stopsAt Tombstone ctxT 0 ''b'' (elements ctxT ! 0) (Suc 0)"
    unfolding stopsAt_def using p0 p1 m9 m8 h8 by simp
  have sa: "stopsAt FirstValid ctxT 0 ''b'' (elements ctxT ! 0) 0"
    unfolding stopsAt_def using p0 h8 by (simp add: lt_FirstValid)
  from tombstone_rule[OF ctxT_ok sm, where P = 0 and key = "''b''" and elt = "elements ctxT ! 0"
      and ndebug = True and ci = 1]
  obtain kf ka where r: "stopsAt Tombstone ctxT 0 ''b'' (elements ctxT ! 0) kf"
    "stopsAt FirstValid ctxT 0 ''b'' (elements ctxT ! 0) ka"
    "getMapChildIndex ctxT 0 ''b'' (elements ctxT ! 0) =
       Some (if cellMatches ctxT (elements ctxT ! 0) ''b'' (keyHashOf 0 ''b'')
                  (entries ctxT ! probeCell ctxT 0 ''b'' kf)
             then childIndex (entries ctxT ! probeCell ctxT 0 ''b'' kf) else UINT_MAX)"
    "addMapChildIndex ctxT 0 ''b'' (elements ctxT ! 0) 1 =
       (if cellMatches ctxT (elements ctxT ! 0) ''b'' (keyHashOf 0 ''b'')
             (entries ctxT ! probeCell ctxT 0 ''b'' ka)
        then Some (False, ctxT\<lparr>entries := (entries ctxT)[probeCell ctxT 0 ''b'' ka :=
                                  (entries ctxT ! probeCell ctxT 0 ''b'' ka)\<lparr>childIndex := 1\<rparr>]\<rparr>)
        else if 128 * (entryQty ctxT + 1) > 115 * maxEntryQty ctxT
        then map_option (Pair True)
               (resize (2 * maxEntryQty ctxT)
                  (ctxT\<lparr>entries := (entries ctxT)[probeCell ctxT 0 ''b'' ka :=
                                      \<lparr>hash = keyHashOf 0 ''b'', childIndex = 1\<rparr>],
                       entryQty := entryQty ctxT + 1\<rparr>))
        else Some (True, ctxT\<lparr>entries := (entries ctxT)[probeCell ctxT 0 ''b'' ka :=
                                      \<lparr>hash = keyHashOf 0 ''b'', childIndex = 1\<rparr>],
                              entryQty := entryQty ctxT + 1\<rparr>))"
    by blast
  have kf: "kf = Suc 0" using stopsAt_unique[OF r(1) sf] .
  have ka: "ka = 0" using stopsAt_unique[OF r(2) sa] .
  have g: "getMapChildIndex ctxT 0 ''b'' (elements ctxT ! 0) = Some 1"
    using r(3) m9 unfolding kf p1 by (simp add: ctxT_def)
  have a: "addMapChildIndex ctxT 0 ''b'' (elements ctxT ! 0) 1 = Some (True, ctxT2)"
    using r(4) m8 unfolding ka p0 by (simp add: keyHash_b_0 ctxT_def ctxT2_def)
  have w: "entries ctxT2 ! 8 = \<lparr>hash = keyHashOf 0 ''b'', childIndex = 1\<rparr>"
    by (simp add: keyHash_b_0 ctxT2_def)
  from ctxT_ok sm h8 g a w show ?thesis by simp
qed

text \<open>
  Claim C3 as stated fails: in the map built from the keys \<open>a\<close> and \<open>b\<close>, whose entries
  are neighbours in one line, removing the entry of \<open>a\<close> leaves a tombstone before the
  entry of \<open>b\<close>; adding \<open>b\<close> again then returns true, and the table holds two live entries.
\<close>

theorem tombstone_rule_counterexample:
  "map_option fst tombstoneScenario = Some True \<and>
   map_option (liveCells \<circ> entries \<circ> snd) tombstoneScenario = Some 2"
  by (simp add: tombstoneScenario_def build_ab tomb_a add_b)
     (simp add: ctxT2_def liveCells_def ge_FirstValid Empty_def Tombstone_def)

section \<open>Keys that are absent from a map\<close>

lemma strncmp0_take:
  "strncmp0 s key (length key) \<Longrightarrow> cNUL \<notin> set key \<Longrightarrow> take (length key) s = key"
proof (induction key arbitrary: s)
  case Nil
  then show ?case by simp
next
  case (Cons x xs)
  from Cons.prems(2) have x: "x \<noteq> cNUL" and xs: "cNUL \<notin> set xs" by auto
  show ?case
  proof (cases s)
    case Nil
    with Cons.prems(1) x show ?thesis by (simp add: Let_def)
  next
    case (Cons y ys)
    with Cons.prems(1) x have "y = x" "strncmp0 ys xs (length xs)"
      by (auto simp: Let_def split: if_splits)
    with Cons.IH[OF _ xs] Cons show ?thesis by simp
  qed
qed

lemma take_strncmp0:
  "take (length key) s = key \<Longrightarrow> strncmp0 s key (length key)"
proof (induction key arbitrary: s)
  case Nil
  then show ?case by simp
next
  case (Cons x xs)
  then obtain ys where s: "s = x # ys" "take (length xs) ys = xs" by (cases s) auto
  with Cons.IH[of ys] show ?case by (simp add: Let_def)
qed

lemma cellMatches_keyChild:
  assumes "cNUL \<notin> set key" "cellMatches ctx elt key h e"
  shows "keyChildAt ctx elt key (childIndex e)"
  using assms strncmp0_take[of "getString ctx (getStringIdx (elements ctx ! getSub elt (childIndex e)))" key]
  unfolding cellMatches_def keyChildAt_def
  by (auto simp: Let_def not_le split: if_splits)

lemma absent_no_match:
  assumes "cNUL \<notin> set key" "\<not> hasKeyChild ctx elt key"
  shows "\<not> cellMatches ctx elt key h e"
proof
  assume "cellMatches ctx elt key h e"
  from cellMatches_keyChild[OF assms(1) this] have k: "keyChildAt ctx elt key (childIndex e)" .
  then have "childIndex e < getSubQty elt" by (simp add: keyChildAt_def)
  with k assms(2) show False unfolding hasKeyChild_def by auto
qed

lemma findCell_absent:
  assumes ok: "indexOk ctx" and nul: "cNUL \<notin> set key" and ab: "\<not> hasKeyChild ctx elt key"
  shows "\<exists>i c. findCell Tombstone ctx P key elt = Some (i, Stopped c)"
proof -
  from findCell_indexOk[OF ok, of Tombstone P key elt]
  obtain l r where f: "findCell Tombstone ctx P key elt = Some (8 * l, r)" "r \<noteq> LineFull"
    "r = scanLine Tombstone (cellMatches ctx elt key (keyHashOf P key)) (entries ctx) (8 * l) 0"
    by auto
  have "r \<noteq> Found c" for c
  proof
    assume "r = Found c"
    with f(3) scanLine_Found[of Tombstone "cellMatches ctx elt key (keyHashOf P key)" "entries ctx" "8 * l" 0 c]
    have "cellMatches ctx elt key (keyHashOf P key) (entries ctx ! (8 * l + c))" by simp
    with absent_no_match[OF nul ab] show False by blast
  qed
  with f(2) obtain c where "r = Stopped c" by (cases r) auto
  with f(1) show ?thesis by blast
qed

lemma getMapChildIndex_absent:
  assumes "indexOk ctx" "cNUL \<notin> set key" "\<not> hasKeyChild ctx elt key"
  shows "getMapChildIndex ctx P key elt = Some UINT_MAX"
  using findCell_absent[OF assms, of P] unfolding getMapChildIndex_def by auto

lemma removeMapChildIndex_absent:
  assumes "indexOk ctx" "cNUL \<notin> set key" "\<not> hasKeyChild ctx elt key"
  shows "removeMapChildIndex ndebug ctx P key elt = (if ndebug then Some (Inr (UINT_MAX, ctx)) else Some (Inl ()))"
  using findCell_absent[OF assms, of P] unfolding removeMapChildIndex_def by auto

lemma cstr_nul_free: "cNUL \<notin> set key \<Longrightarrow> cstr key = key"
  unfolding cstr_def by (induction key) auto

lemma ctxAB_ok: "indexOk ctxAB"
proof -
  have "(16::nat) \<in> (\<lambda>m. 2 ^ m) ` {4..<32}" by (intro image_eqI[of _ _ 4]) simp_all
  then show ?thesis
    by (simp add: indexOk_def tableShape_def usedCells_def maxLoad128th_def Empty_def ctxAB_def)
qed

lemma ctxAB_no_c: "\<not> hasKeyChild ctxAB (elements ctxAB ! 0) ''c''"
  by (simp add: hasKeyChild_def keyChildAt_def ctxAB_def getSubQty_def getType_def getSub_def
      getStringSize_def getStringIdx_def getString_def numeral_2_eq_2 lessThan_Suc)

lemma ctxAB_map: "getType (elements ctxAB ! 0) = MAP"
  by (simp add: ctxAB_def getType_def)

section \<open>Pending-key handles\<close>

lemma wyhash_nul1: "wyhash [CHR ''a'', cNUL, CHR ''d'', CHR ''u'', CHR ''q'', CHR ''i''] = 0xe5d5f7184363b7ac"
proof -
  have l: "length [CHR ''a'', cNUL, CHR ''d'', CHR ''u'', CHR ''q'', CHR ''i''] = 6" by simp
  show ?thesis unfolding wyhash_def l by (simp add: wy_eval)
qed

lemma keyHash_nul1_0: "keyHashOf 0 [CHR ''a'', cNUL, CHR ''d'', CHR ''u'', CHR ''q'', CHR ''i''] = 0x4363b7ac"
  by (simp add: keyHashOf_def wyhash_nul1 FirstValid_def)

lemma wyhash_nul2: "wyhash [CHR ''a'', cNUL, CHR ''j'', CHR ''b'', CHR ''w'', CHR ''f''] = 0x9d361ee44363b7ac"
proof -
  have l: "length [CHR ''a'', cNUL, CHR ''j'', CHR ''b'', CHR ''w'', CHR ''f''] = 6" by simp
  show ?thesis unfolding wyhash_def l by (simp add: wy_eval)
qed

lemma keyHash_nul2_0: "keyHashOf 0 [CHR ''a'', cNUL, CHR ''j'', CHR ''b'', CHR ''w'', CHR ''f''] = 0x4363b7ac"
  by (simp add: keyHashOf_def wyhash_nul2 FirstValid_def)

text \<open>
  Claim C8, as amended. On a handle of a map: indexing with the empty key is an access
  error; indexing a pending-key handle with a key that is not empty is an access error;
  indexing an ordinary handle with a key that is not empty, has no zero byte and is not
  the name of a key child of the map returns the pending-key handle of the key, which
  converts to false, whose reading without a default value is an access error, and
  whose reading with a default value returns the default.
\<close>

theorem pending_key_handle:
  assumes "getType (elements ctx ! nodeEltIdx n) = MAP"
  shows "(key = [] \<longrightarrow> nodeIndex ctx n key = Some (Inl emptyKeyError)) \<and>
         (key \<noteq> [] \<and> nonExistingKey n \<noteq> [] \<longrightarrow>
            nodeIndex ctx n key = Some (Inl (nonExistentError n))) \<and>
         (key \<noteq> [] \<and> nonExistingKey n = [] \<and> indexOk ctx \<and> cNUL \<notin> set key \<and>
          \<not> hasKeyChild ctx (elements ctx ! nodeEltIdx n) key \<longrightarrow>
            nodeIndex ctx n key = Some (Inr (mkPendingNode (nodeEltIdx n) key)) \<and>
            \<not> nodeBool ctx (mkPendingNode (nodeEltIdx n) key) \<and>
            nodeAs typeName decode ctx (mkPendingNode (nodeEltIdx n) key) =
              Inl (AccessException (throwMessage
                (''Access error: unable to cast this node into (mangle) type '' @ [cSQ] @ typeName @
                 [cSQ] @ ''  as the key '' @ [cSQ] @ key @ [cSQ] @ '' does not exist''))) \<and>
            nodeAsDefault decode defaultValue ctx (mkPendingNode (nodeEltIdx n) key) = Inr defaultValue)"
proof (intro conjI impI)
  assume "key = []"
  with assms show "nodeIndex ctx n key = Some (Inl emptyKeyError)"
    unfolding nodeIndex_def by (simp add: Let_def)
next
  assume "key \<noteq> [] \<and> nonExistingKey n \<noteq> []"
  with assms show "nodeIndex ctx n key = Some (Inl (nonExistentError n))"
    unfolding nodeIndex_def by (simp add: Let_def)
next
  assume a: "key \<noteq> [] \<and> nonExistingKey n = [] \<and> indexOk ctx \<and> cNUL \<notin> set key \<and>
          \<not> hasKeyChild ctx (elements ctx ! nodeEltIdx n) key"
  then have g: "getMapChildIndex ctx (nodeEltIdx n) key (elements ctx ! nodeEltIdx n) = Some UINT_MAX"
    by (intro getMapChildIndex_absent) simp_all
  from a assms g show "nodeIndex ctx n key = Some (Inr (mkPendingNode (nodeEltIdx n) key))"
    unfolding nodeIndex_def by (simp add: Let_def)
next
  assume a: "key \<noteq> [] \<and> nonExistingKey n = [] \<and> indexOk ctx \<and> cNUL \<notin> set key \<and>
          \<not> hasKeyChild ctx (elements ctx ! nodeEltIdx n) key"
  with assms show "\<not> nodeBool ctx (mkPendingNode (nodeEltIdx n) key)"
    by (simp add: nodeBool_def mkPendingNode_def)
next
  assume a: "key \<noteq> [] \<and> nonExistingKey n = [] \<and> indexOk ctx \<and> cNUL \<notin> set key \<and>
          \<not> hasKeyChild ctx (elements ctx ! nodeEltIdx n) key"
  then have "cstr key = key" by (intro cstr_nul_free) simp
  with a assms show "nodeAs typeName decode ctx (mkPendingNode (nodeEltIdx n) key) =
              Inl (AccessException (throwMessage
                (''Access error: unable to cast this node into (mangle) type '' @ [cSQ] @ typeName @
                 [cSQ] @ ''  as the key '' @ [cSQ] @ key @ [cSQ] @ '' does not exist'')))"
    by (simp add: nodeAs_def mkPendingNode_def Let_def)
next
  assume a: "key \<noteq> [] \<and> nonExistingKey n = [] \<and> indexOk ctx \<and> cNUL \<notin> set key \<and>
          \<not> hasKeyChild ctx (elements ctx ! nodeEltIdx n) key"
  with assms show "nodeAsDefault decode defaultValue ctx (mkPendingNode (nodeEltIdx n) key) = Inr defaultValue"
    by (simp add: nodeAsDefault_def mkPendingNode_def Let_def)
qed

text \<open>
  The three cases on the map with the keys \<open>a\<close> and \<open>b\<close>: the empty key on the handle of
  the map, the key \<open>d\<close> on the pending handle of the key \<open>c\<close>, and the absent key \<open>c\<close> on
  the handle of the map.
\<close>

theorem pending_key_handle_witness:
  "getType (elements ctxAB ! nodeEltIdx (mkNode 0)) = MAP \<and>
   getType (elements ctxAB ! nodeEltIdx (mkPendingNode 0 ''c'')) = MAP \<and>
   nodeIndex ctxAB (mkNode 0) [] = Some (Inl emptyKeyError) \<and>
   nodeIndex ctxAB (mkPendingNode 0 ''c'') ''d'' = Some (Inl (nonExistentError (mkPendingNode 0 ''c''))) \<and>
   indexOk ctxAB \<and> cNUL \<notin> set ''c'' \<and>
   \<not> hasKeyChild ctxAB (elements ctxAB ! nodeEltIdx (mkNode 0)) ''c'' \<and>
   nodeIndex ctxAB (mkNode 0) ''c'' = Some (Inr (mkPendingNode 0 ''c'')) \<and>
   \<not> nodeBool ctxAB (mkPendingNode 0 ''c'') \<and>
   nodeAsDefault Inr ''d'' ctxAB (mkPendingNode 0 ''c'') = Inr ''d''"
proof -
  have n: "nodeEltIdx (mkNode 0) = 0" "nonExistingKey (mkNode 0) = []"
    "nodeEltIdx (mkPendingNode 0 ''c'') = 0" "nonExistingKey (mkPendingNode 0 ''c'') = ''c''"
    by (simp_all add: mkNode_def mkPendingNode_def)
  have t0: "getType (elements ctxAB ! nodeEltIdx (mkNode 0)) = MAP"
    and t1: "getType (elements ctxAB ! nodeEltIdx (mkPendingNode 0 ''c'')) = MAP"
    using ctxAB_map by (simp_all add: n)
  have k: "''c'' \<noteq> []" "cNUL \<notin> set ''c''" by simp_all
  have e: "nodeIndex ctxAB (mkNode 0) [] = Some (Inl emptyKeyError)"
    using pending_key_handle[OF t0, where key = "[]"] by simp
  have p: "nodeIndex ctxAB (mkPendingNode 0 ''c'') ''d'' =
             Some (Inl (nonExistentError (mkPendingNode 0 ''c'')))"
    using pending_key_handle[OF t1, where key = "''d''"] by (simp add: n)
  from pending_key_handle[OF t0, where key = "''c''" and typeName = "''i''" and decode = Inr
      and defaultValue = "''d''"] ctxAB_ok ctxAB_no_c n k t0 t1 e p
  show ?thesis by simp
qed

text \<open>
  Claim C8 as stated fails. The empty key is the name of no key of a new map, and
  indexing the map with it is an access error. On the pending handle of the key \<open>a\<close> of a
  new map, indexing with the key \<open>b\<close>, which the map does not have, is an access error.
  In the map whose only key is the six bytes \<open>a\<close>, zero, \<open>duqi\<close>, the key \<open>a\<close>, zero,
  \<open>jbwf\<close> is absent, has the same 32-bit hash, and is equal to the first up to the zero
  byte where \<open>strncmp\<close> stops: indexing with it returns the handle of the value of the
  first key, which converts to true.
\<close>

theorem pending_key_handle_counterexample:
  "emptyKeyScenario = Some (False, Inl emptyKeyError) \<and>
   pendingIndexScenario = Some (False, Inl (nonExistentError (mkPendingNode 0 ''a''))) \<and>
   zeroByteScenario = Some (False, Inr (mkNode 1, True))"
proof -
  have e: "emptyKeyScenario = Some (False, Inl emptyKeyError)"
    by (simp add: emptyKeyScenario_def api_eval nodeIndex_def hasKeyChild_def getType_def getSubQty_def)
  have p: "pendingIndexScenario = Some (False, Inl (nonExistentError (mkPendingNode 0 ''a'')))"
    by (simp add: pendingIndexScenario_def api_eval nodeIndex_def hasKeyChild_def idx_eval
        keyHash_a_0 word_cmp)
  have z: "zeroByteScenario = Some (False, Inr (mkNode 1, True))"
    by (simp add: zeroByteScenario_def api_eval nodeIndex_def nodeBool_def hasKeyChild_def
        keyChildAt_def idx_eval keyHash_nul1_0 keyHash_nul2_0 word_cmp)
  from e p z show ?thesis by simp
qed

section \<open>Removal of an absent key\<close>

text \<open>
  Claim C10. For a key without a zero byte that is not the name of a key child of the
  map, \<open>remove\<close> reaches the end of \<open>removeMapChildIndex\<close>: compiled with \<open>NDEBUG\<close> it
  returns false and the context is unchanged; with the assertions enabled the call
  aborts on \<open>assert(false && "Key not present")\<close>.
\<close>

theorem remove_absent_key:
  assumes "indexOk ctx" and "getType (elements ctx ! nodeEltIdx n) = MAP"
    and "cNUL \<notin> set key"
    and "\<not> hasKeyChild ctx (elements ctx ! nodeEltIdx n) key"
  shows "removeKey True ctx n key = Some (Returned (False, ctx)) \<and>
         removeKey False ctx n key = Some Aborted"
  using assms(2) removeMapChildIndex_absent[OF assms(1,3,4), of _ "nodeEltIdx n"]
  unfolding removeKey_def by (simp add: Let_def)


theorem remove_absent_key_witness:
  "indexOk ctxAB \<and> getType (elements ctxAB ! nodeEltIdx (mkNode 0)) = MAP \<and> cNUL \<notin> set ''c'' \<and>
   \<not> hasKeyChild ctxAB (elements ctxAB ! nodeEltIdx (mkNode 0)) ''c'' \<and>
   removeKey True ctxAB (mkNode 0) ''c'' = Some (Returned (False, ctxAB)) \<and>
   removeKey False ctxAB (mkNode 0) ''c'' = Some Aborted"
proof -
  have n: "nodeEltIdx (mkNode 0) = 0" by (simp add: mkNode_def)
  have k: "cNUL \<notin> set ''c''" by simp
  from remove_absent_key[of ctxAB "mkNode 0" "''c''"] ctxAB_ok ctxAB_map ctxAB_no_c n k
  show ?thesis by simp
qed

section \<open>Index consistency\<close>

lemmas api_eval2 = api_eval nodeIndex_def assignKindAt_def assignValueAt_def childNode_def
  assignValue_def hasKey_def removeKey_def eraseSub_def replaceSub_def

lemma wyhash_kuh: "wyhash ''kuh'' = 0x4e66e0fe5f60c5c1"
proof -
  have l: "length ''kuh'' = 3" by simp
  show ?thesis unfolding wyhash_def l by (simp add: wy_eval)
qed

lemma wyhash_ahzu: "wyhash ''ahzu'' = 0xc9d53e0e5f60c5c3"
proof -
  have l: "length ''ahzu'' = 4" by simp
  show ?thesis unfolding wyhash_def l by (simp add: wy_eval)
qed

lemma keyHash_kuh_1: "keyHashOf 1 ''kuh'' = 0x5f60c5c0"
  by (simp add: keyHashOf_def wyhash_kuh FirstValid_def)

lemma keyHash_ahzu_3: "keyHashOf 3 ''ahzu'' = 0x5f60c5c0"
  by (simp add: keyHashOf_def wyhash_ahzu FirstValid_def)


lemma keyHash_kuh_S: "keyHashOf (Suc 0) ''kuh'' = 0x5f60c5c0"
  using keyHash_kuh_1 by simp

lemma collide_new: "newMapDocument = Some (ctxM0, mkNode 0)"
  by (simp add: api_eval idx_eval ctxM0_def)

lemma collide_map_a: "assignKindAt ctxM0 (mkNode 0) ''a'' MAP = Some ctxM1"
  by (simp add: api_eval2 idx_eval word_cmp keyHash_a_0 ctxM0_def ctxM1_def)

lemma collide_map_b: "assignKindAt ctxM1 (mkNode 0) ''b'' MAP = Some ctxM2"
  by (simp add: api_eval2 idx_eval word_cmp keyHash_b_0 ctxM1_def ctxM2_def)

lemma collide_node_a: "childNode ctxM2 (mkNode 0) ''a'' = Some (mkNode (Suc 0))"
  by (simp add: api_eval2 idx_eval word_cmp keyHash_a_0 ctxM2_def)

lemma collide_node_b: "childNode ctxM2 (mkNode 0) ''b'' = Some (mkNode 3)"
  by (simp add: api_eval2 idx_eval word_cmp keyHash_b_0 ctxM2_def)

lemma collide_kuh: "assignValueAt ctxM2 (mkNode (Suc 0)) ''kuh'' ''x'' = Some ctxM3"
  by (simp add: api_eval2 idx_eval word_cmp keyHash_kuh_S ctxM2_def ctxM3_def)

lemma collide_ahzu: "assignValueAt ctxM3 (mkNode 3) ''ahzu'' ''y'' = Some ctxM4"
  by (simp add: api_eval2 idx_eval word_cmp keyHash_ahzu_3 ctxM3_def ctxM4_def)

lemma collide_remove: "removeKey ndebug ctxM4 (mkNode 3) ''ahzu'' = Some (Returned (True, ctxM5))"
  by (simp add: api_eval2 idx_eval word_cmp keyHash_ahzu_3 ctxM4_def ctxM5_def)

lemma collide_hasKey: "hasKey ctxM5 (mkNode (Suc 0)) ''kuh'' = Some (Inr False)"
  by (simp add: api_eval2 idx_eval word_cmp keyHash_kuh_S ctxM5_def)

lemma collide_child: "hasKeyChild ctxM5 (elements ctxM5 ! nodeEltIdx (mkNode (Suc 0))) ''kuh''"
  by (simp add: hasKeyChild_def keyChildAt_def ctxM5_def mkNode_def getSubQty_def getType_def getSub_def
      getStringSize_def getStringIdx_def getString_def)

text \<open>
  Claim C2 fails on the code. The keys \<open>kuh\<close> of the map at element 1 and \<open>ahzu\<close> of the
  map at element 3 have the same 32-bit hash once the index of the parent is mixed in, and
  both are the child 0 of their map: the insertion of \<open>ahzu\<close> takes the entry of \<open>kuh\<close> for
  its own and replaces it, and its removal leaves a tombstone there. After that the
  index does not find \<open>kuh\<close>, which is still the name of the key child 0 of its map.
\<close>

theorem index_collision: "collisionScenario ndebug = Some (False, True)"
  by (simp add: collisionScenario_def collide_new collide_map_a collide_map_b collide_node_a
      collide_node_b collide_kuh collide_ahzu collide_remove collide_hasKey collide_child)

section \<open>Proofs: evaluation of the parser\<close>

lemma andThen_simps:
  "andThen (Returned x) f = f x" "andThen (Thrown e) f = Thrown e"
  "andThen Aborted f = Aborted" "andThen Undefined f = Undefined"
  by (simp_all add: andThen_def)

lemma andThen_cong: "r = r' \<Longrightarrow> andThen r f = andThen r' f"
  by simp

lemma digit_chars:
  "char_of (48::nat) = CHR ''0''" "char_of (49::nat) = CHR ''1''" "char_of (50::nat) = CHR ''2''"
  "char_of (51::nat) = CHR ''3''" "char_of (52::nat) = CHR ''4''" "char_of (53::nat) = CHR ''5''"
  "char_of (54::nat) = CHR ''6''" "char_of (55::nat) = CHR ''7''" "char_of (56::nat) = CHR ''8''"
  "char_of (57::nat) = CHR ''9''"
  by (simp_all add: char_of_def bit_iff_odd)

lemmas tok_eval = getToken_def stringHeader_def headerPass_def lineLoop.simps lineStep_def modeLine_def
  plainLine_def plainGoesOn_def literalLine_def foldedLine_def sqLine_def sqLoop.simps dqLine_def
  dqLoop.simps dqEscape_def scanWhile.simps charAt_def slice_def isEol_def eolSize_def mkToken_def
  shStartSession_def shAddLine_def shAddChar_def shAddChunk_def shAddChunkNoTrail_def trimSize.simps
  shEndLine_def shEmpty_def shRemoveTrailingLines_def dropBlankChunks.simps findFirstNotOf.simps
  finishString_def addChunksToSession.simps startStringSession_def addToSession_def commitSession_def
  andThen_simps throwParsing_def showInt_def showNat.simps digitChar_def digit_chars UINT_MAX_def Let_def addString_def

lemmas parse_eval = parse_def parseN_def parseInit_def parseLoop.simps parseStep_def commentCase_def
  lastComment.simps caretCase_def caretPopLoop.simps caretPops_def keyCase_def keyPopLoop.simps
  valueCase_def popItem_def setBack_def mkItem_def parseError_def psElements_def psSetElements_def
  duplicatedKeyMessage_def nodeTypeName_def parsedTree_def
  newContext_def resize_def InitMapSize_def emptyEntry_def rep16 addStringElt_def setString_def
  newElement_def reset_def newStringElement_def addSub_def ensureSpaceForOne_def
  addMapChildIndex_def maxLoad128th_def setComment_def getNextCommentIndex_def setStandalone_def
  cstr_def

lemmas weak_congs = let_weak_cong andThen_cong outcome.case_cong_weak prod.case_cong_weak
  option.case_cong_weak TokenType.case_cong_weak

lemma keyHash_k_1: "keyHashOf 1 ''k'' = 0x16bd854e"
  by (simp add: keyHashOf_def wyhash_k FirstValid_def)

lemma keyHash_k_S: "keyHashOf (Suc 0) ''k'' = 0x16bd854e"
  using keyHash_k_1 by simp

section \<open>Proofs: tabulations (claim C7)\<close>

lemma tab_own_line:
  "parse ndebug tabOwnLine =
     Some (Thrown (ParseException
       (tabulationMessage @ [cLF] @ ''  In line 3: '' @ [cDQ] @ ''  abc'' @ [cDQ])))"
  by (simp add: parse_eval tok_eval idx_eval word_cmp keyHash_k_1 keyHash_k_S tabOwnLine_def
        tabulationMessage_def cong: weak_congs)

lemma tab_in_value:
  "parsedTree (parse ndebug tabInValue) =
     Some (Returned
       ([mkElt KEY 1 0 1 0 [], mkElt MAP 1 0 0 0 [2], mkElt KEY 2 1 3 0 [], mkElt VALUE 4 3 0 0 []],
        [cNUL, CHR ''k'', cNUL, CHR ''a'', cTAB, CHR ''b'', cNUL]))"
  by (simp add: parse_eval tok_eval idx_eval word_cmp keyHash_k_1 keyHash_k_S tabInValue_def
        cong: weak_congs)

text \<open>
  Claim C7. A tab among the leading indentation of a line is not always refused: when a
  plain value starts on the line of its key and goes on in a next line indented with a
  space and a tab, the document is returned, and the tab is part of the value: the value of
  the key is the string of 9 bytes at index 3 of the arena, which reads abc, a space, a
  tab, def. The check of the tabulation in the loop over the lines of a string depends on
  a flag computed once, at the start of the token.
\<close>

theorem tab_in_continuation_line:
  "parsedTree (parse ndebug tabContinuation) =
     Some (Returned
       ([mkElt KEY 1 0 1 0 [], mkElt MAP 1 0 0 0 [2], mkElt KEY 2 1 3 0 [], mkElt VALUE 9 3 0 0 []],
        [cNUL, CHR ''k'', cNUL, CHR ''a'', CHR ''b'', CHR ''c'', cSP, cTAB,
         CHR ''d'', CHR ''e'', CHR ''f'', cNUL]))"
  by (simp add: parse_eval tok_eval idx_eval word_cmp keyHash_k_1 keyHash_k_S tabContinuation_def
        cong: weak_congs)


end
